(* ===== verification/Prelude.thy ===== *)
theory Prelude
  imports Main "HOL-Library.AList"
begin

text \<open>
  What every component theory shares.

  A Go map is an association list with distinct keys: the list order stands
  for one iteration order of the map (Go leaves it unspecified; every theorem
  is proved for an arbitrary list, hence for every order).  Lookup is
  \<^const>\<open>map_of\<close> (the Go \<open>nil\<close> pointer is \<^const>\<open>None\<close>), \<open>m[k] = v\<close> is
  \<open>AList.update k v m\<close> and \<open>delete(m, k)\<close> is \<open>AList.delete k m\<close>.  The locale
  \<open>go_map\<close> is the contract the components use, interpreted here on these
  association lists.  A Go \<open>(value, error)\<close> pair is a sum whose left side is
  the error.
\<close>

section \<open>Collections\<close>

named_theorems go_defs \<open>unfolding equations of small model helpers\<close>
named_theorems index_simps \<open>lookups in an index after an update loop\<close>

section \<open>Results\<close>

type_synonym ('e, 'a) result = "'e + 'a"

abbreviation Err :: "'e \<Rightarrow> ('e, 'a) result" where
  "Err \<equiv> Inl"

abbreviation Ok :: "'a \<Rightarrow> ('e, 'a) result" where
  "Ok \<equiv> Inr"

fun is_ok :: "('e, 'a) result \<Rightarrow> bool" where
  "is_ok (Inl _) = False"
| "is_ok (Inr _) = True"

lemma is_ok_iff: "is_ok r \<longleftrightarrow> (\<exists>a. r = Ok a)"
  by (cases r) auto

section \<open>Go maps\<close>

type_synonym ('k, 'v) gomap = "('k \<times> 'v) list"

definition map_ok :: "('k, 'v) gomap \<Rightarrow> bool" where
  "map_ok m \<longleftrightarrow> distinct (map fst m)"

text \<open>Reading a \<open>map[K]string\<close>: a missing key reads as the empty string.\<close>

definition get_str :: "('k, string) gomap \<Rightarrow> 'k \<Rightarrow> string" where
  "get_str m k = (case map_of m k of None \<Rightarrow> [] | Some v \<Rightarrow> v)"

locale go_map =
  fixes get :: "'m \<Rightarrow> 'k \<Rightarrow> 'v option"
    and put :: "'k \<Rightarrow> 'v \<Rightarrow> 'm \<Rightarrow> 'm"
    and del :: "'k \<Rightarrow> 'm \<Rightarrow> 'm"
    and ok :: "'m \<Rightarrow> bool"
  assumes get_put: "get (put k v m) = (get m)(k \<mapsto> v)"
    and get_del: "get (del k m) = (get m)(k := None)"
    and ok_put: "ok m \<Longrightarrow> ok (put k v m)"
    and ok_del: "ok m \<Longrightarrow> ok (del k m)"
begin

lemma ok_fold_put: "ok m \<Longrightarrow> ok (fold (\<lambda>k. put k v) ks m)"
  by (induction ks arbitrary: m) (auto intro: ok_put)

lemma get_fold_put: "get (fold (\<lambda>k. put k v) ks m) j = (if j \<in> set ks then Some v else get m j)"
  by (induction ks arbitrary: m) (auto simp: get_put)

text \<open>The loop \<open>for _, k := range ks { if m[k] == v { delete(m, k) } }\<close>.\<close>

lemma ok_fold_del_if: "ok m \<Longrightarrow> ok (fold (\<lambda>k m. if get m k = Some v then del k m else m) ks m)"
  by (induction ks arbitrary: m) (auto intro: ok_del)

lemma get_fold_del_if:
  "get (fold (\<lambda>k m. if get m k = Some v then del k m else m) ks m) j =
     (if j \<in> set ks \<and> get m j = Some v then None else get m j)"
  by (induction ks arbitrary: m) (auto simp: get_del)

lemma get_put_idem: "get m k = Some v \<Longrightarrow> get (put k v m) = get m"
  by (auto simp: get_put)

end

interpretation am: go_map map_of AList.update AList.delete map_ok
  by unfold_locales
    (simp_all add: update_conv' delete_conv' map_ok_def distinct_update distinct_delete)

lemmas [simp] = am.get_put am.get_del
lemmas [intro, simp] = am.ok_put am.ok_del am.ok_fold_put am.ok_fold_del_if
lemmas [index_simps] = am.get_fold_put am.get_fold_del_if

lemma map_ok_Nil [simp, intro]: "map_ok []"
  by (simp add: map_ok_def)

lemma get_str_eq_nonempty: "n \<noteq> [] \<Longrightarrow> get_str m k = n \<longleftrightarrow> map_of m k = Some n"
  by (auto simp: get_str_def split: option.splits)

lemma map_of_mem: "map_ok m \<Longrightarrow> map_of m k = Some v \<longleftrightarrow> (k, v) \<in> set m"
  by (simp add: map_ok_def)

lemma map_of_ran_set: "map_ok m \<Longrightarrow> v \<in> snd ` set m \<longleftrightarrow> (\<exists>k. map_of m k = Some v)"
  by (force simp: map_of_mem)

text \<open>Maps keyed by a field of their own values.\<close>

lemma keyed_by: "map fst xs = map f (map snd xs) \<Longrightarrow> xs = map (\<lambda>r. (f r, r)) (map snd xs)"
  by (induction xs) auto

lemma map_of_keyed: "distinct (map f rs) \<Longrightarrow> r \<in> set rs \<Longrightarrow> map_of (map (\<lambda>r. (f r, r)) rs) (f r) = Some r"
  by (induction rs) (auto simp: rev_image_eqI)

lemma map_of_keyed_all:
  "distinct (map f rs) \<Longrightarrow> map (\<lambda>n. the (map_of (map (\<lambda>r. (f r, r)) rs) n)) (map f rs) = rs"
  by (simp only: map_map comp_def) (auto simp: map_of_keyed intro!: map_idI)

lemma length_filter_map:
  assumes "map_ok m"
  shows "length (filter P m) = card {k. \<exists>v. map_of m k = Some v \<and> P (k, v)}"
proof -
  have "distinct (map fst (filter P m))"
    using assms by (simp add: map_ok_def distinct_map_filter)
  then have "length (filter P m) = card (fst ` set (filter P m))"
    by (metis distinct_card length_map list.set_map)
  also have "fst ` set (filter P m) = {k. \<exists>v. map_of m k = Some v \<and> P (k, v)}"
    using assms by (force simp: map_of_mem)
  finally show ?thesis .
qed

lemma finite_map_of: "finite {k. \<exists>v. map_of m k = Some v \<and> P k v}"
  by (rule finite_subset [OF _ finite_dom_map_of [of m]]) auto

section \<open>Lists\<close>

lemma find_Some_iff_mem: "find P xs = Some x \<Longrightarrow> x \<in> set xs \<and> P x"
  by (induction xs) (auto split: if_splits)

lemma find_None_iff_all: "find P xs = None \<longleftrightarrow> (\<forall>x\<in>set xs. \<not> P x)"
  by (induction xs) auto

lemma length_filter_le_if: "(\<And>x. x \<in> set xs \<Longrightarrow> P x \<Longrightarrow> Q x) \<Longrightarrow> length (filter P xs) \<le> length (filter Q xs)"
  by (induction xs) auto

lemma fold_invariant_list:
  "I s \<Longrightarrow> (\<And>x s. x \<in> set xs \<Longrightarrow> I s \<Longrightarrow> I (f x s)) \<Longrightarrow> I (fold f xs s)"
  by (induction xs arbitrary: s) auto

lemma map_of_filter_pair:
  assumes "map_ok m"
  shows "map_of (filter P m) k = (case map_of m k of None \<Rightarrow> None | Some v \<Rightarrow> if P (k, v) then Some v else None)"
  using assms by (induction m) (auto simp: map_ok_def map_of_eq_None_iff split: option.split)

end
