(* ===== verification/Go_Path.thy ===== *)
theory Go_Path
  imports Go_Strings
begin

text \<open>
  Go's \<open>path.Match\<close>, the pattern language of token policies, with the
  structure of the standard library's code: the pattern is cut into chunks at
  unescaped stars, each chunk is matched by \<open>matchChunk\<close>, a star retries its
  chunk at later positions.  \<^const>\<open>None\<close> is \<open>ErrBadPattern\<close>.  Strings are
  ASCII: a rune is a byte.
\<close>

section \<open>Definitions\<close>

definition getEsc :: "string \<Rightarrow> (char \<times> string) option" where
  "getEsc chunk =
     (case chunk of
        [] \<Rightarrow> None
      | c # cs \<Rightarrow>
          if c = CHR ''-'' \<or> c = CHR '']'' then None
          else case (if c = CHR 0x5C then cs else chunk) of
                 [] \<Rightarrow> None
               | r # nchunk \<Rightarrow> if nchunk = [] then None else Some (r, nchunk))"

lemma getEsc_length: "getEsc chunk = Some (r, rest) \<Longrightarrow> length rest < length chunk"
  by (auto simp: getEsc_def split: list.splits if_splits)

text \<open>The loop over the ranges of a character class; \<open>seen\<close> is \<open>nrange > 0\<close>.\<close>

function classLoop :: "char \<Rightarrow> bool \<Rightarrow> bool \<Rightarrow> string \<Rightarrow> (bool \<times> string) option" where
  "classLoop r seen matched chunk =
     (if seen \<and> chunk \<noteq> [] \<and> hd chunk = CHR '']'' then Some (matched, tl chunk)
      else case getEsc chunk of
             None \<Rightarrow> None
           | Some (lo, chunk1) \<Rightarrow>
               (case (if hd chunk1 = CHR ''-'' then getEsc (tl chunk1) else Some (lo, chunk1)) of
                  None \<Rightarrow> None
                | Some (hi, chunk2) \<Rightarrow> classLoop r True (matched \<or> (lo \<le> r \<and> r \<le> hi)) chunk2))"
  by pat_completeness auto
termination
proof (relation "measure (\<lambda>(r, seen, matched, chunk). length chunk)", goal_cases)
  case (2 r seen matched chunk p lo chunk1 q hi chunk2)
  then show ?case
    by (auto split: if_splits dest!: getEsc_length)
qed simp

declare classLoop.simps [simp del]

lemma classLoop_length: "classLoop r seen matched chunk = Some (b, rest) \<Longrightarrow> length rest < length chunk"
proof (induction r seen matched chunk rule: classLoop.induct)
  case (1 r seen matched chunk)
  show ?case
  proof (cases "seen \<and> chunk \<noteq> [] \<and> hd chunk = CHR '']''")
    case True
    then show ?thesis
      using "1.prems" by (subst (asm) classLoop.simps) (cases chunk; simp)
  next
    case False
    then obtain lo chunk1 hi chunk2 where
        esc: "getEsc chunk = Some (lo, chunk1)"
        and range: "(if hd chunk1 = CHR ''-'' then getEsc (tl chunk1) else Some (lo, chunk1)) = Some (hi, chunk2)"
        and rec: "classLoop r True (matched \<or> (lo \<le> r \<and> r \<le> hi)) chunk2 = Some (b, rest)"
      using "1.prems" by (simp add: classLoop.simps [of r seen]) (auto split: option.splits)
    have "length chunk2 < length chunk"
      using esc range by (auto split: if_splits dest!: getEsc_length)
    moreover have "length rest < length chunk2"
      using "1.IH" [OF False esc refl range refl rec] .
    ultimately show ?thesis by simp
  qed
qed

text \<open>\<open>matchChunk\<close>: bad pattern, no match, or the rest of the name.\<close>

function matchChunk :: "bool \<Rightarrow> string \<Rightarrow> string \<Rightarrow> string option option" where
  "matchChunk failed0 chunk s =
     (case chunk of
        [] \<Rightarrow> Some (if failed0 then None else Some s)
      | c # cs \<Rightarrow>
          (let failed = (failed0 \<or> s = []) in
           if c = CHR ''['' then
             (let r = (if failed then CHR 0x00 else hd s);
                  s' = (if failed then s else tl s);
                  negated = (cs \<noteq> [] \<and> hd cs = CHR ''^'');
                  body = (if negated then tl cs else cs)
              in case classLoop r False False body of
                   None \<Rightarrow> None
                 | Some (matched, rest) \<Rightarrow> matchChunk (failed \<or> matched = negated) rest s')
           else if c = CHR ''?'' then
             (if failed then matchChunk True cs s
              else matchChunk (hd s = CHR ''/'') cs (tl s))
           else
             (case (if c = CHR 0x5C then cs else chunk) of
                [] \<Rightarrow> None
              | l # rest \<Rightarrow>
                  if failed then matchChunk True rest s
                  else matchChunk (l \<noteq> hd s) rest (tl s))))"
  by pat_completeness auto
termination
  by (relation "measure (\<lambda>(failed, chunk, s). length chunk)")
    (auto split: if_splits dest!: classLoop_length)

declare matchChunk.simps [simp del]

text \<open>\<open>scanChunk\<close>: strip the stars, then scan to the next star outside a class.\<close>

definition inClass :: "char \<Rightarrow> bool \<Rightarrow> bool" where
  "inClass c inrange = (if c = CHR ''['' then True else if c = CHR '']'' then False else inrange)"

fun scanBody :: "bool \<Rightarrow> string \<Rightarrow> string \<times> string" where
  "scanBody inrange [] = ([], [])"
| "scanBody inrange (c # cs) =
     (if c = CHR 0x5C then
        (case cs of
           [] \<Rightarrow> ([c], [])
         | d # ds \<Rightarrow> let (chunk, rest) = scanBody inrange ds in (c # d # chunk, rest))
      else if c = CHR ''*'' \<and> \<not> inrange then ([], c # cs)
      else let (chunk, rest) = scanBody (inClass c inrange) cs in (c # chunk, rest))"

definition scanChunk :: "string \<Rightarrow> bool \<times> string \<times> string" where
  "scanChunk pattern =
     (let body = dropWhile (\<lambda>c. c = CHR ''*'') pattern
      in (body \<noteq> pattern, scanBody False body))"

lemma scanBody_append: "p = fst (scanBody inrange p) @ snd (scanBody inrange p)"
proof (induction inrange p rule: scanBody.induct)
  case (2 inrange c cs)
  show ?case
  proof (cases "c = CHR 0x5C")
    case True
    then show ?thesis using "2.IH"(1) by (cases cs) (simp_all add: case_prod_beta)
  next
    case False
    then show ?thesis using "2.IH"(2) by (simp add: case_prod_beta)
  qed
qed simp

lemma scanBody_Nil_chunk: "fst (scanBody inrange (c # cs)) = [] \<Longrightarrow> c = CHR ''*''"
  by (rule ccontr, cases cs) (simp_all add: case_prod_beta split: if_splits)

lemma scanBody_length:
  "length p = length (fst (scanBody inrange p)) + length (snd (scanBody inrange p))"
  using arg_cong [OF scanBody_append [of p inrange], of length] by (simp only: length_append)

lemma scanChunk_length:
  assumes "pattern \<noteq> []" and "scanChunk pattern = (star, chunk, rest)"
  shows "length rest < length pattern"
proof -
  obtain c cs where p: "pattern = c # cs"
    using assms(1) by (cases pattern) auto
  define body where "body = dropWhile (\<lambda>c. c = CHR ''*'') pattern"
  have sb: "chunk = fst (scanBody False body)" "rest = snd (scanBody False body)"
    using assms(2) by (simp_all add: scanChunk_def Let_def body_def)
  show ?thesis
  proof (cases "c = CHR ''*''")
    case True
    then have "length body \<le> length cs"
      by (simp add: body_def p length_dropWhile_le)
    then show ?thesis
      using scanBody_length [of body False] sb p by simp
  next
    case False
    then have "body = c # cs"
      by (simp add: body_def p)
    then show ?thesis
      using scanBody_length [of body False] scanBody_Nil_chunk [of False c cs] False sb p
      by (cases "fst (scanBody False body)") simp_all
  qed
qed

text \<open>The retry loop after a star, and the check of the remaining chunks.\<close>

fun starSearch :: "string \<Rightarrow> bool \<Rightarrow> string \<Rightarrow> string option option" where
  "starSearch chunk final [] = Some None"
| "starSearch chunk final (c # cs) =
     (if c = CHR ''/'' then Some None
      else case matchChunk False chunk cs of
             None \<Rightarrow> None
           | Some None \<Rightarrow> starSearch chunk final cs
           | Some (Some t) \<Rightarrow> if final \<and> t \<noteq> [] then starSearch chunk final cs else Some (Some t))"

function checkRest :: "string \<Rightarrow> bool option" where
  "checkRest pattern =
     (if pattern = [] then Some False
      else case scanChunk pattern of
             (star, chunk, rest) \<Rightarrow>
               (case matchChunk False chunk [] of None \<Rightarrow> None | Some _ \<Rightarrow> checkRest rest))"
  by pat_completeness auto
termination
  by (relation "measure length") (auto simp: scanChunk_length dest: sym)

declare checkRest.simps [simp del]

function path_Match :: "string \<Rightarrow> string \<Rightarrow> bool option" where
  "path_Match pattern name =
     (if pattern = [] then Some (name = [])
      else case scanChunk pattern of
             (star, chunk, rest) \<Rightarrow>
               if star \<and> chunk = [] then Some (CHR ''/'' \<notin> set name)
               else case matchChunk False chunk name of
                      None \<Rightarrow> None
                    | Some hit \<Rightarrow>
                        (case hit of
                           Some t \<Rightarrow>
                             if t = [] \<or> rest \<noteq> [] then path_Match rest t
                             else if star then
                               (case starSearch chunk (rest = []) name of
                                  None \<Rightarrow> None
                                | Some None \<Rightarrow> checkRest rest
                                | Some (Some t') \<Rightarrow> path_Match rest t')
                             else checkRest rest
                         | None \<Rightarrow>
                             if star then
                               (case starSearch chunk (rest = []) name of
                                  None \<Rightarrow> None
                                | Some None \<Rightarrow> checkRest rest
                                | Some (Some t') \<Rightarrow> path_Match rest t')
                             else checkRest rest))"
  by pat_completeness auto
termination
  by (relation "measure (\<lambda>(pattern, name). length pattern)") (auto simp: scanChunk_length dest: sym)

declare path_Match.simps [simp del]

section \<open>Empty patterns\<close>

lemma matchChunk_Nil [simp]: "matchChunk failed [] s = Some (if failed then None else Some s)"
  by (simp add: matchChunk.simps)

lemma checkRest_Nil [simp]: "checkRest [] = Some False"
  by (simp add: checkRest.simps)

lemma path_Match_Nil [simp]: "path_Match [] name = Some (name = [])"
  by (simp add: path_Match.simps)

section \<open>A pattern is malformed for every name or for none\<close>

lemma classLoop_rest:
  "map_option snd (classLoop r seen m chunk) = map_option snd (classLoop r' seen m' chunk)"
proof (induction r seen m chunk arbitrary: m' rule: classLoop.induct)
  case (1 r seen m chunk)
  show ?case
  proof (cases "seen \<and> chunk \<noteq> [] \<and> hd chunk = CHR '']''")
    case True
    then show ?thesis
      by (subst (1 2) classLoop.simps) simp
  next
    case False
    show ?thesis
      using "1.IH" [OF False] False
      by (subst (1 2) classLoop.simps) (auto split: option.split)
  qed
qed

lemma classLoop_None_iff: "classLoop r seen m chunk = None \<longleftrightarrow> classLoop r' seen m' chunk = None"
  using classLoop_rest [of r seen m chunk r' m']
  by (cases "classLoop r seen m chunk"; cases "classLoop r' seen m' chunk") simp_all

lemma classLoop_Some_rest:
  "classLoop r seen m chunk = Some (b, rest) \<Longrightarrow> \<exists>b'. classLoop r' seen m' chunk = Some (b', rest)"
  using classLoop_rest [of r seen m chunk r' m']
  by (cases "classLoop r' seen m' chunk" rule: option.exhaust) (simp, simp add: prod_eq_iff)

lemma matchChunk_None_iff:
  "matchChunk f chunk s = None \<longleftrightarrow> matchChunk f' chunk s' = None"
proof (induction "length chunk" arbitrary: chunk f s f' s' rule: less_induct)
  case less
  show ?case
  proof (cases chunk)
    case Nil
    then show ?thesis by simp
  next
    case (Cons c cs)
    have IH: "length rest < length chunk \<Longrightarrow>
        matchChunk g rest t = None \<longleftrightarrow> matchChunk g' rest t' = None" for rest g t g' t'
      using less .
    consider (cls) "c = CHR ''[''" | (any) "c = CHR ''?''" | (lit) "c \<noteq> CHR ''[''" "c \<noteq> CHR ''?''"
      by blast
    then show ?thesis
    proof cases
      case cls
      let ?body = "if cs \<noteq> [] \<and> hd cs = CHR ''^'' then tl cs else cs"
      let ?r = "\<lambda>f s. if f \<or> s = [] then CHR 0x00 else hd s"
      have body: "length ?body < length chunk"
        using Cons by (cases cs) auto
      show ?thesis
      proof (cases "classLoop (?r f s) False False ?body")
        case None
        moreover from None have "classLoop (?r f' s') False False ?body = None"
          using classLoop_None_iff by blast
        ultimately show ?thesis
          by (subst (1 2) matchChunk.simps) (simp add: Cons cls Let_def)
      next
        case (Some mr)
        obtain m rest where mr: "mr = (m, rest)" by (cases mr)
        obtain m' where Some': "classLoop (?r f' s') False False ?body = Some (m', rest)"
          using classLoop_Some_rest Some mr by blast
        have "length rest < length chunk"
          using classLoop_length Some mr body by (metis less_trans)
        then show ?thesis
          using Some Some' IH mr
          by (subst (1 2) matchChunk.simps) (simp add: Cons cls Let_def)
      qed
    next
      case any
      then show ?thesis
        using IH [of cs]
        by (subst (1 2) matchChunk.simps) (simp add: Cons Let_def)
    next
      case lit
      then show ?thesis
        using IH
        by (subst (1 2) matchChunk.simps) (auto simp: Cons Let_def split: list.split)
    qed
  qed
qed

lemma starSearch_not_None: "matchChunk f chunk s = Some x \<Longrightarrow> starSearch chunk final name \<noteq> None"
proof (induction name)
  case (Cons c cs)
  have "matchChunk False chunk cs \<noteq> None"
    using Cons.prems matchChunk_None_iff [of f chunk s False cs] by simp
  then show ?case
    using Cons by (auto split: option.splits)
qed simp

lemma scanChunk_bare_star:
  assumes "scanChunk pattern = (True, [], rest)"
  shows "rest = []"
proof -
  define body where "body = dropWhile (\<lambda>c. c = CHR ''*'') pattern"
  have sb: "fst (scanBody False body) = []" "rest = snd (scanBody False body)"
    using assms by (simp_all add: scanChunk_def Let_def body_def)
  have "body = []"
  proof (cases body)
    case (Cons c cs)
    then have "c = CHR ''*''"
      using scanBody_Nil_chunk [of False c cs] sb by simp
    moreover have "c \<noteq> CHR ''*''"
      using Cons by (simp add: body_def dropWhile_eq_Cons_conv)
    ultimately show ?thesis by simp
  qed
  then show ?thesis using sb by simp
qed

lemma path_Match_None_iff: "path_Match pattern name = None \<longleftrightarrow> checkRest pattern = None"
proof (induction "length pattern" arbitrary: pattern name rule: less_induct)
  case less
  show ?case
  proof (cases "pattern = []")
    case True
    then show ?thesis by simp
  next
    case False
    obtain star chunk rest where sc: "scanChunk pattern = (star, chunk, rest)"
      by (cases "scanChunk pattern") auto
    have IH: "path_Match rest t = None \<longleftrightarrow> checkRest rest = None" for t
      using less scanChunk_length [OF False sc] by blast
    have chk: "checkRest pattern = (if matchChunk False chunk [] = None then None else checkRest rest)"
      using False sc by (subst checkRest.simps) (auto split: option.split)
    show ?thesis
    proof (cases "star \<and> chunk = []")
      case True
      then show ?thesis
        using sc scanChunk_bare_star [of pattern rest] False
        by (subst path_Match.simps) (simp add: chk)
    next
      case bare: False
      show ?thesis
      proof (cases "matchChunk False chunk name")
        case None
        then show ?thesis
          using matchChunk_None_iff [of False chunk name False "[]"] False sc bare
          by (subst path_Match.simps) (auto simp: chk)
      next
        case (Some hit)
        moreover have "matchChunk False chunk [] \<noteq> None"
          using Some matchChunk_None_iff [of False chunk name False "[]"] by simp
        moreover have "starSearch chunk (rest = []) name \<noteq> None"
          using starSearch_not_None Some by blast
        ultimately show ?thesis
          using False sc bare IH
          by (subst path_Match.simps) (auto simp: chk split: option.split)
      qed
    qed
  qed
qed

section \<open>Literal patterns and one star\<close>

definition literal :: "string \<Rightarrow> bool" where
  "literal p \<longleftrightarrow> list_all (\<lambda>c. c \<notin> {CHR ''*'', CHR ''?'', CHR ''['', CHR '']'', CHR 0x5C}) p"

lemma matchChunk_failed_literal: "literal p \<Longrightarrow> matchChunk True p s = Some None"
  by (induction p) (simp_all add: literal_def matchChunk.simps [of True "_ # _"])

lemma matchChunk_literal:
  "literal p \<Longrightarrow> matchChunk False p s = Some (if HasPrefix s p then Some (drop (length p) s) else None)"
proof (induction p arbitrary: s)
  case Nil
  show ?case by (simp add: HasPrefix_def)
next
  case (Cons c p)
  have lit: "literal p" "c \<notin> {CHR ''['', CHR ''?'', CHR 0x5C}"
    using Cons.prems by (simp_all add: literal_def)
  show ?case
  proof (cases s)
    case Nil
    then show ?thesis
      using lit matchChunk_failed_literal
      by (subst matchChunk.simps) (simp add: HasPrefix_def)
  next
    case s: (Cons d s')
    show ?thesis
      using lit matchChunk_failed_literal Cons.IH s
      by (subst matchChunk.simps) (cases "c = d"; simp add: HasPrefix_def)
  qed
qed

lemma scanBody_literal: "literal p \<Longrightarrow> scanBody False p = (p, [])"
  by (induction p) (simp_all add: literal_def inClass_def)

lemma scanBody_literal_star: "literal p \<Longrightarrow> scanBody False (p @ CHR ''*'' # q) = (p, CHR ''*'' # q)"
  by (induction p) (simp_all add: literal_def inClass_def)

lemma dropWhile_star_literal: "literal p \<Longrightarrow> dropWhile (\<lambda>c. c = CHR ''*'') (p @ q) = (if p = [] then dropWhile (\<lambda>c. c = CHR ''*'') q else p @ q)"
  by (cases p) (simp_all add: literal_def)

lemma scanChunk_literal: "literal p \<Longrightarrow> scanChunk p = (False, p, [])"
  using dropWhile_star_literal [of p "[]"] by (cases "p = []") (simp_all add: scanChunk_def scanBody_literal)

lemma scanChunk_star_literal: "literal p \<Longrightarrow> scanChunk (CHR ''*'' # p) = (True, p, [])"
  using dropWhile_star_literal [of p "[]"]
  by (cases "p = []") (simp_all add: scanChunk_def scanBody_literal Let_def)

lemma scanChunk_literal_star:
  "literal p \<Longrightarrow> p \<noteq> [] \<Longrightarrow> scanChunk (p @ [CHR ''*'']) = (False, p, [CHR ''*''])"
  by (simp add: scanChunk_def dropWhile_star_literal scanBody_literal_star Let_def)

lemma path_Match_literal: "literal p \<Longrightarrow> path_Match p name = Some (name = p)"
  by (subst path_Match.simps)
    (auto simp: scanChunk_literal matchChunk_literal HasPrefix_iff split: if_splits)

lemma path_Match_star: "path_Match [CHR ''*''] name = Some (CHR ''/'' \<notin> set name)"
  by (subst path_Match.simps) (simp add: scanChunk_def)

lemma path_Match_prefix:
  assumes "literal p"
  shows "path_Match (p @ [CHR ''*'']) name = Some (\<exists>t. name = p @ t \<and> CHR ''/'' \<notin> set t)"
proof (cases "p = []")
  case False
  have "checkRest [CHR ''*''] = Some False"
    by (subst checkRest.simps) (simp add: scanChunk_def)
  then show ?thesis
    using assms False
    by (subst path_Match.simps)
      (auto simp: scanChunk_literal_star matchChunk_literal path_Match_star HasPrefix_iff)
qed (simp add: path_Match_star)

lemma starSearch_literal:
  assumes "literal p"
  shows "starSearch p True name =
    Some (if \<exists>t. t \<noteq> [] \<and> name = t @ p \<and> CHR ''/'' \<notin> set t then Some [] else None)"
proof (induction name)
  case (Cons c cs)
  have split: "(\<exists>t. t \<noteq> [] \<and> c # cs = t @ p \<and> CHR ''/'' \<notin> set t) \<longleftrightarrow>
      c \<noteq> CHR ''/'' \<and> (cs = p \<or> (\<exists>t. t \<noteq> [] \<and> cs = t @ p \<and> CHR ''/'' \<notin> set t))"
    (is "?L \<longleftrightarrow> ?R")
  proof
    assume ?L
    then obtain t where t: "t \<noteq> []" "c # cs = t @ p" "CHR ''/'' \<notin> set t" by blast
    then show ?R by (cases t; cases "tl t") auto
  next
    assume ?R
    then show ?L
      by (metis Cons_eq_appendI append_Nil list.distinct(1) set_ConsD empty_iff empty_set)
  qed
  show ?case
    unfolding split using assms Cons
    by (auto simp: matchChunk_literal HasPrefix_iff)
qed simp

lemma path_Match_suffix:
  assumes "literal p"
  shows "path_Match (CHR ''*'' # p) name = Some (\<exists>t. name = t @ p \<and> CHR ''/'' \<notin> set t)"
proof (cases "p = []")
  case False
  have split: "(\<exists>t. name = t @ p \<and> CHR ''/'' \<notin> set t) \<longleftrightarrow>
      name = p \<or> (\<exists>t. t \<noteq> [] \<and> name = t @ p \<and> CHR ''/'' \<notin> set t)"
    by (metis append_Nil empty_iff empty_set)
  show ?thesis
    unfolding split using assms False
    by (subst path_Match.simps)
      (auto simp: scanChunk_star_literal matchChunk_literal starSearch_literal HasPrefix_iff)
qed (simp add: path_Match_star)

end
