(* ===== verification/Protocol_Names.thy ===== *)
theory Protocol_Names
  imports Go_Strings
begin

text \<open>
  \<open>go/tunnel/protocol/names.go\<close>: tunnel types, port ranges, and the host
  names of tunnels and custom domains.
\<close>

section \<open>Definitions\<close>

datatype TunnelType =
    TUNNEL_TYPE_UNSPECIFIED
  | TUNNEL_TYPE_TCP
  | TUNNEL_TYPE_SSH
  | TUNNEL_TYPE_HTTP
  | TUNNEL_TYPE_TLS

definition tunnelTypeNames :: "(string, TunnelType) gomap" where
  "tunnelTypeNames =
     [(''tcp'', TUNNEL_TYPE_TCP), (''ssh'', TUNNEL_TYPE_SSH),
      (''http'', TUNNEL_TYPE_HTTP), (''tls'', TUNNEL_TYPE_TLS)]"

definition ParseTunnelType :: "string \<Rightarrow> TunnelType option" where
  "ParseTunnelType s = map_of tunnelTypeNames (ToLower s)"

definition TunnelTypeName :: "TunnelType \<Rightarrow> string" where
  "TunnelTypeName typ =
     (case find (\<lambda>(name, t). t = typ) tunnelTypeNames of Some (name, _) \<Rightarrow> name | None \<Rightarrow> [])"

definition ParsePortRange :: "string \<Rightarrow> (int \<times> int) option" where
  "ParsePortRange s =
     (let (lo, hi0, found) = Cut s CHR ''-'';
          hi = (if found then hi0 else lo)
      in case Atoi (TrimSpace lo) of
           None \<Rightarrow> None
         | Some first \<Rightarrow>
             (case Atoi (TrimSpace hi) of
                None \<Rightarrow> None
              | Some last' \<Rightarrow>
                  if first < 1 \<or> last' > 65535 \<or> first > last' then None
                  else Some (first, last')))"

text \<open>The regular expression \<open>^[a-z0-9]([a-z0-9-]{0,61}[a-z0-9])?$\<close>.\<close>

definition alnum :: "char \<Rightarrow> bool" where
  "alnum c \<longleftrightarrow> is_lower c \<or> is_digit c"

definition IsDNSLabel :: "string \<Rightarrow> bool" where
  "IsDNSLabel s \<longleftrightarrow>
     s \<noteq> [] \<and> length s \<le> 63 \<and> alnum (hd s) \<and> alnum (last s) \<and>
     list_all (\<lambda>c. alnum c \<or> c = CHR ''-'') s"

definition NormalizeDomain :: "string \<Rightarrow> string option" where
  "NormalizeDomain s =
     (let d = ToLower (TrimSuffix s ''.'');
          labels = Split d CHR ''.''
      in if length d > 253 \<or> length labels < 2 then None
         else if list_all IsDNSLabel labels then Some d
         else None)"

definition NormalizeTunnelDomain :: "string \<Rightarrow> string option" where
  "NormalizeTunnelDomain s =
     (let (rest, wild) = CutPrefix s ''*.''
      in case NormalizeDomain rest of
           None \<Rightarrow> None
         | Some d \<Rightarrow> Some (if wild then ''*.'' @ d else d))"

definition IsWildcardDomain :: "string \<Rightarrow> bool" where
  "IsWildcardDomain d = HasPrefix d ''*.''"

text \<open>\<open>for i := 1; i+2 <= len(labels); i++\<close>\<close>

definition WildcardsOf :: "string \<Rightarrow> string list" where
  "WildcardsOf host =
     (let labels = Split host CHR ''.''
      in map (\<lambda>i. ''*.'' @ Join (drop i labels) ''.'') [1..<length labels - 1])"

section \<open>Tunnel types\<close>

lemma ParseTunnelType_name:
  "t \<noteq> TUNNEL_TYPE_UNSPECIFIED \<Longrightarrow> ParseTunnelType (TunnelTypeName t) = Some t"
  by (induction t) (simp, code_simp+)

section \<open>Labels and domains\<close>

lemma alnum_not_dot: "alnum c \<Longrightarrow> c \<noteq> CHR ''.''"
  by (auto simp: alnum_def is_lower_def is_digit_def char_code_def)

lemma alnum_not_upper: "alnum c \<Longrightarrow> \<not> is_upper c"
  by (auto simp: alnum_def is_lower_def is_digit_def is_upper_def)

lemma IsDNSLabel_chars: "IsDNSLabel s \<Longrightarrow> c \<in> set s \<Longrightarrow> alnum c \<or> c = CHR ''-''"
  by (auto simp: IsDNSLabel_def list_all_iff)

lemma IsDNSLabel_no_dot: "IsDNSLabel s \<Longrightarrow> CHR ''.'' \<notin> set s"
  by (auto dest!: IsDNSLabel_chars alnum_not_dot)

lemma IsDNSLabel_no_star: "IsDNSLabel s \<Longrightarrow> CHR ''*'' \<notin> set s"
proof
  assume "IsDNSLabel s" "CHR ''*'' \<in> set s"
  then show False
    using IsDNSLabel_chars [of s "CHR ''*''"]
    by (auto simp: alnum_def is_lower_def is_digit_def char_code_def)
qed

lemma IsDNSLabel_not_Nil: "IsDNSLabel s \<Longrightarrow> s \<noteq> []"
  by (simp add: IsDNSLabel_def)

lemma IsDNSLabel_lower: "IsDNSLabel s \<Longrightarrow> ToLower s = s"
proof (rule not_upper_ToLower, rule ballI)
  fix c assume "IsDNSLabel s" "c \<in> set s"
  then consider "alnum c" | "c = CHR ''-''" using IsDNSLabel_chars by blast
  then show "\<not> is_upper c"
    by cases (auto simp: alnum_not_upper, auto simp: is_upper_def char_code_def)
qed

definition host_name :: "string \<Rightarrow> bool" where
  "host_name d \<longleftrightarrow>
     length d \<le> 253 \<and> 2 \<le> length (Split d CHR ''.'') \<and> list_all IsDNSLabel (Split d CHR ''.'')"

lemma Split_ToLower_dot: "Split (ToLower s) CHR ''.'' = map ToLower (Split s CHR ''.'')"
proof (induction s)
  case (Cons c s)
  have dot: "lower_char c = CHR ''.'' \<longleftrightarrow> c = CHR ''.''"
    by (auto simp: lower_char_def is_upper_def simp flip: char_code_eq_iff) (auto simp: char_code_def)
  obtain w ws where "Split s CHR ''.'' = w # ws"
    by (cases "Split s CHR ''.''") auto
  then show ?case
    using Cons by (simp add: ToLower_def dot)
qed (simp add: ToLower_def)

lemma Join_map_ToLower: "ToLower (Join ws ''.'') = Join (map ToLower ws) ''.''"
proof (induction ws "''.''" rule: Join.induct)
  case (3 w v ws)
  have "lower_char CHR ''.'' = CHR ''.''" by code_simp
  with 3 show ?case by (simp add: ToLower_def)
qed (simp_all add: ToLower_def)

lemma host_name_lower:
  assumes "host_name d"
  shows "ToLower d = d"
proof -
  have "map ToLower (Split d CHR ''.'') = Split d CHR ''.''"
    using assms by (auto simp: host_name_def list_all_iff IsDNSLabel_lower intro: map_idI)
  then show ?thesis
    using Join_map_ToLower [of "Split d CHR ''.''"] by simp
qed

lemma Split_trailing_sep: "Split (s @ [sep]) sep = Split s sep @ [[]]"
  by (induction s) (auto split: list.splits)

lemma host_name_no_trailing_dot: "host_name d \<Longrightarrow> TrimSuffix d ''.'' = d"
proof -
  assume d: "host_name d"
  have "\<not> HasSuffix d ''.''"
  proof
    assume "HasSuffix d ''.''"
    then obtain t where "d = t @ ''.''" by (auto simp: HasSuffix_iff)
    then show False
      using d by (simp add: host_name_def Split_trailing_sep IsDNSLabel_def)
  qed
  then show ?thesis by (simp add: TrimSuffix_def CutSuffix_def)
qed

lemma NormalizeDomain_host_name: "NormalizeDomain s = Some d \<Longrightarrow> host_name d"
  by (auto simp: NormalizeDomain_def host_name_def Let_def split: if_splits)

lemma NormalizeDomain_of_host_name: "host_name d \<Longrightarrow> NormalizeDomain d = Some d"
  using host_name_lower [of d] host_name_no_trailing_dot [of d]
  by (simp add: NormalizeDomain_def host_name_def)

lemma NormalizeDomain_Some_iff:
  "NormalizeDomain s = Some d \<longleftrightarrow> host_name d \<and> d = ToLower (TrimSuffix s ''.'')"
  by (auto simp: NormalizeDomain_def host_name_def Let_def)

lemma host_name_no_star: "host_name d \<Longrightarrow> \<not> HasPrefix d ''*.''"
proof
  assume d: "host_name d" "HasPrefix d ''*.''"
  then obtain t where "d = CHR ''*'' # CHR ''.'' # t" by (auto simp: HasPrefix_iff)
  then have "''*'' \<in> set (Split d CHR ''.'')" by simp
  then show False
    using d(1) IsDNSLabel_no_star [of "''*''"] by (auto simp: host_name_def list_all_iff)
qed

lemma NormalizeTunnelDomain_fixpoint:
  assumes "NormalizeTunnelDomain s = Some d"
  shows "NormalizeTunnelDomain d = Some d"
proof -
  obtain rest wild where cp: "CutPrefix s ''*.'' = (rest, wild)"
    by (cases "CutPrefix s ''*.''")
  then obtain e where e: "NormalizeDomain rest = Some e" "d = (if wild then ''*.'' @ e else e)"
    using assms by (auto simp: NormalizeTunnelDomain_def split: option.splits)
  note hn = NormalizeDomain_host_name [OF e(1)]
  have fp: "NormalizeDomain e = Some e"
    using NormalizeDomain_of_host_name [OF hn] .
  show ?thesis
  proof (cases wild)
    case True
    then show ?thesis
      using e fp by (simp add: NormalizeTunnelDomain_def CutPrefix_def HasPrefix_def)
  next
    case False
    then show ?thesis
      using e fp host_name_no_star [OF hn] by (simp add: NormalizeTunnelDomain_def CutPrefix_def)
  qed
qed

section \<open>Wildcards\<close>

text \<open>A wildcard \<open>*.b\<close> covers the hosts \<open>a.b\<close>, at any depth of \<open>a\<close>.\<close>

definition covers_host :: "string \<Rightarrow> string \<Rightarrow> bool" where
  "covers_host w host \<longleftrightarrow>
     (\<exists>a b. w = ''*.'' @ b \<and> host = a @ ''.'' @ b \<and> 2 \<le> length (Split b CHR ''.''))"

lemma Split_append_dot: "Split (a @ CHR ''.'' # b) CHR ''.'' = Split a CHR ''.'' @ Split b CHR ''.''"
proof (induction a)
  case (Cons c a)
  obtain w ws where "Split a CHR ''.'' = w # ws"
    by (cases "Split a CHR ''.''") auto
  with Cons show ?case by simp
qed simp

lemma Join_append: "ws \<noteq> [] \<Longrightarrow> vs \<noteq> [] \<Longrightarrow> Join (ws @ vs) sep = Join ws sep @ sep @ Join vs sep"
proof (induction ws)
  case (Cons w ws)
  then show ?case by (cases ws) (simp_all add: Join_Cons)
qed simp

lemma Split_Join_drop:
  "i < length (Split host sep) \<Longrightarrow> Split (Join (drop i (Split host sep)) [sep]) sep = drop i (Split host sep)"
  by (rule Split_Join) (auto dest: in_set_dropD Split_no_sep)

lemma WildcardsOf_iff: "w \<in> set (WildcardsOf host) \<longleftrightarrow> covers_host w host"
proof
  let ?ls = "Split host CHR ''.''"
  assume "w \<in> set (WildcardsOf host)"
  then obtain i where i: "1 \<le> i" "i < length ?ls - 1" and w: "w = ''*.'' @ Join (drop i ?ls) ''.''"
    by (auto simp: WildcardsOf_def Let_def)
  have "host = Join (take i ?ls @ drop i ?ls) ''.''" by simp
  also have "\<dots> = Join (take i ?ls) ''.'' @ ''.'' @ Join (drop i ?ls) ''.''"
    using i by (intro Join_append) auto
  finally show "covers_host w host"
    using w i by (fastforce simp: covers_host_def Split_Join_drop)
next
  let ?ls = "Split host CHR ''.''"
  assume "covers_host w host"
  then obtain a b where ab: "w = ''*.'' @ b" "host = a @ ''.'' @ b" "2 \<le> length (Split b CHR ''.'')"
    by (auto simp: covers_host_def)
  define i where "i = length (Split a CHR ''.'')"
  have ls: "?ls = Split a CHR ''.'' @ Split b CHR ''.''"
    using ab by (simp add: Split_append_dot)
  have "1 \<le> i" by (cases "Split a CHR ''.''") (auto simp: i_def)
  moreover have "i < length ?ls - 1" using ls ab(3) by (simp add: i_def)
  moreover have "w = ''*.'' @ Join (drop i ?ls) ''.''" using ls ab(1) by (simp add: i_def)
  ultimately show "w \<in> set (WildcardsOf host)"
    unfolding WildcardsOf_def Let_def by (simp only: set_map, intro image_eqI [of _ _ i]) auto
qed

lemma length_Join_drop_mono:
  "i < j \<Longrightarrow> j < length ws \<Longrightarrow> length (Join (drop j ws) ''.'') < length (Join (drop i ws) ''.'')"
proof -
  assume ij: "i < j" "j < length ws"
  have "drop i ws = take (j - i) (drop i ws) @ drop j ws"
    using ij by (metis append_take_drop_id drop_drop le_add_diff_inverse2 less_imp_le)
  then have "Join (drop i ws) ''.'' = Join (take (j - i) (drop i ws)) ''.'' @ ''.'' @ Join (drop j ws) ''.''"
    using ij Join_append [of "take (j - i) (drop i ws)" "drop j ws" "''.''"] by simp
  then show ?thesis by simp
qed

lemma WildcardsOf_sorted: "sorted_wrt (\<lambda>v w. length w < length v) (WildcardsOf host)"
  unfolding WildcardsOf_def Let_def sorted_wrt_map
  by (rule sorted_wrt_mono_rel [of _ "(<)"]) (auto simp: length_Join_drop_mono)

section \<open>Port ranges\<close>

lemma ParsePortRange_bounds: "ParsePortRange s = Some (lo, hi) \<Longrightarrow> 1 \<le> lo \<and> lo \<le> hi \<and> hi \<le> 65535"
  by (auto simp: ParsePortRange_def Let_def split: prod.splits option.splits if_splits)

lemma digit_not_special: "is_digit c \<Longrightarrow> c \<noteq> CHR ''-'' \<and> \<not> is_space c"
  by (auto simp: is_digit_def is_space_def char_code_def)

lemma Cut_sepfree: "sep \<notin> set s \<Longrightarrow> Cut s sep = (s, [], False)"
  by (induction s) auto

lemma Cut_append: "sep \<notin> set s \<Longrightarrow> Cut (s @ sep # t) sep = (s, t, True)"
  by (induction s) auto

lemma dropWhile_digits: "list_all is_digit s \<Longrightarrow> dropWhile is_space s = s"
  by (cases s) (auto simp: digit_not_special)

lemma TrimSpace_digits: "list_all is_digit s \<Longrightarrow> TrimSpace s = s"
  by (simp add: TrimSpace_def dropWhile_digits)

lemma Itoa_digits: "0 \<le> i \<Longrightarrow> list_all is_digit (Itoa i)"
  by (simp add: Itoa_def dec_digits_are_digits)

lemma Itoa_no_dash: "0 \<le> i \<Longrightarrow> CHR ''-'' \<notin> set (Itoa i)"
  using Itoa_digits digit_not_special by (auto simp: list_all_iff)

lemma ParsePortRange_print:
  assumes "1 \<le> lo" "lo \<le> hi" "hi \<le> 65535"
  shows "ParsePortRange (Itoa lo @ CHR ''-'' # Itoa hi) = Some (lo, hi)"
  using assms
  by (simp add: ParsePortRange_def Cut_append Itoa_no_dash TrimSpace_digits Itoa_digits Atoi_Itoa)

lemma ParsePortRange_single:
  assumes "1 \<le> p" "p \<le> 65535"
  shows "ParsePortRange (Itoa p) = Some (p, p)"
  using assms
  by (simp add: ParsePortRange_def Cut_sepfree Itoa_no_dash TrimSpace_digits Itoa_digits Atoi_Itoa)

end
