(* ===== verification/Auth_Policy.thy ===== *)
theory Auth_Policy
  imports Go_Path Protocol_Names
begin

text \<open>
  \<open>go/tunnel/auth/policy.go\<close>: what an agent token may register.  Error
  values keep the kind of the failure, not the message text.
\<close>

section \<open>Definitions\<close>

record Policy =
  Names :: "string list"
  Types :: "string list"
  MaxTunnels :: int
  Ports :: string
  RequireCert :: bool
  Domains :: "string list"

datatype PolicyError =
    InvalidNamePattern string
  | UnknownTunnelType string
  | InvalidDomainPattern string
  | NegativeMaxTunnels
  | InvalidPortRange string

text \<open>Each loop of \<open>Validate\<close> returns at its first offending element.\<close>

definition Policy_Validate :: "Policy \<Rightarrow> (PolicyError, unit) result" where
  "Policy_Validate p =
     (case find (\<lambda>pattern. path_Match pattern [] = None) (Names p) of
        Some pattern \<Rightarrow> Err (InvalidNamePattern pattern)
      | None \<Rightarrow>
     (case find (\<lambda>t. ParseTunnelType t = None) (Types p) of
        Some t \<Rightarrow> Err (UnknownTunnelType t)
      | None \<Rightarrow>
     (case find (\<lambda>pattern. path_Match pattern [] = None \<or> pattern \<noteq> ToLower pattern) (Domains p) of
        Some pattern \<Rightarrow> Err (InvalidDomainPattern pattern)
      | None \<Rightarrow>
        if MaxTunnels p < 0 then Err NegativeMaxTunnels
        else if Ports p \<noteq> [] \<and> ParsePortRange (Ports p) = None then Err (InvalidPortRange (Ports p))
        else Ok ())))"

definition AllowsName :: "Policy \<Rightarrow> string \<Rightarrow> bool" where
  "AllowsName p name \<longleftrightarrow>
     Names p = [] \<or> list_ex (\<lambda>pattern. path_Match pattern name = Some True) (Names p)"

definition AllowsDomain :: "Policy \<Rightarrow> string \<Rightarrow> bool" where
  "AllowsDomain p domain \<longleftrightarrow> list_ex (\<lambda>pattern. path_Match pattern domain = Some True) (Domains p)"

definition AllowsType :: "Policy \<Rightarrow> string \<Rightarrow> bool" where
  "AllowsType p t \<longleftrightarrow> Types p = [] \<or> list_ex (\<lambda>u. u = t) (Types p)"

definition minInt :: "int \<Rightarrow> int \<Rightarrow> int" where
  "minInt a b = (if a < b then a else b)"

definition maxInt :: "int \<Rightarrow> int \<Rightarrow> int" where
  "maxInt a b = (if a > b then a else b)"

definition PortRange :: "Policy \<Rightarrow> int \<Rightarrow> int \<Rightarrow> int \<times> int \<times> bool" where
  "PortRange p mn mx =
     (if Ports p = [] then (mn, mx, True)
      else let (plo, phi) = (case ParsePortRange (Ports p) of None \<Rightarrow> (0, 0) | Some r \<Rightarrow> r);
               lo = maxInt mn plo;
               hi = minInt mx phi
           in (lo, hi, lo \<le> hi))"

section \<open>Lemmas\<close>

lemma minInt_min [simp]: "minInt a b = min a b"
  by (simp add: minInt_def min_def)

lemma maxInt_max [simp]: "maxInt a b = max a b"
  by (simp add: maxInt_def max_def)

lemma Policy_Validate_Ok_iff:
  "Policy_Validate p = Ok () \<longleftrightarrow>
     (\<forall>pattern\<in>set (Names p). path_Match pattern [] \<noteq> None) \<and>
     (\<forall>t\<in>set (Types p). ParseTunnelType t \<noteq> None) \<and>
     (\<forall>pattern\<in>set (Domains p). path_Match pattern [] \<noteq> None \<and> pattern = ToLower pattern) \<and>
     0 \<le> MaxTunnels p \<and> (Ports p \<noteq> [] \<longrightarrow> ParsePortRange (Ports p) \<noteq> None)"
proof -
  have F: "(\<forall>x\<in>set xs. \<not> P x) \<longleftrightarrow> find P xs = None" for P and xs :: "string list"
    by (simp add: find_None_iff_all)
  have names: "(\<forall>x\<in>set (Names p). path_Match x [] \<noteq> None) \<longleftrightarrow>
      find (\<lambda>x. path_Match x [] = None) (Names p) = None"
    by (rule F)
  have types: "(\<forall>x\<in>set (Types p). ParseTunnelType x \<noteq> None) \<longleftrightarrow>
      find (\<lambda>x. ParseTunnelType x = None) (Types p) = None"
    by (rule F)
  have domains: "(\<forall>x\<in>set (Domains p). path_Match x [] \<noteq> None \<and> x = ToLower x) \<longleftrightarrow>
      find (\<lambda>x. path_Match x [] = None \<or> x \<noteq> ToLower x) (Domains p) = None"
    unfolding find_None_iff_all by (simp only: de_Morgan_disj not_not)
  show ?thesis
    unfolding Policy_Validate_def names types domains
    by (simp split: option.split)
qed

text \<open>A pattern accepted by the check against the empty name is well formed for every name.\<close>

lemma validated_pattern: "path_Match pattern [] \<noteq> None \<Longrightarrow> path_Match pattern name \<noteq> None"
  by (simp add: path_Match_None_iff)

lemma PortRange_within:
  assumes "PortRange p mn mx = (lo, hi, True)" "mn \<le> mx"
  shows "mn \<le> lo \<and> lo \<le> hi \<and> hi \<le> mx"
  using assms by (auto simp: PortRange_def Let_def split: if_splits prod.splits option.splits)

end
