(* ===== verification/Registry_Rules.thy ===== *)
theory Registry_Rules
  imports Auth_Policy
begin

text \<open>
  \<open>go/tunnel/registry/rules.go\<close>: the rules for claiming names and ports that
  the standalone relay and the cluster's claims engine share.  The sentinel
  errors are the constructors of \<open>RuleError\<close>; the message texts are dropped.
\<close>

section \<open>Definitions\<close>

datatype RuleError =
    ErrNameTaken
  | ErrMaxTunnels
  | ErrPortTaken
  | ErrInvalidName
  | ErrReservedName
  | ErrPortOutsideRange
  | ErrPortNotAllowed

record Rules =
  BaseDomain :: string
  ControlSNI :: string
  AuthHost :: string
  ReservedNames :: "string list"
  PortMin :: int
  PortMax :: int

definition ValidName :: "string \<Rightarrow> bool" where
  "ValidName name = IsDNSLabel name"

definition IsReserved :: "Rules \<Rightarrow> string \<Rightarrow> bool" where
  "IsReserved r name \<longleftrightarrow>
     (let host = name @ ''.'' @ BaseDomain r in
      if host = ControlSNI r \<or> (AuthHost r \<noteq> [] \<and> host = AuthHost r) then True
      else list_ex (\<lambda>n. n = name) (ReservedNames r))"

definition CheckName :: "Rules \<Rightarrow> string \<Rightarrow> (RuleError, unit) result" where
  "CheckName r name =
     (if \<not> ValidName name then Err ErrInvalidName
      else if IsReserved r name then Err ErrReservedName
      else Ok ())"

definition TunnelName :: "Rules \<Rightarrow> string \<Rightarrow> string" where
  "TunnelName r host =
     (let (name, ok) = CutSuffix host (''.'' @ BaseDomain r)
      in if \<not> ok \<or> \<not> ValidName name then [] else name)"

definition CheckReservation :: "Rules \<Rightarrow> string \<Rightarrow> int \<Rightarrow> (RuleError, unit) result" where
  "CheckReservation r name port =
     (case CheckName r name of
        Inl e \<Rightarrow> Err e
      | Inr _ \<Rightarrow>
          if port \<noteq> 0 \<and> (port < PortMin r \<or> port > PortMax r) then Err ErrPortOutsideRange
          else Ok ())"

definition CheckRequestedPort :: "Rules \<Rightarrow> int \<Rightarrow> Policy \<Rightarrow> (RuleError, unit) result" where
  "CheckRequestedPort r port policy =
     (if port < PortMin r \<or> port > PortMax r then Err ErrPortOutsideRange
      else let (lo, hi, ok) = PortRange policy (PortMin r) (PortMax r)
           in if \<not> ok \<or> port < lo \<or> port > hi then Err ErrPortNotAllowed else Ok ())"

definition AllocationRange :: "Rules \<Rightarrow> Policy \<Rightarrow> (RuleError, int \<times> int) result" where
  "AllocationRange r policy =
     (let (lo, hi, ok) = PortRange policy (PortMin r) (PortMax r)
      in if \<not> ok then Err ErrPortNotAllowed else Ok (lo, hi))"

record Holder =
  HTokenID :: string
  HAgentID :: string
  Connected :: bool
  SameSession :: bool

datatype Decision = DecisionNew | DecisionReclaim | DecisionTakeover

definition Decide ::
  "Holder option \<Rightarrow> string \<Rightarrow> string \<Rightarrow> int \<Rightarrow> int \<Rightarrow> (RuleError, Decision) result" where
  "Decide holder tokenID agentID active maxTunnels =
     (if (case holder of Some h \<Rightarrow> HTokenID h \<noteq> tokenID | None \<Rightarrow> False) then Err ErrNameTaken
      else if (case holder of
                 Some h \<Rightarrow> Connected h \<and> (HAgentID h \<noteq> agentID \<or> SameSession h)
               | None \<Rightarrow> False) then Err ErrNameTaken
      else if maxTunnels > 0 \<and> active \<ge> maxTunnels then Err ErrMaxTunnels
      else (case holder of
              None \<Rightarrow> Ok DecisionNew
            | Some h \<Rightarrow> if Connected h then Ok DecisionTakeover else Ok DecisionReclaim))"

section \<open>Names\<close>

lemma CheckName_Ok: "CheckName r name = Ok u \<longleftrightarrow> IsDNSLabel name \<and> \<not> IsReserved r name"
  by (simp add: CheckName_def ValidName_def)

lemma CheckName_not_Nil: "CheckName r name = Ok u \<Longrightarrow> name \<noteq> []"
  by (auto simp: CheckName_Ok IsDNSLabel_def)

lemma TunnelName_of_host: "ValidName n \<Longrightarrow> TunnelName r (n @ ''.'' @ BaseDomain r) = n"
  using CutSuffix_append [of n "''.'' @ BaseDomain r"] by (simp add: TunnelName_def)

lemma TunnelName_not_Nil_iff:
  "TunnelName r host = n \<and> n \<noteq> [] \<longleftrightarrow> ValidName n \<and> host = n @ ''.'' @ BaseDomain r"
proof
  assume a: "TunnelName r host = n \<and> n \<noteq> []"
  then have "HasSuffix host (''.'' @ BaseDomain r)" and v: "ValidName n"
    by (auto simp: TunnelName_def CutSuffix_def Let_def split: if_splits prod.splits)
  then obtain t where "host = t @ ''.'' @ BaseDomain r"
    by (auto simp: HasSuffix_iff)
  then show "ValidName n \<and> host = n @ ''.'' @ BaseDomain r"
    using a v CutSuffix_append [of t "''.'' @ BaseDomain r"]
    by (auto simp: TunnelName_def split: if_splits)
next
  assume "ValidName n \<and> host = n @ ''.'' @ BaseDomain r"
  then show "TunnelName r host = n \<and> n \<noteq> []"
    using TunnelName_of_host IsDNSLabel_not_Nil by (simp add: ValidName_def)
qed

section \<open>Ports\<close>

lemma CheckRequestedPort_iff:
  "CheckRequestedPort r port policy = Ok () \<longleftrightarrow>
     (\<exists>lo hi. AllocationRange r policy = Ok (lo, hi) \<and> lo \<le> port \<and> port \<le> hi)"
  by (auto simp: CheckRequestedPort_def AllocationRange_def PortRange_def Let_def
      split: if_splits prod.splits option.splits)

section \<open>Claims\<close>

lemma Decide_Ok:
  "Decide holder tok agent active mx = Ok d \<Longrightarrow>
     (mx > 0 \<longrightarrow> active < mx) \<and>
     (case holder of
        None \<Rightarrow> d = DecisionNew
      | Some h \<Rightarrow> HTokenID h = tok \<and>
          (if Connected h then d = DecisionTakeover \<and> HAgentID h = agent \<and> \<not> SameSession h
           else d = DecisionReclaim))"
  by (auto simp: Decide_def split: option.splits if_splits)

lemma Decide_Err:
  "Decide holder tok agent active mx = Err e \<Longrightarrow>
     (e = ErrNameTaken \<and> (\<exists>h. holder = Some h \<and>
        (HTokenID h \<noteq> tok \<or> Connected h \<and> (HAgentID h \<noteq> agent \<or> SameSession h)))) \<or>
     (e = ErrMaxTunnels \<and> 0 < mx \<and> mx \<le> active)"
  by (auto simp: Decide_def split: option.splits if_splits)

end
