(* ===== verification/Tun_Types.thy ===== *)
theory Tun_Types
  imports Registry_Rules
begin

text \<open>
  The messages of \<open>go/types/tun/tun.pb.go\<close> the cluster components exchange:
  enumerations as datatypes, messages as records (the protobuf runtime fields
  left out).  Identifiers are strings, counters and times integers (unix
  seconds unless a name says otherwise).
\<close>

datatype TunTunnelType =
    TUN_TUNNEL_TYPE_UNSPECIFIED
  | TUN_TUNNEL_TYPE_TCP
  | TUN_TUNNEL_TYPE_SSH
  | TUN_TUNNEL_TYPE_HTTP
  | TUN_TUNNEL_TYPE_TLS

datatype TunRelayState =
    TUN_RELAY_STATE_UNSPECIFIED
  | TUN_RELAY_STATE_READY
  | TUN_RELAY_STATE_DRAINING
  | TUN_RELAY_STATE_DOWN

datatype TunLiveState =
    TUN_LIVE_STATE_UNSPECIFIED
  | TUN_LIVE_STATE_ACTIVE
  | TUN_LIVE_STATE_GRACE

datatype TunAgentState =
    TUN_AGENT_STATE_UNSPECIFIED
  | TUN_AGENT_STATE_ONLINE
  | TUN_AGENT_STATE_GRACE
  | TUN_AGENT_STATE_OFFLINE

datatype TunAgentTransport =
    TUN_AGENT_TRANSPORT_UNSPECIFIED
  | TUN_AGENT_TRANSPORT_TLS
  | TUN_AGENT_TRANSPORT_WEBSOCKET
  | TUN_AGENT_TRANSPORT_WEBSOCKET_PROXY

datatype TunDisconnectReason =
    TUN_DISCONNECT_REASON_UNSPECIFIED
  | TUN_DISCONNECT_REASON_HEARTBEAT_TIMEOUT
  | TUN_DISCONNECT_REASON_TOKEN_REVOKED
  | TUN_DISCONNECT_REASON_RELAY_DRAINED
  | TUN_DISCONNECT_REASON_RELAY_LOST
  | TUN_DISCONNECT_REASON_TAKEOVER
  | TUN_DISCONNECT_REASON_AGENT_CLOSED
  | TUN_DISCONNECT_REASON_OPERATOR

datatype TunCtlCommandKind =
    TUN_CTL_COMMAND_KIND_UNSPECIFIED
  | TUN_CTL_COMMAND_KIND_REANNOUNCE
  | TUN_CTL_COMMAND_KIND_DRAIN
  | TUN_CTL_COMMAND_KIND_RESUME
  | TUN_CTL_COMMAND_KIND_DISCONNECT_AGENT
  | TUN_CTL_COMMAND_KIND_DISCONNECT_TUNNEL
  | TUN_CTL_COMMAND_KIND_TAKEN_OVER

datatype TunClaimKind =
    TUN_CLAIM_KIND_UNSPECIFIED
  | TUN_CLAIM_KIND_CLAIM
  | TUN_CLAIM_KIND_PARK
  | TUN_CLAIM_KIND_RELEASE
  | TUN_CLAIM_KIND_ANNOUNCE
  | TUN_CLAIM_KIND_HEARTBEAT
  | TUN_CLAIM_KIND_AGENT_UP
  | TUN_CLAIM_KIND_AGENT_DOWN

datatype TunClaimError =
    TUN_CLAIM_ERROR_UNSPECIFIED
  | TUN_CLAIM_ERROR_NAME_TAKEN
  | TUN_CLAIM_ERROR_MAX_TUNNELS
  | TUN_CLAIM_ERROR_PORT_UNAVAILABLE
  | TUN_CLAIM_ERROR_PORT_NOT_ALLOWED
  | TUN_CLAIM_ERROR_FORBIDDEN
  | TUN_CLAIM_ERROR_INVALID

record TunLiveTunnel =
  tl_TunnelId :: string
  tl_Name :: string
  tl_Type :: TunTunnelType
  tl_Hostname :: string
  tl_Domains :: "string list"
  tl_PublicPort :: int
  tl_RelayId :: string
  tl_AgentId :: string
  tl_TokenId :: string
  tl_State :: TunLiveState
  tl_ConnectedAt :: int
  tl_GraceUntil :: int
  tl_ActiveConns :: int
  tl_TotalConns :: int
  tl_BytesIn :: int
  tl_BytesOut :: int
  tl_Simulated :: bool
  tl_SessionId :: string
  tl_AccessToken :: bool
  tl_PreviousPort :: int

record TunAgent =
  ag_AgentId :: string
  ag_TokenId :: string
  ag_TokenName :: string
  ag_CertSerial :: string
  ag_SessionId :: string
  ag_Version :: string
  ag_Os :: string
  ag_Arch :: string
  ag_PublicIp :: string
  ag_RelayId :: string
  ag_Transport :: TunAgentTransport
  ag_State :: TunAgentState
  ag_ConnectedAt :: int
  ag_LastHeartbeat :: int
  ag_RttUs :: int
  ag_TunnelCount :: int
  ag_ActiveStreams :: int
  ag_BytesIn :: int
  ag_BytesOut :: int
  ag_GraceUntil :: int
  ag_LastSeen :: int
  ag_DisconnectReason :: TunDisconnectReason
  ag_Simulated :: bool

record TunRelay =
  rl_RelayId :: string
  rl_PodIp :: string
  rl_TlsPort :: int
  rl_HttpPort :: int
  rl_StreamPort :: int
  rl_GatewayPort :: int
  rl_OpsPort :: int
  rl_State :: TunRelayState
  rl_Sessions :: int
  rl_Tunnels :: int
  rl_BytesIn :: int
  rl_BytesOut :: int
  rl_CertNotAfter :: int
  rl_Version :: string
  rl_StartedAt :: int
  rl_LastSeen :: int
  rl_Simulated :: bool

record TunReservation =
  rs_ReservationId :: string
  rs_Name :: string
  rs_TokenId :: string
  rs_PublicPort :: int
  rs_Note :: string
  rs_CreatedAt :: int

record TunCtlCommand =
  cm_Kind :: TunCtlCommandKind
  cm_RelayId :: string
  cm_AgentId :: string
  cm_TunnelId :: string
  cm_RequestedBy :: string

record TunClaimRequest =
  rq_Kind :: TunClaimKind
  rq_RelayId :: string
  rq_SessionId :: string
  rq_AgentId :: string
  rq_TokenId :: string
  rq_MaxTunnels :: int
  rq_PortMin :: int
  rq_PortMax :: int
  rq_Tunnels :: "TunLiveTunnel list"
  rq_Names :: "string list"
  rq_GraceUntil :: int
  rq_Agent :: "TunAgent option"
  rq_Agents :: "TunAgent list"
  rq_Relay :: "TunRelay option"
  rq_Reason :: TunDisconnectReason

text \<open>The response's message text is dropped; its error code is kept.\<close>

record TunClaimResponse =
  rp_Error :: TunClaimError
  rp_Tunnels :: "TunLiveTunnel list"
  rp_Conflicts :: "string list"

end
