(* ===== verification/Claims_Model.thy ===== *)
theory Claims_Model
  imports Tun_Types
begin

text \<open>
  \<open>go/tunnel/claims\<close>: the cluster-wide claims engine.  The engine's mutex
  makes every method one atomic step, so each method is a function from the
  engine to the engine.  The calls to the sink are a trace \<open>eng_sink\<close> (oldest
  first).  The clock is read once per method and passed as nanoseconds;
  \<open>Unix\<close> truncates it to seconds.  Loops over a Go map run over the list that
  represents it: each iteration only touches the entry it visits.
\<close>

section \<open>State\<close>

definition Unix :: "int \<Rightarrow> int" where
  "Unix t = t div 1000000000"

datatype Change = Created | Updated | Moved | Deleted

datatype SinkCall =
    TunnelChanged TunLiveTunnel Change
  | AgentChanged TunAgent Change
  | RelayChanged TunRelay Change
  | SinkCommand TunCtlCommand

record Directory =
  dir_Reservations :: "TunReservation list"
  dir_IsSiteName :: "string \<Rightarrow> bool"

record EngineConfig =
  cfg_Rules :: Rules
  cfg_Grace :: int
  cfg_RelayTimeout :: int
  cfg_OfflineRetention :: int
  cfg_DownRetention :: int
  cfg_AllowSimulated :: bool

record Engine =
  eng_tunnels :: "(string, TunLiveTunnel) gomap"
  eng_byPort :: "(int, string) gomap"
  eng_byDomain :: "(string, string) gomap"
  eng_agents :: "(string, TunAgent) gomap"
  eng_relays :: "(string, TunRelay) gomap"
  eng_sink :: "SinkCall list"

definition withDefaults :: "EngineConfig \<Rightarrow> EngineConfig" where
  "withDefaults cfg = cfg\<lparr>
     cfg_Grace := (if cfg_Grace cfg = 0 then 300000000000 else cfg_Grace cfg),
     cfg_RelayTimeout := (if cfg_RelayTimeout cfg = 0 then 15000000000 else cfg_RelayTimeout cfg),
     cfg_OfflineRetention := (if cfg_OfflineRetention cfg = 0 then 86400000000000 else cfg_OfflineRetention cfg),
     cfg_DownRetention := (if cfg_DownRetention cfg = 0 then 3600000000000 else cfg_DownRetention cfg)\<rparr>"

definition New_Engine :: Engine where
  "New_Engine = \<lparr>eng_tunnels = [], eng_byPort = [], eng_byDomain = [], eng_agents = [],
     eng_relays = [], eng_sink = []\<rparr>"

definition refuse :: "TunClaimError \<Rightarrow> TunClaimResponse" where
  "refuse code = \<lparr>rp_Error = code, rp_Tunnels = [], rp_Conflicts = []\<rparr>"

definition emptyResponse :: TunClaimResponse where
  "emptyResponse = \<lparr>rp_Error = TUN_CLAIM_ERROR_UNSPECIFIED, rp_Tunnels = [], rp_Conflicts = []\<rparr>"

definition emit :: "SinkCall \<Rightarrow> Engine \<Rightarrow> Engine" where
  "emit c e = e\<lparr>eng_sink := eng_sink e @ [c]\<rparr>"

definition unindex :: "TunLiveTunnel \<Rightarrow> Engine \<Rightarrow> Engine" where
  "unindex rec e = e\<lparr>
     eng_byPort := (if tl_PublicPort rec \<noteq> 0 \<and> get_str (eng_byPort e) (tl_PublicPort rec) = tl_Name rec
                    then AList.delete (tl_PublicPort rec) (eng_byPort e) else eng_byPort e),
     eng_byDomain := fold (\<lambda>d m. if get_str m d = tl_Name rec then AList.delete d m else m)
                       (tl_Domains rec) (eng_byDomain e)\<rparr>"

definition changeOf :: "TunLiveTunnel option \<Rightarrow> TunLiveTunnel \<Rightarrow> Change" where
  "changeOf old rec =
     (case old of
        None \<Rightarrow> Created
      | Some o' \<Rightarrow>
          if tl_RelayId o' \<noteq> tl_RelayId rec \<or> tl_State o' \<noteq> tl_State rec \<or> tl_PublicPort o' \<noteq> tl_PublicPort rec
          then Moved else Updated)"

definition setTunnel :: "TunLiveTunnel \<Rightarrow> Engine \<Rightarrow> Engine" where
  "setTunnel rec e =
     (let old = map_of (eng_tunnels e) (tl_Name rec);
          e1 = (case old of None \<Rightarrow> e | Some o' \<Rightarrow> unindex o' e)
      in emit (TunnelChanged rec (changeOf old rec))
           (e1\<lparr>eng_tunnels := AList.update (tl_Name rec) rec (eng_tunnels e1),
               eng_byPort := (if tl_PublicPort rec \<noteq> 0
                              then AList.update (tl_PublicPort rec) (tl_Name rec) (eng_byPort e1)
                              else eng_byPort e1),
               eng_byDomain := fold (\<lambda>d. AList.update d (tl_Name rec)) (tl_Domains rec) (eng_byDomain e1)\<rparr>))"

definition deleteTunnel :: "string \<Rightarrow> Engine \<Rightarrow> Engine" where
  "deleteTunnel name e =
     (case map_of (eng_tunnels e) name of
        None \<Rightarrow> e
      | Some rec \<Rightarrow>
          (let e1 = unindex rec e
           in emit (TunnelChanged rec Deleted)
                (e1\<lparr>eng_tunnels := AList.delete name (eng_tunnels e1)\<rparr>)))"

definition setAgent :: "TunAgent \<Rightarrow> Engine \<Rightarrow> Engine" where
  "setAgent a e =
     (let change = (if map_of (eng_agents e) (ag_AgentId a) \<noteq> None then Updated else Created)
      in emit (AgentChanged a change) (e\<lparr>eng_agents := AList.update (ag_AgentId a) a (eng_agents e)\<rparr>))"

definition setRelay :: "TunRelay \<Rightarrow> Engine \<Rightarrow> Engine" where
  "setRelay r e =
     (let change = (if map_of (eng_relays e) (rl_RelayId r) \<noteq> None then Updated else Created)
      in emit (RelayChanged r change) (e\<lparr>eng_relays := AList.update (rl_RelayId r) r (eng_relays e)\<rparr>))"

section \<open>Claiming: \<open>claim.go\<close>\<close>

record Staging =
  st_recs :: "(string, TunLiveTunnel) gomap"
  st_ports :: "(int, string) gomap"
  st_domains :: "(string, string) gomap"
  st_takeovers :: "TunLiveTunnel list"

definition emptyStaging :: Staging where
  "emptyStaging = \<lparr>st_recs = [], st_ports = [], st_domains = [], st_takeovers = []\<rparr>"

definition hasPort :: "TunTunnelType \<Rightarrow> bool" where
  "hasPort t \<longleftrightarrow> t = TUN_TUNNEL_TYPE_TCP \<or> t = TUN_TUNNEL_TYPE_SSH"

definition is_active :: "TunLiveTunnel \<Rightarrow> bool" where
  "is_active t \<longleftrightarrow> tl_State t = TUN_LIVE_STATE_ACTIVE"

definition active :: "Engine \<Rightarrow> string \<Rightarrow> string \<Rightarrow> (string, TunLiveTunnel) gomap \<Rightarrow> int" where
  "active e tokenID name staged =
     int (length (filter (\<lambda>(_, t). tl_TokenId t = tokenID \<and> tl_Name t \<noteq> name \<and> is_active t \<and>
            map_of staged (tl_Name t) = None) (eng_tunnels e))) + int (length staged)"

definition reservedByOther :: "TunReservation list \<Rightarrow> string \<Rightarrow> int \<Rightarrow> bool" where
  "reservedByOther reservations name p = list_ex (\<lambda>r. rs_PublicPort r = p \<and> rs_Name r \<noteq> name) reservations"

definition free_port :: "Engine \<Rightarrow> TunReservation list \<Rightarrow> (int, string) gomap \<Rightarrow> string \<Rightarrow> int \<Rightarrow> bool" where
  "free_port e reservations staged name p \<longleftrightarrow>
     (let owner = get_str (eng_byPort e) p
      in (owner = [] \<or> owner = name) \<and> get_str staged p = [] \<and> \<not> reservedByOther reservations name p)"

definition claim_range :: "EngineConfig \<Rightarrow> TunClaimRequest \<Rightarrow> int \<times> int" where
  "claim_range cfg req =
     (if rq_PortMin req = 0 then (int32 (PortMin (cfg_Rules cfg)), int32 (PortMax (cfg_Rules cfg)))
      else (rq_PortMin req, rq_PortMax req))"

definition wanted_port :: "TunLiveTunnel \<Rightarrow> TunLiveTunnel option \<Rightarrow> TunReservation option \<Rightarrow> int" where
  "wanted_port spec holder resv =
     (let w1 = tl_PublicPort spec;
          w2 = (case resv of
                  Some r \<Rightarrow> if w1 = 0 \<and> rs_PublicPort r \<noteq> 0 then rs_PublicPort r else w1
                | None \<Rightarrow> w1)
      in case holder of
           Some h \<Rightarrow> if w2 = 0 \<and> tl_PublicPort h \<noteq> 0 then tl_PublicPort h else w2
         | None \<Rightarrow> w2)"

definition claim_port ::
  "EngineConfig \<Rightarrow> Engine \<Rightarrow> TunClaimRequest \<Rightarrow> TunLiveTunnel \<Rightarrow> TunLiveTunnel option \<Rightarrow>
   TunReservation option \<Rightarrow> TunReservation list \<Rightarrow> (int, string) gomap \<Rightarrow> (TunClaimError, int) result" where
  "claim_port cfg e req spec holder resv reservations staged =
     (let free = free_port e reservations staged (tl_Name spec);
          (lo, hi) = claim_range cfg req;
          want = wanted_port spec holder resv
      in if want = 0 \<and> tl_PreviousPort spec \<ge> lo \<and> tl_PreviousPort spec \<le> hi \<and> free (tl_PreviousPort spec)
         then Ok (tl_PreviousPort spec)
         else if want \<noteq> 0 then
           (if want < int32 (PortMin (cfg_Rules cfg)) \<or> want > int32 (PortMax (cfg_Rules cfg))
            then Err TUN_CLAIM_ERROR_PORT_NOT_ALLOWED
            else if \<not> free want then Err TUN_CLAIM_ERROR_PORT_UNAVAILABLE
            else Ok want)
         else (case find free [lo..hi] of
                 Some p \<Rightarrow> Ok p
               | None \<Rightarrow> Err TUN_CLAIM_ERROR_PORT_UNAVAILABLE))"

definition reservation_of :: "TunReservation list \<Rightarrow> string \<Rightarrow> TunReservation option" where
  "reservation_of reservations name =
     fold (\<lambda>r acc. if rs_Name r = name then Some r else acc) reservations None"

definition holder_of :: "Engine \<Rightarrow> string \<Rightarrow> string \<Rightarrow> Holder option" where
  "holder_of e name sessionID =
     (case map_of (eng_tunnels e) name of
        None \<Rightarrow> None
      | Some t \<Rightarrow> Some \<lparr>HTokenID = tl_TokenId t, HAgentID = tl_AgentId t,
                       Connected = is_active t, SameSession = (tl_SessionId t = sessionID)\<rparr>)"

definition claimed_rec :: "int \<Rightarrow> TunClaimRequest \<Rightarrow> TunLiveTunnel \<Rightarrow> TunLiveTunnel" where
  "claimed_rec now req spec = spec\<lparr>
     tl_RelayId := rq_RelayId req, tl_AgentId := rq_AgentId req,
     tl_TokenId := rq_TokenId req, tl_SessionId := rq_SessionId req,
     tl_State := TUN_LIVE_STATE_ACTIVE, tl_ConnectedAt := Unix now, tl_GraceUntil := 0,
     tl_ActiveConns := 0, tl_TotalConns := 0, tl_BytesIn := 0, tl_BytesOut := 0,
     tl_PublicPort := 0, tl_PreviousPort := 0\<rparr>"

definition domain_taken :: "Engine \<Rightarrow> (string, string) gomap \<Rightarrow> string \<Rightarrow> string \<Rightarrow> bool" where
  "domain_taken e stagedDomains name d \<longleftrightarrow>
     (let owner = get_str (eng_byDomain e) d
      in (owner \<noteq> [] \<and> owner \<noteq> name) \<or> get_str stagedDomains d \<noteq> [])"

definition claim_check ::
  "EngineConfig \<Rightarrow> Directory \<Rightarrow> int \<Rightarrow> Engine \<Rightarrow> TunClaimRequest \<Rightarrow> TunLiveTunnel \<Rightarrow> Staging \<Rightarrow>
   (TunClaimError, TunLiveTunnel) result" where
  "claim_check cfg dir now e req spec st =
     (let rules = cfg_Rules cfg; name = tl_Name spec; reservations = dir_Reservations dir in
      case CheckName rules name of
        Inl _ \<Rightarrow> Err TUN_CLAIM_ERROR_INVALID
      | Inr _ \<Rightarrow>
      if dir_IsSiteName dir (name @ ''.'' @ BaseDomain rules) then Err TUN_CLAIM_ERROR_NAME_TAKEN
      else let resv = reservation_of reservations name in
      if (case resv of Some r \<Rightarrow> rs_TokenId r \<noteq> rq_TokenId req | None \<Rightarrow> False)
      then Err TUN_CLAIM_ERROR_NAME_TAKEN
      else case Decide (holder_of e name (rq_SessionId req)) (rq_TokenId req) (rq_AgentId req)
                  (active e (rq_TokenId req) name (st_recs st)) (rq_MaxTunnels req) of
        Inl err \<Rightarrow>
          (if err = ErrMaxTunnels then Err TUN_CLAIM_ERROR_MAX_TUNNELS else Err TUN_CLAIM_ERROR_NAME_TAKEN)
      | Inr _ \<Rightarrow>
      let rec = claimed_rec now req spec in
      if list_ex (domain_taken e (st_domains st) name) (tl_Domains rec) then Err TUN_CLAIM_ERROR_NAME_TAKEN
      else if hasPort (tl_Type spec) \<and> \<not> tl_AccessToken spec then
        (case claim_port cfg e req spec (map_of (eng_tunnels e) name) resv reservations (st_ports st) of
           Inl code \<Rightarrow> Err code
         | Inr p \<Rightarrow> Ok (rec\<lparr>tl_PublicPort := p\<rparr>))
      else Ok rec)"

definition stage_rec :: "Engine \<Rightarrow> TunClaimRequest \<Rightarrow> TunLiveTunnel \<Rightarrow> Staging \<Rightarrow> Staging" where
  "stage_rec e req rec st = \<lparr>
     st_recs = AList.update (tl_Name rec) rec (st_recs st),
     st_ports = (if tl_PublicPort rec \<noteq> 0 then AList.update (tl_PublicPort rec) (tl_Name rec) (st_ports st)
                 else st_ports st),
     st_domains = fold (\<lambda>d. AList.update d (tl_Name rec)) (tl_Domains rec) (st_domains st),
     st_takeovers = (case map_of (eng_tunnels e) (tl_Name rec) of
                       Some old \<Rightarrow> if is_active old \<and> tl_RelayId old \<noteq> rq_RelayId req
                                   then st_takeovers st @ [old] else st_takeovers st
                     | None \<Rightarrow> st_takeovers st)\<rparr>"

fun claim_stage ::
  "EngineConfig \<Rightarrow> Directory \<Rightarrow> int \<Rightarrow> Engine \<Rightarrow> TunClaimRequest \<Rightarrow> TunLiveTunnel list \<Rightarrow> Staging \<Rightarrow>
   (TunClaimError, Staging) result" where
  "claim_stage cfg dir now e req [] st = Ok st"
| "claim_stage cfg dir now e req (spec # specs) st =
     (if tl_Simulated spec \<and> \<not> cfg_AllowSimulated cfg then Err TUN_CLAIM_ERROR_FORBIDDEN
      else if map_of (st_recs st) (tl_Name spec) \<noteq> None then Err TUN_CLAIM_ERROR_INVALID
      else case claim_check cfg dir now e req spec st of
             Inl code \<Rightarrow> Err code
           | Inr rec \<Rightarrow> claim_stage cfg dir now e req specs (stage_rec e req rec st))"

definition takeover_command :: "TunLiveTunnel \<Rightarrow> TunCtlCommand" where
  "takeover_command old = \<lparr>cm_Kind = TUN_CTL_COMMAND_KIND_TAKEN_OVER, cm_RelayId = tl_RelayId old,
     cm_AgentId = tl_AgentId old, cm_TunnelId = tl_TunnelId old, cm_RequestedBy = []\<rparr>"

definition claim :: "EngineConfig \<Rightarrow> Directory \<Rightarrow> int \<Rightarrow> TunClaimRequest \<Rightarrow> Engine \<Rightarrow> TunClaimResponse \<times> Engine" where
  "claim cfg dir now req e =
     (if rq_Tunnels req = [] then (refuse TUN_CLAIM_ERROR_INVALID, e)
      else if rq_AgentId req = [] \<or> rq_TokenId req = [] \<or> rq_SessionId req = []
      then (refuse TUN_CLAIM_ERROR_INVALID, e)
      else case claim_stage cfg dir now e req (rq_Tunnels req) emptyStaging of
             Inl code \<Rightarrow> (refuse code, e)
           | Inr st \<Rightarrow>
               (let recs = map (\<lambda>spec. the (map_of (st_recs st) (tl_Name spec))) (rq_Tunnels req);
                    e1 = fold setTunnel recs e;
                    e2 = fold (\<lambda>old. emit (SinkCommand (takeover_command old))) (st_takeovers st) e1
                in (emptyResponse\<lparr>rp_Tunnels := recs\<rparr>, e2)))"

section \<open>Lifecycle: \<open>lifecycle.go\<close>\<close>

definition owned_by :: "TunClaimRequest \<Rightarrow> TunLiveTunnel \<Rightarrow> bool" where
  "owned_by req rec \<longleftrightarrow>
     tl_RelayId rec = rq_RelayId req \<and> (rq_SessionId req = [] \<or> tl_SessionId rec = rq_SessionId req)"

definition parked_rec :: "int \<Rightarrow> TunLiveTunnel \<Rightarrow> TunLiveTunnel" where
  "parked_rec until rec = rec\<lparr>tl_State := TUN_LIVE_STATE_GRACE, tl_GraceUntil := until, tl_ActiveConns := 0\<rparr>"

definition park_one :: "TunClaimRequest \<Rightarrow> int \<Rightarrow> string \<Rightarrow> Engine \<Rightarrow> Engine" where
  "park_one req until name e =
     (case map_of (eng_tunnels e) name of
        None \<Rightarrow> e
      | Some rec \<Rightarrow> if owned_by req rec then setTunnel (parked_rec until rec) e else e)"

definition park :: "EngineConfig \<Rightarrow> int \<Rightarrow> TunClaimRequest \<Rightarrow> Engine \<Rightarrow> Engine" where
  "park cfg now req e =
     (let until = (if rq_GraceUntil req = 0 then Unix (now + cfg_Grace cfg) else rq_GraceUntil req)
      in fold (park_one req until) (rq_Names req) e)"

definition release_one :: "TunClaimRequest \<Rightarrow> string \<Rightarrow> Engine \<Rightarrow> Engine" where
  "release_one req name e =
     (case map_of (eng_tunnels e) name of
        None \<Rightarrow> e
      | Some rec \<Rightarrow> if owned_by req rec then deleteTunnel name e else e)"

definition release :: "TunClaimRequest \<Rightarrow> Engine \<Rightarrow> Engine" where
  "release req e = fold (release_one req) (rq_Names req) e"

definition zeroRelay :: TunRelay where
  "zeroRelay = \<lparr>rl_RelayId = [], rl_PodIp = [], rl_TlsPort = 0, rl_HttpPort = 0, rl_StreamPort = 0,
     rl_GatewayPort = 0, rl_OpsPort = 0, rl_State = TUN_RELAY_STATE_UNSPECIFIED, rl_Sessions = 0,
     rl_Tunnels = 0, rl_BytesIn = 0, rl_BytesOut = 0, rl_CertNotAfter = 0, rl_Version = [],
     rl_StartedAt = 0, rl_LastSeen = 0, rl_Simulated = False\<rparr>"

definition touchRelay :: "int \<Rightarrow> string \<Rightarrow> TunRelay option \<Rightarrow> Engine \<Rightarrow> Engine" where
  "touchRelay now rid r e =
     (let rec0 = (case r of
                    None \<Rightarrow> (zeroRelay\<lparr>rl_RelayId := rid, rl_State := TUN_RELAY_STATE_READY\<rparr>)
                  | Some r' \<Rightarrow> r'\<lparr>rl_RelayId := rid\<rparr>);
          rec1 = rec0\<lparr>rl_State := (if rl_State rec0 = TUN_RELAY_STATE_UNSPECIFIED \<or> rl_State rec0 = TUN_RELAY_STATE_DOWN
                                   then TUN_RELAY_STATE_READY else rl_State rec0),
                      rl_LastSeen := Unix now\<rparr>;
          rec2 = (case map_of (eng_relays e) rid of
                    Some old \<Rightarrow> if rl_StartedAt rec1 = 0 then rec1\<lparr>rl_StartedAt := rl_StartedAt old\<rparr> else rec1
                  | None \<Rightarrow> rec1)
      in setRelay rec2 e)"

definition announce_conflict :: "TunClaimRequest \<Rightarrow> Engine \<Rightarrow> TunLiveTunnel \<Rightarrow> bool" where
  "announce_conflict req e t =
     (case map_of (eng_tunnels e) (tl_Name t) of
        None \<Rightarrow> False
      | Some cur \<Rightarrow> tl_RelayId cur \<noteq> rq_RelayId req \<and> is_active cur \<and> tl_AgentId cur \<noteq> tl_AgentId t)"

definition announced_rec :: "TunClaimRequest \<Rightarrow> TunLiveTunnel \<Rightarrow> TunLiveTunnel" where
  "announced_rec req t = t\<lparr>tl_RelayId := rq_RelayId req,
     tl_State := (if tl_State t = TUN_LIVE_STATE_UNSPECIFIED then TUN_LIVE_STATE_ACTIVE else tl_State t)\<rparr>"

text \<open>The loop over the reported tunnels: engine, conflicts, reported names.\<close>

fun announce_tunnels ::
  "EngineConfig \<Rightarrow> TunClaimRequest \<Rightarrow> TunLiveTunnel list \<Rightarrow> Engine \<times> string list \<times> string list \<Rightarrow>
   Engine \<times> string list \<times> string list" where
  "announce_tunnels cfg req [] s = s"
| "announce_tunnels cfg req (t # ts) (e, conflicts, reported) =
     announce_tunnels cfg req ts
       (if tl_Simulated t \<and> \<not> cfg_AllowSimulated cfg then (e, conflicts, reported)
        else if announce_conflict req e t then (e, conflicts @ [tl_Name t], reported)
        else (setTunnel (announced_rec req t) e, conflicts, tl_Name t # reported))"

definition graced_rec :: "int \<Rightarrow> TunLiveTunnel \<Rightarrow> TunLiveTunnel" where
  "graced_rec until rec = rec\<lparr>tl_State := TUN_LIVE_STATE_GRACE, tl_GraceUntil := until\<rparr>"

definition announce ::
  "EngineConfig \<Rightarrow> int \<Rightarrow> TunClaimRequest \<Rightarrow> Engine \<Rightarrow> TunClaimResponse \<times> Engine" where
  "announce cfg now req e =
     (if (case rq_Relay req of Some r \<Rightarrow> rl_Simulated r \<and> \<not> cfg_AllowSimulated cfg | None \<Rightarrow> False)
      then (refuse TUN_CLAIM_ERROR_FORBIDDEN, e)
      else
        let e1 = (case rq_Relay req of Some r \<Rightarrow> touchRelay now (rq_RelayId req) (Some r) e | None \<Rightarrow> e);
            (e2, conflicts, reported) = announce_tunnels cfg req (rq_Tunnels req) (e1, [], []);
            until = Unix (now + cfg_Grace cfg);
            e3 = fold (\<lambda>(name, rec) en.
                   if tl_RelayId rec = rq_RelayId req \<and> name \<notin> set reported \<and> is_active rec
                   then setTunnel (graced_rec until rec) en else en) (eng_tunnels e2) e2;
            e4 = fold (\<lambda>a en.
                   if ag_Simulated a \<and> \<not> cfg_AllowSimulated cfg then en
                   else setAgent (a\<lparr>ag_RelayId := rq_RelayId req\<rparr>) en) (rq_Agents req) e3
        in (emptyResponse\<lparr>rp_Conflicts := conflicts\<rparr>, e4))"

definition heartbeat_tunnel :: "TunClaimRequest \<Rightarrow> TunLiveTunnel \<Rightarrow> Engine \<Rightarrow> Engine" where
  "heartbeat_tunnel req t e =
     (case map_of (eng_tunnels e) (tl_Name t) of
        None \<Rightarrow> e
      | Some rec \<Rightarrow>
          if tl_RelayId rec \<noteq> rq_RelayId req \<or> \<not> is_active rec then e
          else if tl_ActiveConns rec = tl_ActiveConns t \<and> tl_TotalConns rec = tl_TotalConns t \<and>
                  tl_BytesIn rec = tl_BytesIn t \<and> tl_BytesOut rec = tl_BytesOut t then e
          else setTunnel (rec\<lparr>tl_ActiveConns := tl_ActiveConns t, tl_TotalConns := tl_TotalConns t,
                              tl_BytesIn := tl_BytesIn t, tl_BytesOut := tl_BytesOut t\<rparr>) e)"

definition heartbeat_agent :: "int \<Rightarrow> TunClaimRequest \<Rightarrow> TunAgent \<Rightarrow> Engine \<Rightarrow> Engine" where
  "heartbeat_agent now req a e =
     (case map_of (eng_agents e) (ag_AgentId a) of
        None \<Rightarrow> e
      | Some rec \<Rightarrow>
          if ag_RelayId rec \<noteq> rq_RelayId req \<or> ag_SessionId rec \<noteq> ag_SessionId a then e
          else setAgent (rec\<lparr>ag_LastHeartbeat := ag_LastHeartbeat a, ag_RttUs := ag_RttUs a,
                             ag_TunnelCount := ag_TunnelCount a, ag_ActiveStreams := ag_ActiveStreams a,
                             ag_BytesIn := ag_BytesIn a, ag_BytesOut := ag_BytesOut a,
                             ag_LastSeen := Unix now\<rparr>) e)"

definition heartbeat :: "int \<Rightarrow> TunClaimRequest \<Rightarrow> Engine \<Rightarrow> Engine" where
  "heartbeat now req e =
     (let e1 = touchRelay now (rq_RelayId req) (rq_Relay req) e;
          e2 = fold (heartbeat_tunnel req) (rq_Tunnels req) e1
      in fold (heartbeat_agent now req) (rq_Agents req) e2)"

definition agentUp :: "EngineConfig \<Rightarrow> int \<Rightarrow> TunClaimRequest \<Rightarrow> Engine \<Rightarrow> TunClaimResponse \<times> Engine" where
  "agentUp cfg now req e =
     (case rq_Agent req of
        None \<Rightarrow> (refuse TUN_CLAIM_ERROR_INVALID, e)
      | Some a \<Rightarrow>
          if ag_AgentId a = [] \<or> ag_SessionId a = [] then (refuse TUN_CLAIM_ERROR_INVALID, e)
          else if ag_Simulated a \<and> \<not> cfg_AllowSimulated cfg then (refuse TUN_CLAIM_ERROR_FORBIDDEN, e)
          else (emptyResponse,
                setAgent (a\<lparr>ag_RelayId := rq_RelayId req, ag_State := TUN_AGENT_STATE_ONLINE, ag_GraceUntil := 0,
                            ag_DisconnectReason := TUN_DISCONNECT_REASON_UNSPECIFIED,
                            ag_ConnectedAt := (if ag_ConnectedAt a = 0 then Unix now else ag_ConnectedAt a),
                            ag_LastSeen := Unix now, ag_LastHeartbeat := Unix now\<rparr>) e))"

definition downAgent :: "EngineConfig \<Rightarrow> TunAgent \<Rightarrow> TunDisconnectReason \<Rightarrow> int \<Rightarrow> Engine \<Rightarrow> Engine" where
  "downAgent cfg rec reason now e =
     setAgent (rec\<lparr>
       ag_State := (if reason = TUN_DISCONNECT_REASON_TOKEN_REVOKED then TUN_AGENT_STATE_OFFLINE else TUN_AGENT_STATE_GRACE),
       ag_DisconnectReason := reason,
       ag_GraceUntil := (if reason = TUN_DISCONNECT_REASON_TOKEN_REVOKED then 0 else Unix (now + cfg_Grace cfg)),
       ag_LastSeen := Unix now, ag_ActiveStreams := 0\<rparr>) e"

definition agentDown :: "EngineConfig \<Rightarrow> int \<Rightarrow> TunClaimRequest \<Rightarrow> Engine \<Rightarrow> Engine" where
  "agentDown cfg now req e =
     (case map_of (eng_agents e) (rq_AgentId req) of
        None \<Rightarrow> e
      | Some rec \<Rightarrow>
          if ag_RelayId rec \<noteq> rq_RelayId req \<or> ag_SessionId rec \<noteq> rq_SessionId req then e
          else downAgent cfg rec (rq_Reason req) now e)"

section \<open>One relay request: \<open>Handle\<close>\<close>

definition Handle :: "EngineConfig \<Rightarrow> Directory \<Rightarrow> int \<Rightarrow> TunClaimRequest \<Rightarrow> Engine \<Rightarrow> TunClaimResponse \<times> Engine" where
  "Handle cfg dir now req e =
     (if rq_RelayId req = [] then (refuse TUN_CLAIM_ERROR_INVALID, e)
      else case rq_Kind req of
             TUN_CLAIM_KIND_CLAIM \<Rightarrow> claim cfg dir now req e
           | TUN_CLAIM_KIND_PARK \<Rightarrow> (emptyResponse, park cfg now req e)
           | TUN_CLAIM_KIND_RELEASE \<Rightarrow> (emptyResponse, release req e)
           | TUN_CLAIM_KIND_ANNOUNCE \<Rightarrow> announce cfg now req e
           | TUN_CLAIM_KIND_HEARTBEAT \<Rightarrow> (emptyResponse, heartbeat now req e)
           | TUN_CLAIM_KIND_AGENT_UP \<Rightarrow> agentUp cfg now req e
           | TUN_CLAIM_KIND_AGENT_DOWN \<Rightarrow> (emptyResponse, agentDown cfg now req e)
           | TUN_CLAIM_KIND_UNSPECIFIED \<Rightarrow> (refuse TUN_CLAIM_ERROR_INVALID, e))"

definition Snapshot :: "Engine \<Rightarrow> TunLiveTunnel list \<times> TunAgent list \<times> TunRelay list" where
  "Snapshot e = (map snd (eng_tunnels e), map snd (eng_agents e), map snd (eng_relays e))"

section \<open>Time and operator commands: \<open>sweep.go\<close>\<close>

definition lostRelay :: "EngineConfig \<Rightarrow> int \<Rightarrow> string \<Rightarrow> TunRelay \<Rightarrow> Engine \<Rightarrow> Engine" where
  "lostRelay cfg now rid r e =
     (let e1 = setRelay (r\<lparr>rl_State := TUN_RELAY_STATE_DOWN, rl_Sessions := 0, rl_Tunnels := 0\<rparr>) e;
          until = Unix (now + cfg_Grace cfg);
          e2 = fold (\<lambda>(_, t) en.
                 if tl_RelayId t = rid \<and> is_active t then setTunnel (parked_rec until t) en else en)
               (eng_tunnels e1) e1
      in fold (\<lambda>(_, a) en.
           if ag_RelayId a = rid \<and> ag_State a = TUN_AGENT_STATE_ONLINE
           then downAgent cfg a TUN_DISCONNECT_REASON_RELAY_LOST now en else en)
         (eng_agents e2) e2)"

definition sweep_relay :: "EngineConfig \<Rightarrow> int \<Rightarrow> string \<times> TunRelay \<Rightarrow> Engine \<Rightarrow> Engine" where
  "sweep_relay cfg now = (\<lambda>(rid, r) e.
     if rl_Simulated r then e
     else if rl_State r \<noteq> TUN_RELAY_STATE_DOWN \<and> rl_LastSeen r < Unix (now - cfg_RelayTimeout cfg)
     then lostRelay cfg now rid r e
     else if rl_State r = TUN_RELAY_STATE_DOWN \<and> rl_LastSeen r < Unix (now - cfg_DownRetention cfg)
     then emit (RelayChanged r Deleted) (e\<lparr>eng_relays := AList.delete rid (eng_relays e)\<rparr>)
     else e)"

definition grace_expired :: "int \<Rightarrow> TunLiveTunnel \<Rightarrow> bool" where
  "grace_expired now t \<longleftrightarrow>
     \<not> tl_Simulated t \<and> tl_State t = TUN_LIVE_STATE_GRACE \<and> tl_GraceUntil t \<le> Unix now"

definition sweep_agent :: "EngineConfig \<Rightarrow> int \<Rightarrow> string \<times> TunAgent \<Rightarrow> Engine \<Rightarrow> Engine" where
  "sweep_agent cfg now = (\<lambda>(aid, a) e.
     if ag_Simulated a then e
     else if ag_State a = TUN_AGENT_STATE_GRACE \<and> ag_GraceUntil a \<le> Unix now
     then setAgent (a\<lparr>ag_State := TUN_AGENT_STATE_OFFLINE, ag_GraceUntil := 0\<rparr>) e
     else if ag_State a = TUN_AGENT_STATE_OFFLINE \<and> ag_LastSeen a < Unix (now - cfg_OfflineRetention cfg)
     then emit (AgentChanged a Deleted) (e\<lparr>eng_agents := AList.delete aid (eng_agents e)\<rparr>)
     else e)"

definition Sweep :: "EngineConfig \<Rightarrow> int \<Rightarrow> Engine \<Rightarrow> Engine" where
  "Sweep cfg now e =
     (let e1 = fold (sweep_relay cfg now) (eng_relays e) e;
          e2 = fold (\<lambda>(name, t) en. if grace_expired now t then deleteTunnel name en else en) (eng_tunnels e1) e1
      in fold (sweep_agent cfg now) (eng_agents e2) e2)"

datatype CommandError = ErrNotFound | ErrUnsupported

definition Command :: "TunCtlCommand \<Rightarrow> Engine \<Rightarrow> CommandError option \<times> Engine" where
  "Command cmd e =
     (case cm_Kind cmd of
        TUN_CTL_COMMAND_KIND_REANNOUNCE \<Rightarrow> (None, emit (SinkCommand cmd) e)
      | TUN_CTL_COMMAND_KIND_DISCONNECT_AGENT \<Rightarrow>
          (case map_of (eng_agents e) (cm_AgentId cmd) of
             None \<Rightarrow> (Some ErrNotFound, e)
           | Some a \<Rightarrow>
               if ag_State a \<noteq> TUN_AGENT_STATE_ONLINE then (Some ErrNotFound, e)
               else (None, emit (SinkCommand (cmd\<lparr>cm_RelayId := ag_RelayId a\<rparr>)) e))
      | TUN_CTL_COMMAND_KIND_DISCONNECT_TUNNEL \<Rightarrow>
          (case find (\<lambda>(_, t). tl_TunnelId t = cm_TunnelId cmd \<and> is_active t) (rev (eng_tunnels e)) of
             None \<Rightarrow> (Some ErrNotFound, e)
           | Some (_, t) \<Rightarrow>
               (None, emit (SinkCommand (cmd\<lparr>cm_RelayId := tl_RelayId t, cm_AgentId := tl_AgentId t\<rparr>)) e))
      | TUN_CTL_COMMAND_KIND_UNSPECIFIED \<Rightarrow> (Some ErrUnsupported, e)
      | TUN_CTL_COMMAND_KIND_TAKEN_OVER \<Rightarrow> (Some ErrUnsupported, e)
      | k \<Rightarrow>
          (case map_of (eng_relays e) (cm_RelayId cmd) of
             None \<Rightarrow> (Some ErrNotFound, e)
           | Some r \<Rightarrow>
               if rl_State r = TUN_RELAY_STATE_DOWN then (Some ErrNotFound, e)
               else (None, emit (SinkCommand cmd)
                       (setRelay (r\<lparr>rl_State := (if k = TUN_CTL_COMMAND_KIND_DRAIN
                                                 then TUN_RELAY_STATE_DRAINING else TUN_RELAY_STATE_READY)\<rparr>) e))))"

end
