(* ===== verification/Claims_Index.thy ===== *)
theory Claims_Index
  imports Claims_Model
begin

text \<open>
  The claims engine's indexes.  \<open>eng_wf\<close>: the tables are maps keyed by the
  records' own identifiers.  \<open>index_sound\<close>: an index entry names a tunnel that
  has the port or domain.  \<open>exclusive\<close>: every tunnel is the indexed holder of
  its port and domains, so no two tunnels share one.
\<close>

section \<open>Definitions\<close>

abbreviation tun :: "Engine \<Rightarrow> string \<Rightarrow> TunLiveTunnel option" where
  "tun e \<equiv> map_of (eng_tunnels e)"

abbreviation port_owner :: "Engine \<Rightarrow> int \<Rightarrow> string option" where
  "port_owner e \<equiv> map_of (eng_byPort e)"

abbreviation domain_owner :: "Engine \<Rightarrow> string \<Rightarrow> string option" where
  "domain_owner e \<equiv> map_of (eng_byDomain e)"

definition eng_wf :: "Engine \<Rightarrow> bool" where
  "eng_wf e \<longleftrightarrow>
     map_ok (eng_tunnels e) \<and> map_ok (eng_byPort e) \<and> map_ok (eng_byDomain e) \<and>
     map_ok (eng_agents e) \<and> map_ok (eng_relays e) \<and>
     (\<forall>n t. tun e n = Some t \<longrightarrow> tl_Name t = n) \<and>
     (\<forall>i a. map_of (eng_agents e) i = Some a \<longrightarrow> ag_AgentId a = i) \<and>
     (\<forall>i r. map_of (eng_relays e) i = Some r \<longrightarrow> rl_RelayId r = i)"

definition index_sound :: "Engine \<Rightarrow> bool" where
  "index_sound e \<longleftrightarrow>
     (\<forall>p n. port_owner e p = Some n \<longrightarrow> p \<noteq> 0 \<and> (\<exists>t. tun e n = Some t \<and> tl_PublicPort t = p)) \<and>
     (\<forall>d n. domain_owner e d = Some n \<longrightarrow> (\<exists>t. tun e n = Some t \<and> d \<in> set (tl_Domains t)))"

definition exclusive :: "Engine \<Rightarrow> bool" where
  "exclusive e \<longleftrightarrow>
     (\<forall>n t. tun e n = Some t \<longrightarrow>
        n \<noteq> [] \<and>
        (tl_PublicPort t \<noteq> 0 \<longrightarrow> port_owner e (tl_PublicPort t) = Some n) \<and>
        (\<forall>d\<in>set (tl_Domains t). domain_owner e d = Some n))"

definition eng_inv :: "Engine \<Rightarrow> bool" where
  "eng_inv e \<longleftrightarrow> eng_wf e \<and> index_sound e"

definition eng_excl :: "Engine \<Rightarrow> bool" where
  "eng_excl e \<longleftrightarrow> eng_inv e \<and> exclusive e"

definition no_clash :: "TunLiveTunnel \<Rightarrow> Engine \<Rightarrow> bool" where
  "no_clash rec e \<longleftrightarrow>
     tl_Name rec \<noteq> [] \<and>
     (tl_PublicPort rec \<noteq> 0 \<longrightarrow> port_owner e (tl_PublicPort rec) \<in> {None, Some (tl_Name rec)}) \<and>
     (\<forall>d\<in>set (tl_Domains rec). domain_owner e d \<in> {None, Some (tl_Name rec)})"

text \<open>Two records claim nothing in common.\<close>

definition disjoint_recs :: "TunLiveTunnel \<Rightarrow> TunLiveTunnel \<Rightarrow> bool" where
  "disjoint_recs r s \<longleftrightarrow>
     tl_Name r \<noteq> tl_Name s \<and> (tl_PublicPort r \<noteq> 0 \<longrightarrow> tl_PublicPort r \<noteq> tl_PublicPort s) \<and>
     set (tl_Domains r) \<inter> set (tl_Domains s) = {}"

section \<open>Index lookups\<close>

lemma inv_port: "eng_inv e \<Longrightarrow> port_owner e p = Some n \<Longrightarrow> p \<noteq> 0 \<and> (\<exists>t. tun e n = Some t \<and> tl_PublicPort t = p)"
  by (simp add: eng_inv_def index_sound_def)

lemma inv_domain: "eng_inv e \<Longrightarrow> domain_owner e d = Some n \<Longrightarrow> \<exists>t. tun e n = Some t \<and> d \<in> set (tl_Domains t)"
  by (simp add: eng_inv_def index_sound_def)

lemma inv_name: "eng_inv e \<Longrightarrow> tun e n = Some t \<Longrightarrow> tl_Name t = n"
  by (simp add: eng_inv_def eng_wf_def)

lemma excl_port: "eng_excl e \<Longrightarrow> tun e n = Some t \<Longrightarrow> tl_PublicPort t \<noteq> 0 \<Longrightarrow> port_owner e (tl_PublicPort t) = Some n"
  by (simp add: eng_excl_def exclusive_def)

lemma excl_domain: "eng_excl e \<Longrightarrow> tun e n = Some t \<Longrightarrow> d \<in> set (tl_Domains t) \<Longrightarrow> domain_owner e d = Some n"
  by (simp add: eng_excl_def exclusive_def)

lemma excl_name: "eng_excl e \<Longrightarrow> tun e n = Some t \<Longrightarrow> n \<noteq> []"
  by (simp add: eng_excl_def exclusive_def)

lemma map_ok_fold_del_str [simp, intro]:
  "map_ok m \<Longrightarrow> map_ok (fold (\<lambda>k m. if get_str m k = v then AList.delete k m else m) ks m)"
  by (induction ks arbitrary: m) auto

lemma get_fold_del_str [index_simps]:
  "map_of (fold (\<lambda>k m. if get_str m k = v then AList.delete k m else m) ks m) j =
     (if j \<in> set ks \<and> map_of m j = Some v then None else map_of m j)"
  by (induction ks arbitrary: m) (auto simp: get_str_def split: option.splits)

lemma unindex_simps [simp]:
  "eng_tunnels (unindex r e) = eng_tunnels e" "eng_agents (unindex r e) = eng_agents e"
  "eng_relays (unindex r e) = eng_relays e" "eng_sink (unindex r e) = eng_sink e"
  by (simp_all add: unindex_def)

lemma unindex_port:
  "port_owner (unindex r e) p =
     (if p = tl_PublicPort r \<and> p \<noteq> 0 \<and> port_owner e p = Some (tl_Name r) then None else port_owner e p)"
  by (auto simp: unindex_def get_str_def split: option.splits)

lemma unindex_domain:
  "domain_owner (unindex r e) d =
     (if d \<in> set (tl_Domains r) \<and> domain_owner e d = Some (tl_Name r) then None else domain_owner e d)"
  by (simp add: unindex_def index_simps)

lemma unindex_map_ok:
  "map_ok (eng_byPort e) \<Longrightarrow> map_ok (eng_byPort (unindex r e))"
  "map_ok (eng_byDomain e) \<Longrightarrow> map_ok (eng_byDomain (unindex r e))"
  by (auto simp: unindex_def)

lemma emit_simps [simp]:
  "eng_tunnels (emit c e) = eng_tunnels e" "eng_byPort (emit c e) = eng_byPort e"
  "eng_byDomain (emit c e) = eng_byDomain e" "eng_agents (emit c e) = eng_agents e"
  "eng_relays (emit c e) = eng_relays e" "eng_sink (emit c e) = eng_sink e @ [c]"
  by (simp_all add: emit_def)

lemma setTunnel_tun [simp]: "tun (setTunnel rec e) = (tun e)(tl_Name rec \<mapsto> rec)"
  by (auto simp: setTunnel_def Let_def split: option.split)

lemma setTunnel_other [simp]:
  "eng_agents (setTunnel rec e) = eng_agents e" "eng_relays (setTunnel rec e) = eng_relays e"
  by (auto simp: setTunnel_def Let_def split: option.split)

lemma setTunnel_sink:
  "eng_sink (setTunnel rec e) = eng_sink e @ [TunnelChanged rec (changeOf (tun e (tl_Name rec)) rec)]"
  by (auto simp: setTunnel_def Let_def split: option.split)

lemma setTunnel_port:
  assumes "eng_inv e"
  shows "port_owner (setTunnel rec e) p =
    (if p = tl_PublicPort rec \<and> p \<noteq> 0 then Some (tl_Name rec)
     else if port_owner e p = Some (tl_Name rec) then None else port_owner e p)"
proof (cases "tun e (tl_Name rec)")
  case None
  then show ?thesis
    using inv_port [OF assms, of p "tl_Name rec"]
    by (auto simp: setTunnel_def Let_def index_simps)
next
  case (Some t)
  then show ?thesis
    using inv_port [OF assms, of p "tl_Name rec"] inv_name [OF assms Some]
    by (auto simp: setTunnel_def Let_def unindex_port index_simps)
qed

lemma setTunnel_domain:
  assumes "eng_inv e"
  shows "domain_owner (setTunnel rec e) d =
    (if d \<in> set (tl_Domains rec) then Some (tl_Name rec)
     else if domain_owner e d = Some (tl_Name rec) then None else domain_owner e d)"
proof (cases "tun e (tl_Name rec)")
  case None
  then show ?thesis
    using inv_domain [OF assms, of d "tl_Name rec"]
    by (auto simp: setTunnel_def Let_def index_simps)
next
  case (Some t)
  then show ?thesis
    using inv_domain [OF assms, of d "tl_Name rec"] inv_name [OF assms Some]
    by (auto simp: setTunnel_def Let_def unindex_domain index_simps)
qed

lemma deleteTunnel_tun [simp]: "tun (deleteTunnel n e) = (tun e)(n := None)"
  by (auto simp: deleteTunnel_def Let_def split: option.split)

lemma deleteTunnel_other [simp]:
  "eng_agents (deleteTunnel n e) = eng_agents e" "eng_relays (deleteTunnel n e) = eng_relays e"
  by (auto simp: deleteTunnel_def Let_def split: option.split)

lemma deleteTunnel_port:
  assumes "eng_inv e"
  shows "port_owner (deleteTunnel n e) p = (if port_owner e p = Some n then None else port_owner e p)"
proof (cases "tun e (n)")
  case None
  then show ?thesis
    using inv_port [OF assms, of p "n"]
    by (auto simp: deleteTunnel_def Let_def index_simps)
next
  case (Some t)
  then show ?thesis
    using inv_port [OF assms, of p "n"] inv_name [OF assms Some]
    by (auto simp: deleteTunnel_def Let_def unindex_port index_simps)
qed

lemma deleteTunnel_domain:
  assumes "eng_inv e"
  shows "domain_owner (deleteTunnel n e) d = (if domain_owner e d = Some n then None else domain_owner e d)"
proof (cases "tun e (n)")
  case None
  then show ?thesis
    using inv_domain [OF assms, of d "n"]
    by (auto simp: deleteTunnel_def Let_def index_simps)
next
  case (Some t)
  then show ?thesis
    using inv_domain [OF assms, of d "n"] inv_name [OF assms Some]
    by (auto simp: deleteTunnel_def Let_def unindex_domain index_simps)
qed

section \<open>Storing and deleting one tunnel\<close>

lemma eng_inv_agents_relays:
  "eng_inv e \<Longrightarrow> eng_tunnels e' = eng_tunnels e \<Longrightarrow> eng_byPort e' = eng_byPort e \<Longrightarrow>
   eng_byDomain e' = eng_byDomain e \<Longrightarrow>
   map_ok (eng_agents e') \<Longrightarrow> map_ok (eng_relays e') \<Longrightarrow>
   \<forall>i a. map_of (eng_agents e') i = Some a \<longrightarrow> ag_AgentId a = i \<Longrightarrow>
   \<forall>i r. map_of (eng_relays e') i = Some r \<longrightarrow> rl_RelayId r = i \<Longrightarrow> eng_inv e'"
  by (simp add: eng_inv_def eng_wf_def index_sound_def)

lemma setTunnel_wf: "eng_wf e \<Longrightarrow> eng_wf (setTunnel rec e)"
  by (auto simp: eng_wf_def setTunnel_def Let_def unindex_map_ok split: option.split)

lemma setTunnel_inv:
  assumes "eng_inv e"
  shows "eng_inv (setTunnel rec e)"
proof -
  have "index_sound (setTunnel rec e)"
    using assms unfolding index_sound_def setTunnel_port [OF assms] setTunnel_domain [OF assms]
    by (auto simp: eng_inv_def index_sound_def)
  then show ?thesis
    using assms setTunnel_wf by (simp add: eng_inv_def)
qed

lemma setTunnel_excl:
  assumes "eng_excl e" "no_clash rec e"
  shows "eng_excl (setTunnel rec e)"
proof -
  have inv: "eng_inv e" using assms(1) by (simp add: eng_excl_def)
  have "exclusive (setTunnel rec e)"
    unfolding exclusive_def
  proof (intro allI impI)
    fix n t
    assume t: "tun (setTunnel rec e) n = Some t"
    show "n \<noteq> [] \<and> (tl_PublicPort t \<noteq> 0 \<longrightarrow> port_owner (setTunnel rec e) (tl_PublicPort t) = Some n) \<and>
        (\<forall>d\<in>set (tl_Domains t). domain_owner (setTunnel rec e) d = Some n)"
    proof (cases "n = tl_Name rec")
      case True
      then show ?thesis
        using t assms(2) by (simp add: setTunnel_port [OF inv] setTunnel_domain [OF inv] no_clash_def)
    next
      case False
      then have old: "tun e n = Some t" using t by simp
      have "tl_PublicPort t \<noteq> 0 \<longrightarrow> port_owner e (tl_PublicPort t) = Some n"
        using excl_port [OF assms(1) old] by blast
      then show ?thesis
        using excl_name [OF assms(1) old] excl_domain [OF assms(1) old] assms(2) False
        by (auto simp: setTunnel_port [OF inv] setTunnel_domain [OF inv] no_clash_def)
    qed
  qed
  then show ?thesis
    using setTunnel_inv [OF inv] by (simp add: eng_excl_def)
qed

lemma deleteTunnel_wf: "eng_wf e \<Longrightarrow> eng_wf (deleteTunnel n e)"
  by (auto simp: eng_wf_def deleteTunnel_def Let_def unindex_map_ok split: option.split)

lemma deleteTunnel_inv:
  assumes "eng_inv e"
  shows "eng_inv (deleteTunnel n e)"
proof -
  have "index_sound (deleteTunnel n e)"
    using assms unfolding index_sound_def deleteTunnel_port [OF assms] deleteTunnel_domain [OF assms]
    by (auto simp: eng_inv_def index_sound_def)
  then show ?thesis
    using assms deleteTunnel_wf by (simp add: eng_inv_def)
qed

lemma deleteTunnel_excl:
  assumes "eng_excl e"
  shows "eng_excl (deleteTunnel n e)"
proof -
  have inv: "eng_inv e" using assms by (simp add: eng_excl_def)
  have "exclusive (deleteTunnel n e)"
    using assms unfolding exclusive_def deleteTunnel_port [OF inv] deleteTunnel_domain [OF inv]
    by (auto simp: eng_excl_def exclusive_def)
  then show ?thesis
    using deleteTunnel_inv [OF inv] by (simp add: eng_excl_def)
qed

text \<open>Rewriting a tunnel in place (same name, port and domains) clashes with nothing.\<close>

lemma no_clash_same:
  assumes "eng_excl e" "tun e n = Some t"
    "tl_Name rec = tl_Name t" "tl_PublicPort rec = tl_PublicPort t" "tl_Domains rec = tl_Domains t"
  shows "no_clash rec e"
  using assms by (auto simp: eng_excl_def eng_inv_def eng_wf_def exclusive_def no_clash_def)

lemma no_clash_setTunnel:
  assumes "eng_inv e" "no_clash rec e" "disjoint_recs r rec"
  shows "no_clash rec (setTunnel r e)"
  using assms
  by (auto simp: no_clash_def disjoint_recs_def setTunnel_port setTunnel_domain)

lemma fold_setTunnel_excl:
  "eng_excl e \<Longrightarrow> \<forall>r\<in>set recs. no_clash r e \<Longrightarrow> sorted_wrt disjoint_recs recs \<Longrightarrow>
   eng_excl (fold setTunnel recs e)"
proof (induction recs arbitrary: e)
  case (Cons r recs)
  have inv: "eng_inv e" using Cons.prems(1) by (simp add: eng_excl_def)
  have "eng_excl (setTunnel r e)"
    using Cons.prems by (intro setTunnel_excl) auto
  moreover have "\<forall>s\<in>set recs. no_clash s (setTunnel r e)"
    using Cons.prems inv by (auto intro: no_clash_setTunnel)
  ultimately show ?case
    using Cons by simp
qed simp

lemma fold_setTunnel_inv: "eng_inv e \<Longrightarrow> eng_inv (fold setTunnel recs e)"
  by (rule fold_invariant_list) (auto intro: setTunnel_inv)

lemma fold_setTunnel_tun:
  "distinct (map tl_Name recs) \<Longrightarrow>
   tun (fold setTunnel recs e) n =
     (case find (\<lambda>r. tl_Name r = n) recs of Some r \<Rightarrow> Some r | None \<Rightarrow> tun e n)"
proof (induction recs arbitrary: e)
  case (Cons r recs)
  have "tl_Name r = n \<Longrightarrow> find (\<lambda>r. tl_Name r = n) recs = None"
    using Cons.prems by (auto simp: find_None_iff_all) (metis image_eqI)
  then show ?case
    using Cons by (auto split: option.split)
qed simp

lemma fold_emit_simps [simp]:
  "eng_tunnels (fold (\<lambda>x. emit (f x)) xs e) = eng_tunnels e"
  "eng_byPort (fold (\<lambda>x. emit (f x)) xs e) = eng_byPort e"
  "eng_byDomain (fold (\<lambda>x. emit (f x)) xs e) = eng_byDomain e"
  "eng_agents (fold (\<lambda>x. emit (f x)) xs e) = eng_agents e"
  "eng_relays (fold (\<lambda>x. emit (f x)) xs e) = eng_relays e"
  "eng_sink (fold (\<lambda>x. emit (f x)) xs e) = eng_sink e @ map f xs"
  by (induction xs arbitrary: e) simp_all

lemma emit_inv [simp]: "eng_inv (emit c e) = eng_inv e"
  by (simp add: eng_inv_def eng_wf_def index_sound_def)

lemma emit_excl [simp]: "eng_excl (emit c e) = eng_excl e"
  by (simp add: eng_excl_def exclusive_def)

lemma fold_emit_excl [simp]: "eng_excl (fold (\<lambda>x. emit (f x)) xs e) = eng_excl e"
  by (induction xs arbitrary: e) simp_all

lemma fold_emit_inv [simp]: "eng_inv (fold (\<lambda>x. emit (f x)) xs e) = eng_inv e"
  by (induction xs arbitrary: e) simp_all

section \<open>Agents and relays\<close>

lemma setAgent_simps [simp]:
  "eng_tunnels (setAgent a e) = eng_tunnels e" "eng_byPort (setAgent a e) = eng_byPort e"
  "eng_byDomain (setAgent a e) = eng_byDomain e" "eng_relays (setAgent a e) = eng_relays e"
  "map_of (eng_agents (setAgent a e)) = (map_of (eng_agents e))(ag_AgentId a \<mapsto> a)"
  by (simp_all add: setAgent_def Let_def)

lemma setRelay_simps [simp]:
  "eng_tunnels (setRelay r e) = eng_tunnels e" "eng_byPort (setRelay r e) = eng_byPort e"
  "eng_byDomain (setRelay r e) = eng_byDomain e" "eng_agents (setRelay r e) = eng_agents e"
  "map_of (eng_relays (setRelay r e)) = (map_of (eng_relays e))(rl_RelayId r \<mapsto> r)"
  by (simp_all add: setRelay_def Let_def)

lemma setAgent_inv [simp, intro]: "eng_inv e \<Longrightarrow> eng_inv (setAgent a e)"
  by (auto simp: eng_inv_def eng_wf_def index_sound_def) (auto simp: setAgent_def Let_def)

lemma setRelay_inv [simp, intro]: "eng_inv e \<Longrightarrow> eng_inv (setRelay r e)"
  by (auto simp: eng_inv_def eng_wf_def index_sound_def) (auto simp: setRelay_def Let_def)

lemma setAgent_excl [simp, intro]: "eng_excl e \<Longrightarrow> eng_excl (setAgent a e)"
  by (auto simp: eng_excl_def exclusive_def)

lemma setRelay_excl [simp, intro]: "eng_excl e \<Longrightarrow> eng_excl (setRelay r e)"
  by (auto simp: eng_excl_def exclusive_def)

end
