(* ===== verification/Claims_Claim.thy ===== *)
theory Claims_Claim
  imports Claims_Index
begin

text \<open>
  \<open>claim.go\<close>: what a claim request does.  The staging loop checks every
  tunnel against the engine and against the tunnels staged before it;
  \<open>stage_inv\<close> is its loop invariant.
\<close>

section \<open>One tunnel's check\<close>

lemma claim_port_Ok:
  assumes "claim_port cfg e req spec holder resv reservations staged = Ok p"
  shows "free_port e reservations staged (tl_Name spec) p \<and>
    (let (lo, hi) = claim_range cfg req in
       lo \<le> p \<and> p \<le> hi \<or> int32 (PortMin (cfg_Rules cfg)) \<le> p \<and> p \<le> int32 (PortMax (cfg_Rules cfg)))"
  using assms unfolding claim_port_def
  by (auto simp: Let_def split: prod.splits if_splits option.splits dest!: find_Some_iff_mem)

lemma claimed_rec_simps [simp]:
  "tl_Name (claimed_rec now req spec) = tl_Name spec"
  "tl_Domains (claimed_rec now req spec) = tl_Domains spec"
  "tl_PublicPort (claimed_rec now req spec) = 0"
  "tl_RelayId (claimed_rec now req spec) = rq_RelayId req"
  "tl_AgentId (claimed_rec now req spec) = rq_AgentId req"
  "tl_TokenId (claimed_rec now req spec) = rq_TokenId req"
  "tl_SessionId (claimed_rec now req spec) = rq_SessionId req"
  "tl_State (claimed_rec now req spec) = TUN_LIVE_STATE_ACTIVE"
  by (simp_all add: claimed_rec_def)

lemma claim_check_OkE:
  assumes "claim_check cfg dir now e req spec st = Ok rec"
  obtains p d where
    "rec = (claimed_rec now req spec)\<lparr>tl_PublicPort := p\<rparr>"
    "CheckName (cfg_Rules cfg) (tl_Name spec) = Ok ()"
    "\<not> dir_IsSiteName dir (tl_Name spec @ ''.'' @ BaseDomain (cfg_Rules cfg))"
    "\<And>r. reservation_of (dir_Reservations dir) (tl_Name spec) = Some r \<Longrightarrow> rs_TokenId r = rq_TokenId req"
    "Decide (holder_of e (tl_Name spec) (rq_SessionId req)) (rq_TokenId req) (rq_AgentId req)
       (active e (rq_TokenId req) (tl_Name spec) (st_recs st)) (rq_MaxTunnels req) = Ok d"
    "\<forall>dm\<in>set (tl_Domains spec). \<not> domain_taken e (st_domains st) (tl_Name spec) dm"
    "p = 0 \<and> \<not> (hasPort (tl_Type spec) \<and> \<not> tl_AccessToken spec) \<or>
     hasPort (tl_Type spec) \<and> \<not> tl_AccessToken spec \<and>
       claim_port cfg e req spec (tun e (tl_Name spec)) (reservation_of (dir_Reservations dir) (tl_Name spec))
         (dir_Reservations dir) (st_ports st) = Ok p"
proof -
  have id0: "(claimed_rec now req spec)\<lparr>tl_PublicPort := 0\<rparr> = claimed_rec now req spec"
    by (simp add: claimed_rec_def)
  show thesis
    using assms unfolding claim_check_def Let_def
    by (auto simp: list_ex_iff split: sum.splits if_splits option.splits
        intro: that [of 0, unfolded id0] that)
qed

section \<open>The staging loop\<close>

abbreviation staged_recs :: "Staging \<Rightarrow> TunLiveTunnel list" where
  "staged_recs st \<equiv> map snd (st_recs st)"

definition stage_inv :: "Engine \<Rightarrow> Staging \<Rightarrow> bool" where
  "stage_inv e st \<longleftrightarrow>
     map fst (st_recs st) = map tl_Name (staged_recs st) \<and>
     sorted_wrt disjoint_recs (staged_recs st) \<and>
     (\<forall>r\<in>set (staged_recs st). no_clash r e \<and>
        (tl_PublicPort r \<noteq> 0 \<longrightarrow> map_of (st_ports st) (tl_PublicPort r) = Some (tl_Name r)) \<and>
        (\<forall>d\<in>set (tl_Domains r). map_of (st_domains st) d = Some (tl_Name r)))"

lemma disjoint_recs_distinct: "sorted_wrt disjoint_recs rs \<Longrightarrow> distinct (map tl_Name rs)"
  by (induction rs) (auto simp: disjoint_recs_def)

lemma stage_inv_distinct: "stage_inv e st \<Longrightarrow> distinct (map fst (st_recs st))"
  using disjoint_recs_distinct [of "staged_recs st"] by (simp only: stage_inv_def)

lemma stage_inv_empty: "stage_inv e emptyStaging"
  by (simp add: stage_inv_def emptyStaging_def)

lemma update_fresh: "map_of m k = None \<Longrightarrow> AList.update k v m = m @ [(k, v)]"
  by (induction m) auto

lemma staged_in_map:
  assumes "stage_inv e st" "r \<in> set (staged_recs st)"
  shows "map_of (st_recs st) (tl_Name r) = None \<Longrightarrow> False"
proof -
  assume "map_of (st_recs st) (tl_Name r) = None"
  then have "tl_Name r \<notin> set (map fst (st_recs st))"
    by (simp add: map_of_eq_None_iff)
  moreover have "set (map fst (st_recs st)) = tl_Name ` set (staged_recs st)"
    using assms(1) by (simp only: stage_inv_def set_map)
  ultimately show False
    using assms(2) by blast
qed

lemma excl_owner_empty: "eng_excl e \<Longrightarrow> get_str (eng_byPort e) p = [] \<longleftrightarrow> port_owner e p = None"
  by (auto simp: get_str_def eng_excl_def split: option.splits dest: inv_port)
    (metis eng_excl_def excl_name inv_port)

lemma excl_domain_empty: "eng_excl e \<Longrightarrow> get_str (eng_byDomain e) d = [] \<longleftrightarrow> domain_owner e d = None"
  by (auto simp: get_str_def eng_excl_def split: option.splits dest: inv_domain)
    (metis eng_excl_def excl_name inv_domain)

lemma claim_check_no_clash:
  assumes "eng_excl e" "claim_check cfg dir now e req spec st = Ok rec"
  shows "no_clash rec e"
proof -
  obtain p where rec: "rec = (claimed_rec now req spec)\<lparr>tl_PublicPort := p\<rparr>"
    and name: "CheckName (cfg_Rules cfg) (tl_Name spec) = Ok ()"
    and dom: "\<forall>dm\<in>set (tl_Domains spec). \<not> domain_taken e (st_domains st) (tl_Name spec) dm"
    and port: "p = 0 \<or> free_port e (dir_Reservations dir) (st_ports st) (tl_Name spec) p"
    using assms(2) by (elim claim_check_OkE) (auto dest: claim_port_Ok)
  show ?thesis
    unfolding no_clash_def
  proof (intro conjI impI ballI)
    show "tl_Name rec \<noteq> []"
      using rec CheckName_not_Nil [OF name] by simp
  next
    assume "tl_PublicPort rec \<noteq> 0"
    then have "free_port e (dir_Reservations dir) (st_ports st) (tl_Name spec) p"
      using port rec by simp
    then have "get_str (eng_byPort e) p = [] \<or> get_str (eng_byPort e) p = tl_Name spec"
      by (simp add: free_port_def Let_def)
    then show "port_owner e (tl_PublicPort rec) \<in> {None, Some (tl_Name rec)}"
      using rec CheckName_not_Nil [OF name] excl_owner_empty [OF assms(1)]
      by (auto simp: get_str_eq_nonempty)
  next
    fix d
    assume "d \<in> set (tl_Domains rec)"
    then have "get_str (eng_byDomain e) d = [] \<or> get_str (eng_byDomain e) d = tl_Name spec"
      using dom rec by (auto simp: domain_taken_def Let_def)
    then show "domain_owner e d \<in> {None, Some (tl_Name rec)}"
      using rec CheckName_not_Nil [OF name] excl_domain_empty [OF assms(1)]
      by (auto simp: get_str_eq_nonempty)
  qed
qed

lemma claim_check_disjoint:
  assumes "stage_inv e st" "claim_check cfg dir now e req spec st = Ok rec"
    "map_of (st_recs st) (tl_Name spec) = None" "r \<in> set (staged_recs st)"
  shows "disjoint_recs r rec"
proof -
  obtain p where rec: "rec = (claimed_rec now req spec)\<lparr>tl_PublicPort := p\<rparr>"
    and dom: "\<forall>dm\<in>set (tl_Domains spec). \<not> domain_taken e (st_domains st) (tl_Name spec) dm"
    and port: "p = 0 \<or> free_port e (dir_Reservations dir) (st_ports st) (tl_Name spec) p"
    using assms(2) by (elim claim_check_OkE) (auto dest: claim_port_Ok)
  have r: "no_clash r e" "tl_PublicPort r \<noteq> 0 \<longrightarrow> map_of (st_ports st) (tl_PublicPort r) = Some (tl_Name r)"
    "\<forall>d\<in>set (tl_Domains r). map_of (st_domains st) d = Some (tl_Name r)"
    using assms(1,4) by (auto simp: stage_inv_def)
  have "tl_Name r \<noteq> tl_Name rec"
    using staged_in_map [OF assms(1,4)] assms(3) rec by auto
  moreover have "tl_PublicPort r \<noteq> 0 \<Longrightarrow> tl_PublicPort r \<noteq> tl_PublicPort rec"
    using port rec r by (auto simp: free_port_def Let_def get_str_def no_clash_def)
  moreover have "set (tl_Domains r) \<inter> set (tl_Domains rec) = {}"
    using dom rec r by (auto simp: domain_taken_def Let_def get_str_def no_clash_def)
  ultimately show ?thesis
    by (simp add: disjoint_recs_def)
qed

lemma stage_rec_inv:
  assumes "eng_excl e" "stage_inv e st" "claim_check cfg dir now e req spec st = Ok rec"
    "map_of (st_recs st) (tl_Name spec) = None"
  shows "stage_inv e (stage_rec e req rec st)"
    and "st_recs (stage_rec e req rec st) = st_recs st @ [(tl_Name spec, rec)]"
proof -
  have name: "tl_Name rec = tl_Name spec"
    using assms(3) by (elim claim_check_OkE) simp
  show recs: "st_recs (stage_rec e req rec st) = st_recs st @ [(tl_Name spec, rec)]"
    using assms(4) name by (simp add: stage_rec_def update_fresh)
  have disj: "\<And>r. r \<in> set (staged_recs st) \<Longrightarrow> disjoint_recs r rec"
    using claim_check_disjoint [OF assms(2,3,4)] .
  show "stage_inv e (stage_rec e req rec st)"
    unfolding stage_inv_def recs
  proof (intro conjI ballI impI)
    show "map fst (st_recs st @ [(tl_Name spec, rec)]) = map tl_Name (map snd (st_recs st @ [(tl_Name spec, rec)]))"
      using assms(2) name by (simp add: stage_inv_def)
    show "sorted_wrt disjoint_recs (map snd (st_recs st @ [(tl_Name spec, rec)]))"
      using assms(2) disj by (simp add: stage_inv_def sorted_wrt_append)
  next
    fix r
    assume r: "r \<in> set (map snd (st_recs st @ [(tl_Name spec, rec)]))"
    then consider "r \<in> set (staged_recs st)" | "r = rec" by auto
    then show "no_clash r e"
      using assms(2) claim_check_no_clash [OF assms(1,3)] by cases (auto simp: stage_inv_def)
    show "map_of (st_ports (stage_rec e req rec st)) (tl_PublicPort r) = Some (tl_Name r)"
      if "tl_PublicPort r \<noteq> 0"
      using r that disj assms(2)
      by (auto simp: stage_rec_def stage_inv_def disjoint_recs_def)
    show "map_of (st_domains (stage_rec e req rec st)) d = Some (tl_Name r)"
      if "d \<in> set (tl_Domains r)" for d
      using r that disj assms(2)
      by (auto simp: stage_rec_def stage_inv_def disjoint_recs_def index_simps)
  qed
qed

text \<open>What the whole loop delivers: one record per requested tunnel, in order,
  each of them admitted by the rules.\<close>

definition port_admitted :: "EngineConfig \<Rightarrow> Directory \<Rightarrow> TunClaimRequest \<Rightarrow> TunLiveTunnel \<Rightarrow> int \<Rightarrow> bool" where
  "port_admitted cfg dir req spec p \<longleftrightarrow>
     (if hasPort (tl_Type spec) \<and> \<not> tl_AccessToken spec
      then \<not> reservedByOther (dir_Reservations dir) (tl_Name spec) p \<and>
        (let (lo, hi) = claim_range cfg req in
           lo \<le> p \<and> p \<le> hi \<or> int32 (PortMin (cfg_Rules cfg)) \<le> p \<and> p \<le> int32 (PortMax (cfg_Rules cfg)))
      else p = 0)"

definition admitted ::
  "EngineConfig \<Rightarrow> Directory \<Rightarrow> int \<Rightarrow> TunClaimRequest \<Rightarrow> Engine \<Rightarrow> TunLiveTunnel \<Rightarrow> TunLiveTunnel \<Rightarrow> bool" where
  "admitted cfg dir now req e spec rec \<longleftrightarrow>
     rec = (claimed_rec now req spec)\<lparr>tl_PublicPort := tl_PublicPort rec\<rparr> \<and>
     CheckName (cfg_Rules cfg) (tl_Name spec) = Ok () \<and>
     \<not> dir_IsSiteName dir (tl_Name spec @ ''.'' @ BaseDomain (cfg_Rules cfg)) \<and>
     (case reservation_of (dir_Reservations dir) (tl_Name spec) of
        Some r \<Rightarrow> rs_TokenId r = rq_TokenId req | None \<Rightarrow> True) \<and>
     (case tun e (tl_Name spec) of
        Some t \<Rightarrow> tl_TokenId t = rq_TokenId req \<and>
          (is_active t \<longrightarrow> tl_AgentId t = rq_AgentId req \<and> tl_SessionId t \<noteq> rq_SessionId req)
      | None \<Rightarrow> True) \<and>
     port_admitted cfg dir req spec (tl_PublicPort rec)"

lemma claim_check_admitted:
  assumes "claim_check cfg dir now e req spec st = Ok rec"
  shows "admitted cfg dir now req e spec rec"
proof -
  obtain p d where c: "rec = (claimed_rec now req spec)\<lparr>tl_PublicPort := p\<rparr>"
    "CheckName (cfg_Rules cfg) (tl_Name spec) = Ok ()"
    "\<not> dir_IsSiteName dir (tl_Name spec @ ''.'' @ BaseDomain (cfg_Rules cfg))"
    "\<And>r. reservation_of (dir_Reservations dir) (tl_Name spec) = Some r \<Longrightarrow> rs_TokenId r = rq_TokenId req"
    and dec: "Decide (holder_of e (tl_Name spec) (rq_SessionId req)) (rq_TokenId req) (rq_AgentId req)
       (active e (rq_TokenId req) (tl_Name spec) (st_recs st)) (rq_MaxTunnels req) = Ok d"
    and port: "p = 0 \<and> \<not> (hasPort (tl_Type spec) \<and> \<not> tl_AccessToken spec) \<or>
     hasPort (tl_Type spec) \<and> \<not> tl_AccessToken spec \<and>
       claim_port cfg e req spec (tun e (tl_Name spec)) (reservation_of (dir_Reservations dir) (tl_Name spec))
         (dir_Reservations dir) (st_ports st) = Ok p"
    using assms by (rule claim_check_OkE) blast
  have "port_admitted cfg dir req spec p"
    using port
  proof
    assume a: "hasPort (tl_Type spec) \<and> \<not> tl_AccessToken spec \<and>
       claim_port cfg e req spec (tun e (tl_Name spec)) (reservation_of (dir_Reservations dir) (tl_Name spec))
         (dir_Reservations dir) (st_ports st) = Ok p"
    then show ?thesis
      using claim_port_Ok [OF a [THEN conjunct2, THEN conjunct2]] unfolding port_admitted_def
      by (simp add: free_port_def Let_def)
  qed (auto simp: port_admitted_def)
  moreover have "case tun e (tl_Name spec) of
        Some t \<Rightarrow> tl_TokenId t = rq_TokenId req \<and>
          (is_active t \<longrightarrow> tl_AgentId t = rq_AgentId req \<and> tl_SessionId t \<noteq> rq_SessionId req)
      | None \<Rightarrow> True"
    using Decide_Ok [OF dec] by (auto simp: holder_of_def split: option.splits if_splits)
  ultimately show ?thesis
    using c by (auto simp: admitted_def split: option.split)
qed

lemma admitted_simps:
  assumes "admitted cfg dir now req e spec rec"
  shows "tl_Name rec = tl_Name spec" "tl_TokenId rec = rq_TokenId req" "tl_AgentId rec = rq_AgentId req"
    "tl_RelayId rec = rq_RelayId req" "tl_SessionId rec = rq_SessionId req" "is_active rec"
proof -
  obtain p where "rec = (claimed_rec now req spec)\<lparr>tl_PublicPort := p\<rparr>"
    using assms unfolding admitted_def by blast
  then show "tl_Name rec = tl_Name spec" "tl_TokenId rec = rq_TokenId req" "tl_AgentId rec = rq_AgentId req"
    "tl_RelayId rec = rq_RelayId req" "tl_SessionId rec = rq_SessionId req" "is_active rec"
    by (simp_all add: is_active_def)
qed

lemma claim_stage_Ok:
  assumes "eng_excl e" "stage_inv e st" "claim_stage cfg dir now e req specs st = Ok st'"
  shows "stage_inv e st' \<and> (\<exists>rs. staged_recs st' = staged_recs st @ rs \<and> list_all2 (admitted cfg dir now req e) specs rs)"
  using assms(2,3)
proof (induction specs arbitrary: st)
  case (Cons spec specs)
  then obtain rec where fresh: "map_of (st_recs st) (tl_Name spec) = None"
    and chk: "claim_check cfg dir now e req spec st = Ok rec"
    and rest: "claim_stage cfg dir now e req specs (stage_rec e req rec st) = Ok st'"
    by (auto split: if_splits sum.splits)
  note inv = stage_rec_inv [OF assms(1) Cons.prems(1) chk fresh]
  have "admitted cfg dir now req e spec rec"
    using chk by (rule claim_check_admitted)
  then show ?case
    using Cons.IH [OF inv(1) rest] inv(2) by auto
qed simp

lemma list_all2_names:
  "list_all2 (admitted cfg dir now req e) specs rs \<Longrightarrow> map tl_Name rs = map tl_Name specs"
  by (induction rule: list_all2_induct) (simp_all add: admitted_simps(1))

section \<open>The claim\<close>

lemma claim_refused:
  assumes "claim cfg dir now req e = (resp, e')" "rp_Error resp \<noteq> TUN_CLAIM_ERROR_UNSPECIFIED"
  shows "e' = e \<and> rp_Tunnels resp = []"
  using assms
  by (auto simp: claim_def refuse_def emptyResponse_def Let_def split: if_splits sum.splits)

lemma claim_stage_code:
  "claim_stage cfg dir now e req specs st = Err code \<Longrightarrow> code \<noteq> TUN_CLAIM_ERROR_UNSPECIFIED"
proof (induction specs arbitrary: st)
  case (Cons spec specs)
  have port: "claim_port cfg e req spec h rv rvs sp = Err c \<Longrightarrow> c \<noteq> TUN_CLAIM_ERROR_UNSPECIFIED" for h rv rvs sp c
    by (auto simp: claim_port_def Let_def split: if_splits prod.splits option.splits)
  have "claim_check cfg dir now e req spec st = Err c \<Longrightarrow> c \<noteq> TUN_CLAIM_ERROR_UNSPECIFIED" for c
    unfolding claim_check_def Let_def by (auto split: if_splits sum.splits option.splits dest: port)
  then show ?case
    using Cons by (auto split: if_splits sum.splits)
qed simp

definition claim_done ::
  "EngineConfig \<Rightarrow> Directory \<Rightarrow> int \<Rightarrow> TunClaimRequest \<Rightarrow> Engine \<Rightarrow> TunClaimResponse \<Rightarrow> Engine \<Rightarrow>
   Staging \<Rightarrow> TunLiveTunnel list \<Rightarrow> bool" where
  "claim_done cfg dir now req e resp e' st rs \<longleftrightarrow>
    claim_stage cfg dir now e req (rq_Tunnels req) emptyStaging = Ok st \<and>
    stage_inv e st \<and> staged_recs st = rs \<and> list_all2 (admitted cfg dir now req e) (rq_Tunnels req) rs \<and>
    rq_Tunnels req \<noteq> [] \<and> rp_Tunnels resp = rs \<and> distinct (map tl_Name rs) \<and>
    e' = fold (\<lambda>old. emit (SinkCommand (takeover_command old))) (st_takeovers st) (fold setTunnel rs e)"

lemma claim_ok_done:
  assumes "eng_excl e" "claim cfg dir now req e = (resp, e')" "rp_Error resp = TUN_CLAIM_ERROR_UNSPECIFIED"
  shows "\<exists>st rs. claim_done cfg dir now req e resp e' st rs"
proof -
  obtain st where st: "claim_stage cfg dir now e req (rq_Tunnels req) emptyStaging = Ok st"
    and ne: "rq_Tunnels req \<noteq> []"
    using assms(2,3) claim_stage_code
    by (auto simp: claim_def refuse_def split: if_splits sum.splits)
  obtain rs where inv: "stage_inv e st" and rs: "staged_recs st = rs"
    and all2: "list_all2 (admitted cfg dir now req e) (rq_Tunnels req) rs"
    using claim_stage_Ok [OF assms(1) stage_inv_empty st] by (auto simp: emptyStaging_def)
  have recs: "st_recs st = map (\<lambda>r. (tl_Name r, r)) rs"
    using inv rs keyed_by [of "st_recs st" tl_Name] by (simp add: stage_inv_def)
  have dist: "distinct (map tl_Name rs)"
    using stage_inv_distinct [OF inv] inv rs by (simp add: stage_inv_def)
  have "map (\<lambda>spec. the (map_of (st_recs st) (tl_Name spec))) (rq_Tunnels req) =
      map (\<lambda>n. the (map_of (st_recs st) n)) (map tl_Name rs)"
    using list_all2_names [OF all2] by simp
  also have "\<dots> = rs"
    unfolding recs using dist by (rule map_of_keyed_all)
  finally have "map (\<lambda>spec. the (map_of (st_recs st) (tl_Name spec))) (rq_Tunnels req) = rs" .
  then have "rp_Tunnels resp = rs"
    "e' = fold (\<lambda>old. emit (SinkCommand (takeover_command old))) (st_takeovers st) (fold setTunnel rs e)"
    using assms(2,3) st ne
    by (auto simp: claim_def refuse_def Let_def emptyResponse_def split: if_splits)
  then have "claim_done cfg dir now req e resp e' st rs"
    unfolding claim_done_def using st inv rs all2 ne dist by (intro conjI)
  then show ?thesis by (intro exI)
qed

lemma claim_tun:
  assumes "eng_excl e" "claim cfg dir now req e = (resp, e')" "rp_Error resp = TUN_CLAIM_ERROR_UNSPECIFIED"
  shows "tun e' n = (case find (\<lambda>r. tl_Name r = n) (rp_Tunnels resp) of Some r \<Rightarrow> Some r | None \<Rightarrow> tun e n)"
proof -
  obtain st rs where "claim_done cfg dir now req e resp e' st rs"
    using claim_ok_done [OF assms] by blast
  then have "rp_Tunnels resp = rs" "distinct (map tl_Name rs)"
    "eng_tunnels e' = eng_tunnels (fold setTunnel rs e)"
    by (simp_all add: claim_done_def)
  then show ?thesis
    by (simp add: fold_setTunnel_tun)
qed

lemma claim_excl:
  assumes "eng_excl e"
  shows "eng_excl (snd (claim cfg dir now req e))"
proof -
  obtain resp e' where c: "claim cfg dir now req e = (resp, e')"
    by (cases "claim cfg dir now req e")
  show ?thesis
  proof (cases "rp_Error resp = TUN_CLAIM_ERROR_UNSPECIFIED")
    case True
    obtain st rs where st: "claim_done cfg dir now req e resp e' st rs"
      using claim_ok_done [OF assms c True] by blast
    then have "eng_excl (fold setTunnel rs e)"
      using assms by (intro fold_setTunnel_excl) (auto simp: claim_done_def stage_inv_def)
    then show ?thesis
      using c st by (simp add: claim_done_def)
  next
    case False
    then show ?thesis using claim_refused [OF c] assms c by simp
  qed
qed

section \<open>The token's cap\<close>

definition token_active :: "Engine \<Rightarrow> string \<Rightarrow> nat" where
  "token_active e tok = length (filter (\<lambda>(_, t). tl_TokenId t = tok \<and> is_active t) (eng_tunnels e))"

definition active_names :: "Engine \<Rightarrow> string \<Rightarrow> string set" where
  "active_names e tok = {n. \<exists>t. tun e n = Some t \<and> tl_TokenId t = tok \<and> is_active t}"

lemma token_active_card: "eng_inv e \<Longrightarrow> token_active e tok = card (active_names e tok)"
  by (simp add: token_active_def active_names_def length_filter_map eng_inv_def eng_wf_def)

lemma finite_active_names [simp]: "finite (active_names e tok)"
  unfolding active_names_def by (rule finite_map_of)

lemma active_card:
  assumes "eng_inv e" "map_ok staged"
  shows "active e tok name staged =
    int (card (active_names e tok - {name} - set (map fst staged))) + int (length staged)"
proof -
  have "{k. \<exists>v. tun e k = Some v \<and> tl_TokenId v = tok \<and> tl_Name v \<noteq> name \<and> is_active v \<and>
      map_of staged (tl_Name v) = None} = active_names e tok - {name} - set (map fst staged)"
    using inv_name [OF assms(1)] unfolding active_names_def map_of_eq_None_iff by auto
  then show ?thesis
    using assms unfolding active_def
    by (subst length_filter_map) (auto simp: eng_inv_def eng_wf_def)
qed

definition within_cap :: "Engine \<Rightarrow> TunClaimRequest \<Rightarrow> Staging \<Rightarrow> bool" where
  "within_cap e req st \<longleftrightarrow>
     int (card (active_names e (rq_TokenId req) - set (map fst (st_recs st)))) + int (length (st_recs st))
       \<le> rq_MaxTunnels req"

lemma claim_stage_cap:
  assumes "eng_excl e" "stage_inv e st" "claim_stage cfg dir now e req specs st = Ok st'"
    "0 < rq_MaxTunnels req"
  shows "specs = [] \<and> st' = st \<or> within_cap e req st'"
  using assms(2,3)
proof (induction specs arbitrary: st)
  case (Cons spec specs)
  then obtain rec where fresh: "map_of (st_recs st) (tl_Name spec) = None"
    and chk: "claim_check cfg dir now e req spec st = Ok rec"
    and rest: "claim_stage cfg dir now e req specs (stage_rec e req rec st) = Ok st'"
    by (auto split: if_splits sum.splits)
  note inv = stage_rec_inv [OF assms(1) Cons.prems(1) chk fresh]
  have "map_ok (st_recs st)"
    using stage_inv_distinct [OF Cons.prems(1)] by (simp add: map_ok_def)
  moreover have "active e (rq_TokenId req) (tl_Name spec) (st_recs st) < rq_MaxTunnels req"
    using chk assms(4) by (elim claim_check_OkE) (auto dest: Decide_Ok)
  moreover have "active_names e (rq_TokenId req) - set (map fst (st_recs st @ [(tl_Name spec, rec)])) =
      active_names e (rq_TokenId req) - {tl_Name spec} - set (map fst (st_recs st))"
    by auto
  ultimately have "within_cap e req (stage_rec e req rec st)"
    using assms(1) unfolding within_cap_def inv(2)
    by (simp add: active_card eng_excl_def)
  then show ?case
    using Cons.IH [OF inv(1) rest] by blast
qed simp

lemma claim_within_cap:
  assumes "eng_excl e" "claim cfg dir now req e = (resp, e')" "rp_Error resp = TUN_CLAIM_ERROR_UNSPECIFIED"
    "0 < rq_MaxTunnels req"
  shows "int (token_active e' (rq_TokenId req)) \<le> rq_MaxTunnels req"
proof -
  obtain st rs where "claim_done cfg dir now req e resp e' st rs"
    using claim_ok_done [OF assms(1-3)] by blast
  then have st: "claim_stage cfg dir now e req (rq_Tunnels req) emptyStaging = Ok st"
    "stage_inv e st" "staged_recs st = rs"
    "rq_Tunnels req \<noteq> []" "rp_Tunnels resp = rs" "distinct (map tl_Name rs)"
    unfolding claim_done_def by blast+
  let ?tok = "rq_TokenId req" and ?names = "set (map tl_Name rs)"
  have cap: "within_cap e req st"
    using claim_stage_cap [OF assms(1) stage_inv_empty st(1) assms(4)] st(4) by simp
  have keys: "map fst (st_recs st) = map tl_Name rs"
    using st(2,3) by (simp add: stage_inv_def)
  have inv': "eng_inv e'"
    using claim_excl [OF assms(1), of cfg dir now req] assms(2) by (simp add: eng_excl_def)
  have "active_names e' ?tok \<subseteq> (active_names e ?tok - ?names) \<union> ?names"
    unfolding active_names_def
    by (auto simp: claim_tun [OF assms(1-3)] st(5) find_None_iff_all split: option.splits)
  then have "card (active_names e' ?tok) \<le> card (active_names e ?tok - ?names) + card ?names"
    by (meson card_Un_le card_mono finite_Diff finite_UnI finite_active_names finite_set le_trans)
  also have "card ?names = length (st_recs st)"
    using st(3,6) by (metis distinct_card length_map)
  finally show ?thesis
    using cap token_active_card [OF inv'] unfolding within_cap_def keys by simp
qed

end
