(* ===== verification/Claims_Life.thy ===== *)
theory Claims_Life
  imports Claims_Claim
begin

text \<open>
  \<open>lifecycle.go\<close> and \<open>sweep.go\<close>: what the engine's other operations keep.
  The locale \<open>engine_inv\<close> is the contract of an engine invariant with the
  primitive updates; the operations' preservation lemmas are proved once
  inside it and used for every invariant that satisfies it.
\<close>

section \<open>The contract\<close>

definition same_claim :: "TunLiveTunnel \<Rightarrow> TunLiveTunnel \<Rightarrow> bool" where
  "same_claim r t \<longleftrightarrow>
     tl_Name r = tl_Name t \<and> tl_PublicPort r = tl_PublicPort t \<and> tl_Domains r = tl_Domains t \<and>
     tl_TokenId r = tl_TokenId t"

definition dropAgent :: "string \<Rightarrow> TunAgent \<Rightarrow> Engine \<Rightarrow> Engine" where
  "dropAgent i a e = emit (AgentChanged a Deleted) (e\<lparr>eng_agents := AList.delete i (eng_agents e)\<rparr>)"

definition dropRelay :: "string \<Rightarrow> TunRelay \<Rightarrow> Engine \<Rightarrow> Engine" where
  "dropRelay i r e = emit (RelayChanged r Deleted) (e\<lparr>eng_relays := AList.delete i (eng_relays e)\<rparr>)"

lemma drop_simps [simp]:
  "eng_tunnels (dropAgent i a e) = eng_tunnels e" "eng_byPort (dropAgent i a e) = eng_byPort e"
  "eng_byDomain (dropAgent i a e) = eng_byDomain e" "eng_relays (dropAgent i a e) = eng_relays e"
  "map_of (eng_agents (dropAgent i a e)) = (map_of (eng_agents e))(i := None)"
  "eng_tunnels (dropRelay i r e) = eng_tunnels e" "eng_byPort (dropRelay i r e) = eng_byPort e"
  "eng_byDomain (dropRelay i r e) = eng_byDomain e" "eng_agents (dropRelay i r e) = eng_agents e"
  "map_of (eng_relays (dropRelay i r e)) = (map_of (eng_relays e))(i := None)"
  by (simp_all add: dropAgent_def dropRelay_def)

lemma sweep_relay_alt:
  "sweep_relay cfg now (rid, r) e =
     (if rl_Simulated r then e
      else if rl_State r \<noteq> TUN_RELAY_STATE_DOWN \<and> rl_LastSeen r < Unix (now - cfg_RelayTimeout cfg)
      then lostRelay cfg now rid r e
      else if rl_State r = TUN_RELAY_STATE_DOWN \<and> rl_LastSeen r < Unix (now - cfg_DownRetention cfg)
      then dropRelay rid r e
      else e)"
  by (simp add: sweep_relay_def dropRelay_def)

lemma sweep_agent_alt:
  "sweep_agent cfg now (aid, a) e =
     (if ag_Simulated a then e
      else if ag_State a = TUN_AGENT_STATE_GRACE \<and> ag_GraceUntil a \<le> Unix now
      then setAgent (a\<lparr>ag_State := TUN_AGENT_STATE_OFFLINE, ag_GraceUntil := 0\<rparr>) e
      else if ag_State a = TUN_AGENT_STATE_OFFLINE \<and> ag_LastSeen a < Unix (now - cfg_OfflineRetention cfg)
      then dropAgent aid a e
      else e)"
  by (simp add: sweep_agent_def dropAgent_def)

lemma same_claim_simps [simp]:
  "same_claim (parked_rec until t) t" "same_claim (graced_rec until t) t"
  "same_claim (t\<lparr>tl_ActiveConns := a, tl_TotalConns := b, tl_BytesIn := c, tl_BytesOut := d\<rparr>) t"
  by (simp_all add: same_claim_def parked_rec_def graced_rec_def)

lemma agent_key: "eng_inv e \<Longrightarrow> map_of (eng_agents e) i = Some a \<Longrightarrow> ag_AgentId a = i"
  by (simp add: eng_inv_def eng_wf_def)

lemma relay_key: "eng_inv e \<Longrightarrow> map_of (eng_relays e) i = Some r \<Longrightarrow> rl_RelayId r = i"
  by (simp add: eng_inv_def eng_wf_def)

lemma inv_maps: "eng_inv e \<Longrightarrow> map_ok (eng_tunnels e) \<and> map_ok (eng_agents e) \<and> map_ok (eng_relays e)"
  by (simp add: eng_inv_def eng_wf_def)

lemma map_ok_entries: "map_ok m \<Longrightarrow> distinct (map fst m) \<and> (\<forall>(k, v)\<in>set m. map_of m k = Some v)"
  by (auto simp: map_ok_def)

lemma fold_keep: "(\<And>x s. h (f x s) = h s) \<Longrightarrow> h (fold f xs s) = h s"
  by (induction xs arbitrary: s) auto

lemma lostRelay_relays [simp]:
  "map_of (eng_relays (lostRelay cfg now rid r e)) = (map_of (eng_relays e))
     (rl_RelayId r \<mapsto> r\<lparr>rl_State := TUN_RELAY_STATE_DOWN, rl_Sessions := 0, rl_Tunnels := 0\<rparr>)"
  unfolding lostRelay_def Let_def downAgent_def
  by (subst fold_keep [of eng_relays], force)+ simp

locale engine_inv =
  fixes I :: "Engine \<Rightarrow> bool"
  assumes inv: "I e \<Longrightarrow> eng_inv e"
    and set_same: "I e \<Longrightarrow> tun e n = Some t \<Longrightarrow> same_claim rec t \<Longrightarrow> I (setTunnel rec e)"
    and del: "I e \<Longrightarrow> I (deleteTunnel n e)"
    and agent: "I e \<Longrightarrow> I (setAgent a e)"
    and relay: "I e \<Longrightarrow> I (setRelay r e)"
    and command: "I e \<Longrightarrow> I (emit (SinkCommand c) e)"
    and drop_agent: "I e \<Longrightarrow> map_of (eng_agents e) i = Some a \<Longrightarrow> I (dropAgent i a e)"
    and drop_relay: "I e \<Longrightarrow> map_of (eng_relays e) i = Some r \<Longrightarrow> I (dropRelay i r e)"
begin

lemma pres_park: "I e \<Longrightarrow> I (park cfg now req e)"
  unfolding park_def Let_def
  by (rule fold_invariant_list) (auto simp: park_one_def intro: set_same split: option.split)

lemma pres_release: "I e \<Longrightarrow> I (release req e)"
  unfolding release_def
  by (rule fold_invariant_list) (auto simp: release_one_def intro: del split: option.split)

lemma pres_touchRelay: "I e \<Longrightarrow> I (touchRelay now rid r e)"
  unfolding touchRelay_def Let_def by (rule relay)

lemma pres_heartbeat: "I e \<Longrightarrow> I (heartbeat now req e)"
proof -
  assume "I e"
  then have "I (touchRelay now (rq_RelayId req) (rq_Relay req) e)"
    by (rule pres_touchRelay)
  then have "I (fold (heartbeat_tunnel req) (rq_Tunnels req) (touchRelay now (rq_RelayId req) (rq_Relay req) e))"
    by (rule fold_invariant_list) (auto simp: heartbeat_tunnel_def intro: set_same split: option.split)
  then show ?thesis
    unfolding heartbeat_def Let_def
    by (rule fold_invariant_list) (auto simp: heartbeat_agent_def intro: agent split: option.split)
qed

lemma pres_agentUp: "I e \<Longrightarrow> I (snd (agentUp cfg now req e))"
  by (auto simp: agentUp_def intro: agent split: option.split)

lemma pres_agentDown: "I e \<Longrightarrow> I (agentDown cfg now req e)"
  by (auto simp: agentDown_def downAgent_def intro: agent split: option.split)

lemma pres_Command: "I e \<Longrightarrow> I (snd (Command cmd e))"
  unfolding Command_def
  by (auto intro: command relay split: TunCtlCommandKind.split option.split)

lemma tunnel_entries:
  "I e \<Longrightarrow> distinct (map fst (eng_tunnels e)) \<and> (\<forall>(n, t)\<in>set (eng_tunnels e). tun e n = Some t)"
  using map_ok_entries inv_maps [OF inv] by blast

lemma agent_entries:
  "I e \<Longrightarrow> distinct (map fst (eng_agents e)) \<and> (\<forall>(i, a)\<in>set (eng_agents e). map_of (eng_agents e) i = Some a)"
  using map_ok_entries inv_maps [OF inv] by blast

lemma relay_entries:
  "I e \<Longrightarrow> distinct (map fst (eng_relays e)) \<and> (\<forall>(i, r)\<in>set (eng_relays e). map_of (eng_relays e) i = Some r)"
  using map_ok_entries inv_maps [OF inv] by blast

text \<open>Loops over a snapshot of a table: an iteration only changes its own entry.\<close>

lemma pres_rewrite_loop:
  assumes "\<And>n t. same_claim (g t) t"
  shows "I e \<Longrightarrow> distinct (map fst xs) \<Longrightarrow> \<forall>(n, t)\<in>set xs. tun e n = Some t \<Longrightarrow>
    I (fold (\<lambda>(n, t) en. if P n t then setTunnel (g t) en else en) xs e)"
proof (induction xs arbitrary: e)
  case (Cons x xs)
  obtain n t where x: "x = (n, t)" by (cases x)
  have t: "tun e n = Some t" using Cons.prems x by auto
  have n: "tl_Name (g t) = n"
    using assms inv_name [OF inv [OF Cons.prems(1)] t] by (simp add: same_claim_def)
  let ?e = "if P n t then setTunnel (g t) e else e"
  have "I ?e" using Cons.prems(1) t assms by (auto intro: set_same)
  moreover have "\<forall>(m, u)\<in>set xs. tun ?e m = Some u"
    using Cons.prems x n by (force split: prod.splits)
  ultimately show ?case
    using Cons.IH [of ?e] Cons.prems(2) x by simp
qed simp

lemma pres_delete_loop:
  "I e \<Longrightarrow> I (fold (\<lambda>(n, t) en. if P n t then deleteTunnel n en else en) xs e)"
  by (rule fold_invariant_list) (auto intro: del)

lemma pres_agent_loop:
  "I e \<Longrightarrow> I (fold (\<lambda>(i, a) en. if P i a then setAgent (g a) en else en) xs e)"
  by (rule fold_invariant_list) (auto intro: agent)

lemma pres_lostRelay: "I e \<Longrightarrow> I (lostRelay cfg now rid r e)"
proof -
  assume e: "I e"
  let ?e1 = "setRelay (r\<lparr>rl_State := TUN_RELAY_STATE_DOWN, rl_Sessions := 0, rl_Tunnels := 0\<rparr>) e"
  have "I ?e1" using e by (rule relay)
  then have "I (fold (\<lambda>(n, t) en. if tl_RelayId t = rid \<and> is_active t
      then setTunnel (parked_rec (Unix (now + cfg_Grace cfg)) t) en else en) (eng_tunnels ?e1) ?e1)"
    using tunnel_entries [OF e] by (intro pres_rewrite_loop) auto
  then show ?thesis
    unfolding lostRelay_def Let_def downAgent_def by (rule pres_agent_loop)
qed

lemma pres_relay_loop:
  "I e \<Longrightarrow> distinct (map fst xs) \<Longrightarrow> \<forall>(i, r)\<in>set xs. map_of (eng_relays e) i = Some r \<Longrightarrow>
    I (fold (sweep_relay cfg now) xs e)"
proof (induction xs arbitrary: e)
  case (Cons x xs)
  obtain i r where x: "x = (i, r)" by (cases x)
  have r: "map_of (eng_relays e) i = Some r" using Cons.prems x by auto
  let ?e = "sweep_relay cfg now x e"
  have "I ?e"
    using Cons.prems(1) r unfolding x sweep_relay_alt by (auto intro: pres_lostRelay drop_relay)
  moreover have "\<forall>(j, s)\<in>set xs. map_of (eng_relays ?e) j = Some s"
    using Cons.prems x relay_key [OF inv [OF Cons.prems(1)] r]
    unfolding x sweep_relay_alt by (force simp: lostRelay_relays split: prod.splits)
  ultimately show ?case
    using Cons.IH [of ?e] Cons.prems(2) x by simp
qed simp

lemma pres_sweep_agents:
  "I e \<Longrightarrow> distinct (map fst xs) \<Longrightarrow> \<forall>(i, a)\<in>set xs. map_of (eng_agents e) i = Some a \<Longrightarrow>
    I (fold (sweep_agent cfg now) xs e)"
proof (induction xs arbitrary: e)
  case (Cons x xs)
  obtain i a where x: "x = (i, a)" by (cases x)
  have a: "map_of (eng_agents e) i = Some a" using Cons.prems x by auto
  let ?e = "sweep_agent cfg now x e"
  have "I ?e"
    using Cons.prems(1) a unfolding x sweep_agent_alt by (auto intro: agent drop_agent)
  moreover have "\<forall>(j, b)\<in>set xs. map_of (eng_agents ?e) j = Some b"
    using Cons.prems x agent_key [OF inv [OF Cons.prems(1)] a]
    unfolding x sweep_agent_alt by (force split: prod.splits)
  ultimately show ?case
    using Cons.IH [of ?e] Cons.prems(2) x by simp
qed simp

lemma pres_Sweep: "I e \<Longrightarrow> I (Sweep cfg now e)"
proof -
  assume e: "I e"
  let ?e1 = "fold (sweep_relay cfg now) (eng_relays e) e"
  let ?e2 = "fold (\<lambda>(name, t) en. if grace_expired now t then deleteTunnel name en else en) (eng_tunnels ?e1) ?e1"
  have "I ?e1" using e relay_entries by (intro pres_relay_loop) auto
  then have "I ?e2" by (rule pres_delete_loop)
  then have "I (fold (sweep_agent cfg now) (eng_agents ?e2) ?e2)"
    using agent_entries by (intro pres_sweep_agents) auto
  then show ?thesis by (simp add: Sweep_def Let_def)
qed

end

text \<open>An invariant that storing any record keeps is also kept by claims and announcements.\<close>

locale engine_inv_any = engine_inv +
  assumes set_any: "I e \<Longrightarrow> I (setTunnel rec e)"
begin

lemma pres_claim: "I e \<Longrightarrow> I (snd (claim cfg dir now req e))"
proof -
  assume e: "I e"
  have "I (fold (\<lambda>old. emit (SinkCommand (takeover_command old))) olds (fold setTunnel recs e))" for olds recs
    using e by (intro fold_invariant_list [of I] command set_any) auto
  then show ?thesis
    using e by (auto simp: claim_def Let_def split: sum.split)
qed

lemma pres_announce_tunnels:
  "I e \<Longrightarrow> I (fst (announce_tunnels cfg req ts (e, conflicts, reported)))"
  by (induction ts arbitrary: e conflicts reported) (auto intro: set_any)

lemma pres_announce: "I e \<Longrightarrow> I (snd (announce cfg now req e))"
proof -
  assume e: "I e"
  define e1 where "e1 = (case rq_Relay req of Some r \<Rightarrow> touchRelay now (rq_RelayId req) (Some r) e | None \<Rightarrow> e)"
  have e1: "I e1" using e by (auto simp: e1_def intro: pres_touchRelay split: option.split)
  obtain e2 conflicts reported where
    at: "announce_tunnels cfg req (rq_Tunnels req) (e1, [], []) = (e2, conflicts, reported)"
    by (cases "announce_tunnels cfg req (rq_Tunnels req) (e1, [], [])")
  have "I e2" using pres_announce_tunnels [OF e1, of cfg req "rq_Tunnels req" "[]" "[]"] at by simp
  then have "I (fold (\<lambda>(name, rec) en.
      if tl_RelayId rec = rq_RelayId req \<and> name \<notin> set reported \<and> is_active rec
      then setTunnel (graced_rec until rec) en else en) (eng_tunnels e2) e2)" (is "I ?e3") for until
    by (rule fold_invariant_list) (auto intro: set_any)
  then have "I (fold (\<lambda>a en. if ag_Simulated a \<and> \<not> cfg_AllowSimulated cfg then en
      else setAgent (a\<lparr>ag_RelayId := rq_RelayId req\<rparr>) en) (rq_Agents req) (?e3 until))" for until
    by (rule fold_invariant_list) (auto intro: agent)
  then show ?thesis
    using e at e1_def by (simp add: announce_def Let_def split: option.split)
qed

lemma pres_Handle: "I e \<Longrightarrow> I (snd (Handle cfg dir now req e))"
  unfolding Handle_def
  by (auto intro: pres_claim pres_park pres_release pres_announce pres_heartbeat pres_agentUp pres_agentDown
      split: TunClaimKind.split)

end

end
