(* ===== verification/Claims_Reach.thy ===== *)
theory Claims_Reach
  imports Claims_Life
begin

text \<open>
  The engine over its whole life: the step relation of requests, sweeps and
  operator commands, the invariants of every reachable state, and the live
  tables rebuilt from the sink's calls.
\<close>

section \<open>Definitions\<close>

text \<open>The mirror: what a reader of the sink's calls holds for each table.\<close>

fun replay_tunnel :: "SinkCall \<Rightarrow> (string \<Rightarrow> TunLiveTunnel option) \<Rightarrow> string \<Rightarrow> TunLiveTunnel option" where
  "replay_tunnel (TunnelChanged t c) m = (if c = Deleted then m(tl_Name t := None) else m(tl_Name t \<mapsto> t))"
| "replay_tunnel _ m = m"

fun replay_agent :: "SinkCall \<Rightarrow> (string \<Rightarrow> TunAgent option) \<Rightarrow> string \<Rightarrow> TunAgent option" where
  "replay_agent (AgentChanged a c) m = (if c = Deleted then m(ag_AgentId a := None) else m(ag_AgentId a \<mapsto> a))"
| "replay_agent _ m = m"

fun replay_relay :: "SinkCall \<Rightarrow> (string \<Rightarrow> TunRelay option) \<Rightarrow> string \<Rightarrow> TunRelay option" where
  "replay_relay (RelayChanged r c) m = (if c = Deleted then m(rl_RelayId r := None) else m(rl_RelayId r \<mapsto> r))"
| "replay_relay _ m = m"

definition mirrored :: "Engine \<Rightarrow> bool" where
  "mirrored e \<longleftrightarrow>
     fold replay_tunnel (eng_sink e) Map.empty = tun e \<and>
     fold replay_agent (eng_sink e) Map.empty = map_of (eng_agents e) \<and>
     fold replay_relay (eng_sink e) Map.empty = map_of (eng_relays e)"

definition mirror_inv :: "Engine \<Rightarrow> bool" where
  "mirror_inv e \<longleftrightarrow> eng_inv e \<and> mirrored e"

text \<open>One method call; \<open>ok\<close> selects the relay requests considered.\<close>

inductive engine_step :: "EngineConfig \<Rightarrow> (Engine \<Rightarrow> TunClaimRequest \<Rightarrow> bool) \<Rightarrow> Engine \<Rightarrow> Engine \<Rightarrow> bool"
  for cfg ok where
  handle: "ok e req \<Longrightarrow> engine_step cfg ok e (snd (Handle cfg dir now req e))"
| sweep: "engine_step cfg ok e (Sweep cfg now e)"
| command: "engine_step cfg ok e (snd (Command cmd e))"

definition reachable :: "EngineConfig \<Rightarrow> (Engine \<Rightarrow> TunClaimRequest \<Rightarrow> bool) \<Rightarrow> Engine \<Rightarrow> bool" where
  "reachable cfg ok e \<longleftrightarrow> (engine_step cfg ok)\<^sup>*\<^sup>* New_Engine e"

text \<open>Requests that do not announce, or announce tunnels whose ports and
  domains no other name holds.\<close>

definition clean_request :: "Engine \<Rightarrow> TunClaimRequest \<Rightarrow> bool" where
  "clean_request e req \<longleftrightarrow>
     (rq_Kind req = TUN_CLAIM_KIND_ANNOUNCE \<longrightarrow>
        (\<forall>t\<in>set (rq_Tunnels req). no_clash t e) \<and> sorted_wrt disjoint_recs (rq_Tunnels req))"

definition not_announce :: "Engine \<Rightarrow> TunClaimRequest \<Rightarrow> bool" where
  "not_announce e req \<longleftrightarrow> rq_Kind req \<noteq> TUN_CLAIM_KIND_ANNOUNCE"

text \<open>The token that holds a name.\<close>

definition name_owner :: "Engine \<Rightarrow> string \<Rightarrow> string option" where
  "name_owner e n = map_option tl_TokenId (tun e n)"

section \<open>The invariants of the contract\<close>

lemma drop_inv: "eng_inv e \<Longrightarrow> eng_inv (dropAgent i a e)" "eng_inv e \<Longrightarrow> eng_inv (dropRelay i r e)"
  by (auto simp: eng_inv_def eng_wf_def index_sound_def) (auto simp: dropAgent_def dropRelay_def)

lemma drop_excl: "eng_excl e \<Longrightarrow> eng_excl (dropAgent i a e)" "eng_excl e \<Longrightarrow> eng_excl (dropRelay i r e)"
  by (auto simp: eng_excl_def exclusive_def intro: drop_inv)

interpretation wf: engine_inv_any eng_inv
  by unfold_locales (auto intro: setTunnel_inv deleteTunnel_inv drop_inv)

interpretation excl: engine_inv eng_excl
proof unfold_locales
  show "eng_inv e" if "eng_excl e" for e
    using that by (simp add: eng_excl_def)
  show "eng_excl (setTunnel rec e)" if "eng_excl e" "tun e n = Some t" "same_claim rec t" for e n t rec
    using that by (intro setTunnel_excl no_clash_same [of e n t]) (auto simp: same_claim_def)
qed (auto intro: deleteTunnel_excl drop_excl)

lemma changeOf_not_Deleted [simp]: "changeOf old rec \<noteq> Deleted"
  by (simp add: changeOf_def split: option.split)

lemma deleteTunnel_sink:
  "eng_sink (deleteTunnel n e) = (case tun e n of None \<Rightarrow> eng_sink e | Some t \<Rightarrow> eng_sink e @ [TunnelChanged t Deleted])"
  by (auto simp: deleteTunnel_def Let_def split: option.split)

lemma setAgent_sink: "\<exists>c. c \<noteq> Deleted \<and> eng_sink (setAgent a e) = eng_sink e @ [AgentChanged a c]"
  by (auto simp: setAgent_def Let_def)

lemma setRelay_sink: "\<exists>c. c \<noteq> Deleted \<and> eng_sink (setRelay r e) = eng_sink e @ [RelayChanged r c]"
  by (auto simp: setRelay_def Let_def)

lemma mirror_setTunnel: "mirrored e \<Longrightarrow> mirrored (setTunnel rec e)"
  by (simp add: mirrored_def setTunnel_sink)

lemma mirror_deleteTunnel: "eng_inv e \<Longrightarrow> mirrored e \<Longrightarrow> mirrored (deleteTunnel n e)"
  by (cases "tun e n") (auto simp: mirrored_def deleteTunnel_sink dest: inv_name)

lemma mirror_setAgent: "mirrored e \<Longrightarrow> mirrored (setAgent a e)"
  using setAgent_sink [of a e] by (auto simp: mirrored_def)

lemma mirror_setRelay: "mirrored e \<Longrightarrow> mirrored (setRelay r e)"
  using setRelay_sink [of r e] by (auto simp: mirrored_def)

lemma mirror_drop:
  "eng_inv e \<Longrightarrow> mirrored e \<Longrightarrow> map_of (eng_agents e) i = Some a \<Longrightarrow> mirrored (dropAgent i a e)"
  "eng_inv e \<Longrightarrow> mirrored e \<Longrightarrow> map_of (eng_relays e) i = Some r \<Longrightarrow> mirrored (dropRelay i r e)"
  by (auto simp: mirrored_def dropAgent_def dropRelay_def dest: agent_key relay_key)

interpretation mirror: engine_inv_any mirror_inv
  by unfold_locales
    (auto simp: mirror_inv_def intro: setTunnel_inv deleteTunnel_inv drop_inv mirror_setTunnel
      mirror_deleteTunnel mirror_setAgent mirror_setRelay mirror_drop, simp add: mirrored_def)

section \<open>Announcements that clash with nothing\<close>

lemma no_clash_announced: "no_clash (announced_rec req t) e = no_clash t e"
  by (simp add: no_clash_def announced_rec_def)

lemma disjoint_announced: "disjoint_recs (announced_rec req t) r = disjoint_recs t r"
  by (simp add: disjoint_recs_def announced_rec_def)

lemma announce_tunnels_excl:
  "eng_excl e \<Longrightarrow> \<forall>t\<in>set ts. no_clash t e \<Longrightarrow> sorted_wrt disjoint_recs ts \<Longrightarrow>
   eng_excl (fst (announce_tunnels cfg req ts (e, conflicts, reported)))"
proof (induction ts arbitrary: e conflicts reported)
  case (Cons t ts)
  have step: "eng_excl (setTunnel (announced_rec req t) e) \<and> (\<forall>u\<in>set ts. no_clash u (setTunnel (announced_rec req t) e))"
    using Cons.prems
    by (auto intro!: setTunnel_excl no_clash_setTunnel simp: no_clash_announced disjoint_announced excl.inv)
  then show ?case
    using Cons by auto
qed simp

lemma announce_excl:
  assumes e: "eng_excl e"
    and clean: "\<forall>t\<in>set (rq_Tunnels req). no_clash t e" "sorted_wrt disjoint_recs (rq_Tunnels req)"
  shows "eng_excl (snd (announce cfg now req e))"
proof -
  define e1 where "e1 = (case rq_Relay req of Some r \<Rightarrow> touchRelay now (rq_RelayId req) (Some r) e | None \<Rightarrow> e)"
  have e1: "eng_excl e1" using e by (auto simp: e1_def intro: excl.pres_touchRelay split: option.split)
  have "no_clash t e1 = no_clash t e" for t
    by (auto simp: e1_def touchRelay_def Let_def no_clash_def split: option.split)
  then have nc: "\<forall>t\<in>set (rq_Tunnels req). no_clash t e1" using clean(1) by simp
  obtain e2 conflicts reported where
    at: "announce_tunnels cfg req (rq_Tunnels req) (e1, [], []) = (e2, conflicts, reported)"
    by (cases "announce_tunnels cfg req (rq_Tunnels req) (e1, [], [])")
  have e2: "eng_excl e2"
    using announce_tunnels_excl [OF e1 nc clean(2), of cfg req "[]" "[]"] at by simp
  have "eng_excl (fold (\<lambda>(name, rec) en.
      if tl_RelayId rec = rq_RelayId req \<and> name \<notin> set reported \<and> is_active rec
      then setTunnel (graced_rec until rec) en else en) (eng_tunnels e2) e2)" (is "eng_excl ?e3") for until
    using excl.tunnel_entries [OF e2] e2 by (intro excl.pres_rewrite_loop) auto
  then have "eng_excl (fold (\<lambda>a en. if ag_Simulated a \<and> \<not> cfg_AllowSimulated cfg then en
      else setAgent (a\<lparr>ag_RelayId := rq_RelayId req\<rparr>) en) (rq_Agents req) (?e3 until))" for until
    by (rule fold_invariant_list) (auto intro: setAgent_excl)
  then show ?thesis
    using e at e1_def by (simp add: announce_def Let_def split: option.split)
qed

lemma Handle_excl: "eng_excl e \<Longrightarrow> clean_request e req \<Longrightarrow> eng_excl (snd (Handle cfg dir now req e))"
  unfolding Handle_def clean_request_def
  by (auto intro: claim_excl announce_excl excl.pres_park excl.pres_release excl.pres_heartbeat
      excl.pres_agentUp excl.pres_agentDown split: TunClaimKind.split)

section \<open>Reachable engines\<close>

lemma New_Engine_inv: "eng_excl New_Engine" "mirror_inv New_Engine"
  by (simp_all add: New_Engine_def eng_excl_def mirror_inv_def eng_inv_def eng_wf_def index_sound_def
      exclusive_def mirrored_def)

lemma reachable_induct [consumes 1, case_names new step]:
  assumes "reachable cfg ok e" "Q New_Engine"
    "\<And>e e'. reachable cfg ok e \<Longrightarrow> Q e \<Longrightarrow> engine_step cfg ok e e' \<Longrightarrow> Q e'"
  shows "Q e"
  using assms(1) unfolding reachable_def
  by (induction rule: rtranclp_induct) (auto intro: assms(2,3) simp: reachable_def)

lemma reachable_mirror: "reachable cfg ok e \<Longrightarrow> mirror_inv e"
proof (induction rule: reachable_induct)
  case (step e e')
  from step.hyps(2) step.IH show ?case
    by cases (auto intro: mirror.pres_Handle mirror.pres_Sweep mirror.pres_Command)
qed (rule New_Engine_inv)

lemma reachable_excl: "reachable cfg clean_request e \<Longrightarrow> eng_excl e"
proof (induction rule: reachable_induct)
  case (step e e')
  from step.hyps(2) step.IH show ?case
    by cases (auto intro: Handle_excl excl.pres_Sweep excl.pres_Command)
qed (rule New_Engine_inv)

end
