(* ===== verification/Name_Holding.thy ===== *)
theory Name_Holding
  imports Registry_Rules
begin

text \<open>
  The contract both registries keep, the relay's own (\<open>relay/registry.go\<close>) and
  the cluster's (\<open>claims\<close>): a held name stays with its token until it is
  freed.  \<open>owner s n\<close> is the token holding the name \<open>n\<close> in state \<open>s\<close>.
\<close>

locale name_holding =
  fixes I :: "'s \<Rightarrow> bool"
    and step :: "'s \<Rightarrow> 's \<Rightarrow> bool"
    and owner :: "'s \<Rightarrow> string \<Rightarrow> string option"
  assumes keeps: "I s \<Longrightarrow> step s s' \<Longrightarrow> I s'"
    and holds: "I s \<Longrightarrow> step s s' \<Longrightarrow> owner s n = Some t \<Longrightarrow> owner s' n = Some t \<or> owner s' n = None"
begin

lemma keeps_steps: "step\<^sup>*\<^sup>* s s' \<Longrightarrow> I s \<Longrightarrow> I s'"
  by (induction rule: rtranclp_induct) (auto intro: keeps)

text \<open>A name that changes hands was free in between.\<close>

lemma freed_between:
  assumes "step\<^sup>*\<^sup>* s s'" "I s" "owner s n = Some t" "owner s' n \<noteq> Some t"
  shows "\<exists>m. step\<^sup>*\<^sup>* s m \<and> step\<^sup>*\<^sup>* m s' \<and> owner m n = None"
  using assms
proof (induction rule: converse_rtranclp_induct)
  case (step s m)
  show ?case
  proof (cases "owner m n = None")
    case True
    then show ?thesis
      using step.hyps by (meson r_into_rtranclp)
  next
    case False
    then have "owner m n = Some t"
      using holds [OF step.prems(1) step.hyps(1) step.prems(2)] by auto
    then show ?thesis
      using step.IH [OF keeps [OF step.prems(1) step.hyps(1)]] step.prems(3) step.hyps(1)
      by (meson converse_rtranclp_into_rtranclp)
  qed
qed simp

text \<open>While nobody frees it, the holder keeps it.\<close>

lemma held_throughout:
  assumes "step\<^sup>*\<^sup>* s s'" "I s" "owner s n = Some t" "\<And>m. step\<^sup>*\<^sup>* s m \<Longrightarrow> step\<^sup>*\<^sup>* m s' \<Longrightarrow> owner m n \<noteq> None"
  shows "owner s' n = Some t"
  using freed_between [OF assms(1-3)] assms(4) by blast

end

end
