(* ===== verification/Claims_Sweep.thy ===== *)
theory Claims_Sweep
  imports Claims_Reach Name_Holding
begin

text \<open>
  What a sweep does to the tunnels, in closed form, and that held names stay
  with their token across every operation but an announcement.
\<close>

section \<open>Sweep\<close>

definition relay_lost :: "EngineConfig \<Rightarrow> int \<Rightarrow> TunRelay \<Rightarrow> bool" where
  "relay_lost cfg now r \<longleftrightarrow>
     \<not> rl_Simulated r \<and> rl_State r \<noteq> TUN_RELAY_STATE_DOWN \<and> rl_LastSeen r < Unix (now - cfg_RelayTimeout cfg)"

text \<open>The tunnel after its relay was checked: parked when the relay is lost.\<close>

definition after_relay_check :: "EngineConfig \<Rightarrow> int \<Rightarrow> (string, TunRelay) gomap \<Rightarrow> TunLiveTunnel \<Rightarrow> TunLiveTunnel" where
  "after_relay_check cfg now relays t =
     (if is_active t \<and> (case map_of relays (tl_RelayId t) of Some r \<Rightarrow> relay_lost cfg now r | None \<Rightarrow> False)
      then parked_rec (Unix (now + cfg_Grace cfg)) t else t)"

definition sweep_view :: "EngineConfig \<Rightarrow> int \<Rightarrow> (string, TunRelay) gomap \<Rightarrow> TunLiveTunnel option \<Rightarrow> TunLiveTunnel option" where
  "sweep_view cfg now relays t0 =
     (case t0 of
        None \<Rightarrow> None
      | Some t \<Rightarrow> let t' = after_relay_check cfg now relays t in if grace_expired now t' then None else Some t')"

lemma rewrite_loop_tun:
  assumes "\<And>t. tl_Name (g t) = tl_Name t"
  shows "distinct (map fst xs) \<Longrightarrow> \<forall>(n, t)\<in>set xs. tl_Name t = n \<Longrightarrow>
    tun (fold (\<lambda>(n, t) en. if P t then setTunnel (g t) en else en) xs e) m =
      (case map_of xs m of Some t \<Rightarrow> if P t then Some (g t) else tun e m | None \<Rightarrow> tun e m)"
proof (induction xs arbitrary: e)
  case (Cons x xs)
  obtain n t where x: "x = (n, t)" by (cases x)
  have "map_of xs n = None" using Cons.prems(1) x by (simp add: map_of_eq_None_iff)
  then show ?case
    using Cons assms x by (auto split: option.split)
qed simp

lemma delete_loop_tun:
  "distinct (map fst xs) \<Longrightarrow>
    tun (fold (\<lambda>(n, t) en. if P t then deleteTunnel n en else en) xs e) m =
      (case map_of xs m of Some t \<Rightarrow> if P t then None else tun e m | None \<Rightarrow> tun e m)"
proof (induction xs arbitrary: e)
  case (Cons x xs)
  obtain n t where x: "x = (n, t)" by (cases x)
  have "map_of xs n = None" using Cons.prems(1) x by (simp add: map_of_eq_None_iff)
  then show ?case
    using Cons x by (auto split: option.split)
qed simp

lemma inv_entries:
  "eng_inv e \<Longrightarrow> distinct (map fst (eng_tunnels e)) \<and> (\<forall>(n, t)\<in>set (eng_tunnels e). tl_Name t = n)"
  using wf.tunnel_entries [of e] inv_name [of e] by fastforce

lemma parked_rec_simps [simp]:
  "tl_Name (parked_rec u t) = tl_Name t" "tl_RelayId (parked_rec u t) = tl_RelayId t"
  "\<not> is_active (parked_rec u t)" "tl_TokenId (parked_rec u t) = tl_TokenId t"
  by (simp_all add: parked_rec_def is_active_def)

lemma lostRelay_tun:
  assumes "eng_inv e"
  shows "tun (lostRelay cfg now rid r e) n =
    map_option (\<lambda>t. if tl_RelayId t = rid \<and> is_active t then parked_rec (Unix (now + cfg_Grace cfg)) t else t) (tun e n)"
proof -
  let ?e1 = "setRelay (r\<lparr>rl_State := TUN_RELAY_STATE_DOWN, rl_Sessions := 0, rl_Tunnels := 0\<rparr>) e"
  let ?e2 = "fold (\<lambda>(n, t) en. if tl_RelayId t = rid \<and> is_active t
      then setTunnel (parked_rec (Unix (now + cfg_Grace cfg)) t) en else en) (eng_tunnels ?e1) ?e1"
  have "eng_tunnels (lostRelay cfg now rid r e) = eng_tunnels ?e2"
    unfolding lostRelay_def Let_def downAgent_def
    by (rule fold_keep [of eng_tunnels]) auto
  moreover have "tun ?e2 n = (case tun ?e1 n of
      Some t \<Rightarrow> if tl_RelayId t = rid \<and> is_active t then Some (parked_rec (Unix (now + cfg_Grace cfg)) t) else tun ?e1 n
    | None \<Rightarrow> tun ?e1 n)"
    using inv_entries [OF assms] by (intro rewrite_loop_tun) auto
  ultimately show ?thesis
    by (auto split: option.split)
qed

lemma sweep_relays_tun:
  "eng_inv e \<Longrightarrow> distinct (map fst xs) \<Longrightarrow> \<forall>(i, r)\<in>set xs. map_of (eng_relays e) i = Some r \<Longrightarrow>
    tun (fold (sweep_relay cfg now) xs e) n = map_option (after_relay_check cfg now xs) (tun e n)"
proof (induction xs arbitrary: e)
  case Nil
  then show ?case by (simp add: after_relay_check_def option.map_ident)
next
  case (Cons x xs)
  obtain i r where x: "x = (i, r)" by (cases x)
  have r: "map_of (eng_relays e) i = Some r" using Cons.prems x by auto
  let ?e = "sweep_relay cfg now x e"
  have inv: "eng_inv ?e"
    using Cons.prems(1) r unfolding x sweep_relay_alt by (auto intro: wf.pres_lostRelay drop_inv)
  have keys: "\<forall>(j, s)\<in>set xs. map_of (eng_relays ?e) j = Some s"
    using Cons.prems x relay_key [OF Cons.prems(1) r]
    unfolding x sweep_relay_alt by (force split: prod.splits)
  have fresh: "map_of xs i = None"
    using Cons.prems(2) x by (simp add: map_of_eq_None_iff)
  have here: "tun ?e n = map_option (\<lambda>t. if tl_RelayId t = i \<and> is_active t \<and> relay_lost cfg now r
      then parked_rec (Unix (now + cfg_Grace cfg)) t else t) (tun e n)"
    unfolding x sweep_relay_alt
    by (cases "tun e n") (auto simp: lostRelay_tun [OF Cons.prems(1)] relay_lost_def)
  have "tun (fold (sweep_relay cfg now) xs ?e) n = map_option (after_relay_check cfg now xs) (tun ?e n)"
    using Cons.IH [OF inv _ keys] Cons.prems(2) x by simp
  then have "tun (fold (sweep_relay cfg now) (x # xs) e) n =
      map_option (after_relay_check cfg now xs) (map_option (\<lambda>t. if tl_RelayId t = i \<and> is_active t \<and>
        relay_lost cfg now r then parked_rec (Unix (now + cfg_Grace cfg)) t else t) (tun e n))"
    using here by simp
  also have "\<dots> = map_option (after_relay_check cfg now (x # xs)) (tun e n)"
    using fresh x by (cases "tun e n") (auto simp: after_relay_check_def)
  finally show ?case .
qed

lemma sweep_agents_tun: "eng_tunnels (fold (sweep_agent cfg now) xs e) = eng_tunnels e"
  by (rule fold_keep [of eng_tunnels]) (auto simp: sweep_agent_def split: prod.split)

lemma Sweep_tun:
  assumes "eng_inv e"
  shows "tun (Sweep cfg now e) n = sweep_view cfg now (eng_relays e) (tun e n)"
proof -
  let ?e1 = "fold (sweep_relay cfg now) (eng_relays e) e"
  let ?e2 = "fold (\<lambda>(name, t) en. if grace_expired now t then deleteTunnel name en else en) (eng_tunnels ?e1) ?e1"
  have ent: "distinct (map fst (eng_relays e)) \<and> (\<forall>(i, r)\<in>set (eng_relays e). map_of (eng_relays e) i = Some r)"
    using wf.relay_entries [OF assms] .
  have inv1: "eng_inv ?e1"
    using assms ent by (intro wf.pres_relay_loop) auto
  have "tun (Sweep cfg now e) n = tun ?e2 n"
    by (simp add: Sweep_def Let_def sweep_agents_tun)
  also have "\<dots> = (case tun ?e1 n of Some t \<Rightarrow> if grace_expired now t then None else tun ?e1 n | None \<Rightarrow> tun ?e1 n)"
    using inv_entries [OF inv1] by (intro delete_loop_tun) auto
  also have "tun ?e1 n = map_option (after_relay_check cfg now (eng_relays e)) (tun e n)"
    using sweep_relays_tun [OF assms] ent by blast
  finally show ?thesis
    by (cases "tun e n") (auto simp: sweep_view_def Let_def)
qed

section \<open>Held names\<close>

definition held :: "string \<Rightarrow> string \<Rightarrow> Engine \<Rightarrow> bool" where
  "held n tok e \<longleftrightarrow> eng_inv e \<and> (\<forall>t. tun e n = Some t \<longrightarrow> tl_TokenId t = tok)"

interpretation held: engine_inv "held n tok" for n tok
proof unfold_locales
  show "held n tok (setTunnel rec e)" if "held n tok e" "tun e m = Some t" "same_claim rec t" for e m t rec
    using that inv_name [of e m t]
    by (auto simp: held_def same_claim_def intro: setTunnel_inv)
qed (auto simp: held_def intro: deleteTunnel_inv drop_inv)

lemma claim_owner:
  assumes "eng_excl e" "name_owner e n = Some tok"
  shows "name_owner (snd (claim cfg dir now req e)) n = Some tok"
proof -
  obtain resp e' where c: "claim cfg dir now req e = (resp, e')"
    by (cases "claim cfg dir now req e")
  show ?thesis
  proof (cases "rp_Error resp = TUN_CLAIM_ERROR_UNSPECIFIED")
    case False
    then show ?thesis using claim_refused [OF c] c assms(2) by simp
  next
    case True
    obtain st rs where dn: "claim_done cfg dir now req e resp e' st rs"
      using claim_ok_done [OF assms(1) c True] by blast
    have "tl_TokenId r = tok" if f: "find (\<lambda>r. tl_Name r = n) rs = Some r" for r
    proof -
      obtain spec where "admitted cfg dir now req e spec r" "tl_Name r = n"
        using f dn find_Some_iff_mem [OF f] unfolding claim_done_def
        by (metis in_set_conv_nth list_all2_conv_all_nth)
      then show ?thesis
        using assms(2) admitted_simps [of cfg dir now req e spec r]
        by (auto simp: admitted_def name_owner_def split: option.splits)
    qed
    then show ?thesis
      using claim_tun [OF assms(1) c True, of n] dn c assms(2)
      by (auto simp: claim_done_def name_owner_def split: option.splits)
  qed
qed

lemma engine_step_owner:
  assumes "eng_excl e" "engine_step cfg not_announce e e'" "name_owner e n = Some tok"
  shows "name_owner e' n = Some tok \<or> name_owner e' n = None"
proof -
  have h: "held n tok e"
    using assms(1,3) by (auto simp: held_def name_owner_def excl.inv)
  have out: "held n tok e'' \<Longrightarrow> name_owner e'' n = Some tok \<or> name_owner e'' n = None" for e''
    by (cases "tun e'' n") (auto simp: held_def name_owner_def)
  from assms(2) show ?thesis
  proof cases
    case (handle req dir now)
    then show ?thesis
      using assms(1,3) h claim_owner [OF assms(1,3)]
      unfolding Handle_def not_announce_def
      by (auto split: TunClaimKind.splits if_splits
          intro!: out held.pres_park held.pres_release held.pres_heartbeat held.pres_agentUp held.pres_agentDown)
  qed (auto intro!: out held.pres_Sweep held.pres_Command h)
qed

lemma engine_step_excl: "eng_excl e \<Longrightarrow> engine_step cfg not_announce e e' \<Longrightarrow> eng_excl e'"
  by (erule engine_step.cases)
    (auto intro!: Handle_excl excl.pres_Sweep excl.pres_Command simp: clean_request_def not_announce_def)

interpretation cluster: name_holding eng_excl "engine_step cfg not_announce" name_owner for cfg
  by unfold_locales (rule engine_step_excl, assumption+, rule engine_step_owner, assumption+)

end
