(* ===== verification/Claims_Properties.thy ===== *)
theory Claims_Properties
  imports Claims_Sweep
begin

text \<open>
  The properties of the claims engine (\<open>go/tunnel/claims\<close>), each with an
  instance on a small cluster: two relays, two agents, a dozen public ports.
\<close>

section \<open>A small cluster\<close>

definition exRules :: Rules where
  "exRules = \<lparr>BaseDomain = ''ex.com'', ControlSNI = ''c.ex.com'', AuthHost = [], ReservedNames = [''www''],
     PortMin = 10000, PortMax = 10011\<rparr>"

definition exCfg :: EngineConfig where
  "exCfg = \<lparr>cfg_Rules = exRules, cfg_Grace = 300000000000, cfg_RelayTimeout = 15000000000,
     cfg_OfflineRetention = 86400000000000, cfg_DownRetention = 3600000000000, cfg_AllowSimulated = False\<rparr>"

definition exDir :: Directory where
  "exDir = \<lparr>dir_Reservations = [], dir_IsSiteName = (\<lambda>_. False)\<rparr>"

definition exTunnel :: "string \<Rightarrow> int \<Rightarrow> TunLiveTunnel" where
  "exTunnel name port = \<lparr>tl_TunnelId = name, tl_Name = name, tl_Type = TUN_TUNNEL_TYPE_TCP, tl_Hostname = [],
     tl_Domains = [], tl_PublicPort = port, tl_RelayId = [], tl_AgentId = ''a1'', tl_TokenId = ''t1'',
     tl_State = TUN_LIVE_STATE_UNSPECIFIED, tl_ConnectedAt = 0, tl_GraceUntil = 0, tl_ActiveConns = 0,
     tl_TotalConns = 0, tl_BytesIn = 0, tl_BytesOut = 0, tl_Simulated = False, tl_SessionId = ''s1'',
     tl_AccessToken = False, tl_PreviousPort = 0\<rparr>"

definition exReq :: "TunClaimKind \<Rightarrow> string \<Rightarrow> string \<Rightarrow> TunLiveTunnel list \<Rightarrow> TunClaimRequest" where
  "exReq k relay token ts = \<lparr>rq_Kind = k, rq_RelayId = relay, rq_SessionId = ''s1'', rq_AgentId = ''a1'',
     rq_TokenId = token, rq_MaxTunnels = 2, rq_PortMin = 0, rq_PortMax = 0, rq_Tunnels = ts, rq_Names = map tl_Name ts,
     rq_GraceUntil = 0, rq_Agent = None, rq_Agents = [], rq_Relay = None,
     rq_Reason = TUN_DISCONNECT_REASON_UNSPECIFIED\<rparr>"

definition exClaim :: "string \<Rightarrow> TunClaimRequest" where
  "exClaim token = exReq TUN_CLAIM_KIND_CLAIM ''r1'' token [exTunnel ''web'' 0, exTunnel ''db'' 10005]"

definition exHandle :: "int \<Rightarrow> TunClaimRequest \<Rightarrow> Engine \<Rightarrow> TunClaimResponse \<times> Engine" where
  "exHandle now req e = Handle exCfg exDir now req e"

definition exEngine :: Engine where
  "exEngine = snd (exHandle 0 (exClaim ''t1'') New_Engine)"

lemma exHandle_claim: "exHandle 0 (exClaim t) e = claim exCfg exDir 0 (exClaim t) e"
  by (simp add: exHandle_def Handle_def exClaim_def exReq_def)

lemma exStep: "ok e req \<Longrightarrow> engine_step exCfg ok e (snd (exHandle now req e))"
  unfolding exHandle_def by (rule engine_step.handle)

lemma exEngine_reachable: "ok New_Engine (exClaim ''t1'') \<Longrightarrow> reachable exCfg ok exEngine"
  unfolding exEngine_def reachable_def by (rule r_into_rtranclp) (rule exStep)

lemma exClaim_clean: "clean_request e (exClaim t)" "not_announce e (exClaim t)"
  by (simp_all add: clean_request_def not_announce_def exClaim_def exReq_def)

section \<open>Claims\<close>

text \<open>
  C1. A claim is all or nothing.  When it is refused, the engine is unchanged
  and no tunnel is granted.  When it is granted, every requested tunnel is
  admitted in request order (valid free name, no site name, the token's own
  reservation and holder, an admissible port), the granted names are distinct, and the registry is the old
  one with exactly the granted records written over it.
\<close>

theorem claim_atomic:
  assumes "eng_excl e" "claim cfg dir now req e = (resp, e')"
  shows "(rp_Error resp \<noteq> TUN_CLAIM_ERROR_UNSPECIFIED \<longrightarrow> e' = e \<and> rp_Tunnels resp = []) \<and>
    (rp_Error resp = TUN_CLAIM_ERROR_UNSPECIFIED \<longrightarrow>
       rp_Tunnels resp \<noteq> [] \<and> distinct (map tl_Name (rp_Tunnels resp)) \<and>
       list_all2 (admitted cfg dir now req e) (rq_Tunnels req) (rp_Tunnels resp) \<and>
       (\<forall>n. tun e' n = (case find (\<lambda>r. tl_Name r = n) (rp_Tunnels resp) of Some r \<Rightarrow> Some r | None \<Rightarrow> tun e n)))"
proof (intro conjI impI)
  assume ok: "rp_Error resp = TUN_CLAIM_ERROR_UNSPECIFIED"
  then obtain st rs where d: "claim_done cfg dir now req e resp e' st rs"
    using claim_ok_done [OF assms] by blast
  then show all: "list_all2 (admitted cfg dir now req e) (rq_Tunnels req) (rp_Tunnels resp)"
    and "distinct (map tl_Name (rp_Tunnels resp))"
    by (simp_all add: claim_done_def)
  show "rp_Tunnels resp \<noteq> []" using all d by (auto simp: claim_done_def)
  show "\<forall>n. tun e' n = (case find (\<lambda>r. tl_Name r = n) (rp_Tunnels resp) of Some r \<Rightarrow> Some r | None \<Rightarrow> tun e n)"
    using claim_tun [OF assms ok] by blast
qed (use claim_refused [OF assms(2)] in auto)

theorem claim_atomic_witness:
  "map tl_Name (rp_Tunnels (fst (claim exCfg exDir 0 (exClaim ''t1'') New_Engine))) = [''web'', ''db''] \<and>
   tun (snd (claim exCfg exDir 0 (exClaim ''t1'') New_Engine)) ''ssh'' = None \<and>
   distinct (map tl_Name (rp_Tunnels (fst (claim exCfg exDir 0 (exClaim ''t1'') New_Engine))))"
proof -
  have "rp_Error (fst (claim exCfg exDir 0 (exClaim ''t1'') New_Engine)) = TUN_CLAIM_ERROR_UNSPECIFIED"
    and names: "map tl_Name (rp_Tunnels (fst (claim exCfg exDir 0 (exClaim ''t1'') New_Engine))) = [''web'', ''db'']"
    and "tun (snd (claim exCfg exDir 0 (exClaim ''t1'') New_Engine)) ''ssh'' = None"
    by code_simp+
  then show ?thesis
    using claim_atomic [OF New_Engine_inv(1) prod.collapse [symmetric], of exCfg exDir 0 "exClaim ''t1''"] by simp
qed

text \<open>
  A granted claim respects the token's tunnel limit: afterwards the token
  has at most \<open>MaxTunnels\<close> active tunnels, counted over the whole cluster and
  including those the claim added.
\<close>

theorem claim_cap:
  assumes "eng_excl e" "claim cfg dir now req e = (resp, e')"
    and "rp_Error resp = TUN_CLAIM_ERROR_UNSPECIFIED" "0 < rq_MaxTunnels req"
  shows "int (token_active e' (rq_TokenId req)) \<le> rq_MaxTunnels req"
  using assms by (rule claim_within_cap)

theorem claim_cap_witness:
  "token_active (snd (claim exCfg exDir 0 (exClaim ''t1'') New_Engine)) ''t1'' = 2 \<and>
   int (token_active (snd (claim exCfg exDir 0 (exClaim ''t1'') New_Engine)) (rq_TokenId (exClaim ''t1''))) \<le> 2"
proof -
  have ok: "rp_Error (fst (claim exCfg exDir 0 (exClaim ''t1'') New_Engine)) = TUN_CLAIM_ERROR_UNSPECIFIED"
    "token_active (snd (claim exCfg exDir 0 (exClaim ''t1'') New_Engine)) ''t1'' = 2" by code_simp+
  have max: "rq_MaxTunnels (exClaim ''t1'') = 2" by (simp add: exClaim_def exReq_def)
  show ?thesis
    using claim_cap [OF New_Engine_inv(1) prod.collapse [symmetric] ok(1)] ok(2) max by simp
qed



text \<open>
  C22. The engine's indexes and its sink agree with its registry in every
  reachable state, whatever the requests: an index entry points at a live
  tunnel that has that port or domain, and replaying the calls made to the
  sink gives exactly the engine's tunnels, agents and relays.
\<close>

theorem sink_mirrors_engine:
  assumes "reachable cfg ok e"
  shows "index_sound e \<and>
    fold replay_tunnel (eng_sink e) Map.empty = tun e \<and>
    fold replay_agent (eng_sink e) Map.empty = map_of (eng_agents e) \<and>
    fold replay_relay (eng_sink e) Map.empty = map_of (eng_relays e)"
  using reachable_mirror [OF assms] by (simp add: mirror_inv_def mirrored_def eng_inv_def)

theorem sink_mirrors_engine_witness:
  "length (eng_sink exEngine) = 2 \<and> fold replay_tunnel (eng_sink exEngine) Map.empty = tun exEngine"
proof -
  have "length (eng_sink exEngine) = 2" by code_simp
  then show ?thesis
    using sink_mirrors_engine [OF exEngine_reachable [of "\<lambda>_ _. True"]] by simp
qed

section \<open>Time\<close>

text \<open>
  One sweep, tunnel by tunnel: an active tunnel of a relay that has been
  silent for longer than the timeout is parked for the grace period; a parked
  tunnel whose grace has run out is removed; every other tunnel is as before.
\<close>

theorem Sweep_spec:
  assumes "reachable cfg ok e"
  shows "tun (Sweep cfg now e) n = sweep_view cfg now (eng_relays e) (tun e n)"
  using reachable_mirror [OF assms] by (simp add: mirror_inv_def Sweep_tun)

definition exParked :: Engine where
  "exParked = snd (exHandle 0 (exReq TUN_CLAIM_KIND_PARK ''r1'' ''t1'' [exTunnel ''web'' 0]) exEngine)"

lemma exParked_reachable: "reachable exCfg not_announce exParked"
proof -
  have "engine_step exCfg not_announce exEngine exParked"
    unfolding exParked_def by (rule exStep) (simp add: not_announce_def exReq_def)
  then show ?thesis
    using exEngine_reachable [of not_announce, OF exClaim_clean(2)] unfolding reachable_def
    by (rule rtranclp.rtrancl_into_rtrancl [rotated])
qed

theorem Sweep_spec_witness:
  "tun exParked ''web'' \<noteq> None \<and> tun (Sweep exCfg 301000000000 exParked) ''web'' = None \<and>
   tun (Sweep exCfg 299000000000 exParked) ''web'' = tun exParked ''web''"
proof -
  have "tun exParked ''web'' \<noteq> None"
    "sweep_view exCfg 301000000000 (eng_relays exParked) (tun exParked ''web'') = None"
    "sweep_view exCfg 299000000000 (eng_relays exParked) (tun exParked ''web'') = tun exParked ''web''"
    by code_simp+
  then show ?thesis by (simp add: Sweep_spec [OF exParked_reachable])
qed



section \<open>Ports\<close>



definition exAnnounce :: TunClaimRequest where
  "exAnnounce = exReq TUN_CLAIM_KIND_ANNOUNCE ''r2'' ''t2'' [(exTunnel ''mail'' 10000)\<lparr>tl_TokenId := ''t2''\<rparr>]"

text \<open>
  C28. Announcements are not checked for ports or domains: after a relay announces
  a tunnel on a port another relay's tunnel has, two live tunnels of different tokens
  share that public port.
\<close>

theorem announce_shares_port:
  "\<exists>e t s. reachable exCfg (\<lambda>_ _. True) e \<and> tun e ''web'' = Some t \<and> tun e ''mail'' = Some s \<and>
     is_active t \<and> is_active s \<and> tl_TokenId t \<noteq> tl_TokenId s \<and>
     tl_PublicPort t = 10000 \<and> tl_PublicPort s = 10000"
proof -
  let ?e = "snd (exHandle 0 exAnnounce exEngine)"
  have "reachable exCfg (\<lambda>_ _. True) exEngine" by (rule exEngine_reachable) simp
  then have "reachable exCfg (\<lambda>_ _. True) ?e"
    unfolding reachable_def by (rule rtranclp.rtrancl_into_rtrancl) (rule exStep, simp)
  moreover have "tun ?e ''web'' \<noteq> None" "tun ?e ''mail'' \<noteq> None"
    "is_active (the (tun ?e ''web''))" "is_active (the (tun ?e ''mail''))"
    "tl_TokenId (the (tun ?e ''web'')) \<noteq> tl_TokenId (the (tun ?e ''mail''))"
    "tl_PublicPort (the (tun ?e ''web'')) = 10000" "tl_PublicPort (the (tun ?e ''mail'')) = 10000"
    by code_simp+
  ultimately show ?thesis by auto
qed

end
