(* ===== verification/Relay_Registry.thy ===== *)
theory Relay_Registry
  imports Name_Holding "HOL-Library.List_Lexorder"
begin

text \<open>
  \<open>go/tunnel/relay/registry.go\<close>: the names and public ports of one relay.
  Reservations are shared pointers (the session keeps the one it claimed), so
  they live in a heap \<open>reg_heap\<close> under natural-number addresses; the two maps
  hold addresses.  Sessions and tunnels are addresses too.  The mutex makes
  each method atomic.  A grace timer is a flag (armed or not) and its firing
  is the method \<open>expire\<close>; the closing of a stale session's tunnel is recorded
  in \<open>reg_closedTunnels\<close>.  Times are nanoseconds.
\<close>

section \<open>State\<close>

record reservation =
  res_name :: string
  res_typ :: TunnelType
  res_tokenID :: string
  res_agentID :: string
  res_port :: int
  res_domains :: "string list"
  res_permanent :: bool
  res_session :: "nat option"
  res_tunnel :: "nat option"
  res_timer :: bool
  res_expires :: int

record nameRegistry =
  reg_grace :: int
  reg_names :: "(string, nat) gomap"
  reg_domains :: "(string, nat) gomap"
  reg_ports :: "(int, unit) gomap"
  reg_closed :: bool
  reg_clustered :: bool
  reg_heap :: "(nat, reservation) gomap"
  reg_next :: nat
  reg_closedTunnels :: "nat list"

definition newNameRegistry :: "int \<Rightarrow> bool \<Rightarrow> nameRegistry" where
  "newNameRegistry grace clustered = \<lparr>reg_grace = grace, reg_names = [], reg_domains = [], reg_ports = [],
     reg_closed = False, reg_clustered = clustered, reg_heap = [], reg_next = 0, reg_closedTunnels = []\<rparr>"

abbreviation res_at :: "nameRegistry \<Rightarrow> nat \<Rightarrow> reservation option" where
  "res_at r i \<equiv> map_of (reg_heap r) i"

definition upd_res :: "nat \<Rightarrow> (reservation \<Rightarrow> reservation) \<Rightarrow> nameRegistry \<Rightarrow> nameRegistry" where
  "upd_res i f r =
     (case res_at r i of
        None \<Rightarrow> r
      | Some res \<Rightarrow> r\<lparr>reg_heap := AList.update i (f res) (reg_heap r)\<rparr>)"

definition alloc_res :: "reservation \<Rightarrow> nameRegistry \<Rightarrow> nat \<times> nameRegistry" where
  "alloc_res res r =
     (reg_next r, r\<lparr>reg_heap := AList.update (reg_next r) res (reg_heap r), reg_next := Suc (reg_next r),
        reg_names := AList.update (res_name res) (reg_next r) (reg_names r)\<rparr>)"

section \<open>Methods\<close>

definition activeLocked :: "nameRegistry \<Rightarrow> string \<Rightarrow> nat option \<Rightarrow> int" where
  "activeLocked r tokenID except =
     int (length (filter (\<lambda>(_, i). case res_at r i of
            Some res \<Rightarrow> res_tokenID res = tokenID \<and> res_session res \<noteq> None \<and> Some i \<noteq> except
          | None \<Rightarrow> False) (reg_names r)))"

definition reg_claim ::
  "string \<Rightarrow> TunnelType \<Rightarrow> string \<Rightarrow> string \<Rightarrow> nat \<Rightarrow> int \<Rightarrow> nameRegistry \<Rightarrow>
   (RuleError, nat \<times> bool) result \<times> nameRegistry" where
  "reg_claim name t tokenID agentID sess maxTunnels r =
     (let cur = map_of (reg_names r) name;
          holder = (case cur of
              None \<Rightarrow> None
            | Some i \<Rightarrow> (case res_at r i of
                 None \<Rightarrow> None
               | Some res \<Rightarrow> Some \<lparr>HTokenID = res_tokenID res, HAgentID = res_agentID res,
                    Connected = (res_session res \<noteq> None), SameSession = (res_session res = Some sess)\<rparr>))
      in case Decide holder tokenID agentID (activeLocked r tokenID cur) maxTunnels of
           Inl err \<Rightarrow> (Err err, r)
         | Inr DecisionNew \<Rightarrow>
             (let (i, r') = alloc_res \<lparr>res_name = name, res_typ = t, res_tokenID = tokenID, res_agentID = agentID,
                    res_port = 0, res_domains = [], res_permanent = False, res_session = Some sess,
                    res_tunnel = None, res_timer = False, res_expires = 0\<rparr> r
              in (Ok (i, False), r'))
         | Inr decision \<Rightarrow>
             (let i = the cur;
                  r1 = (if decision = DecisionTakeover
                        then r\<lparr>reg_closedTunnels := reg_closedTunnels r @
                                 (case res_tunnel (the (res_at r i)) of None \<Rightarrow> [] | Some tn \<Rightarrow> [tn])\<rparr>
                        else r);
                  r2 = upd_res i (\<lambda>res. res\<lparr>res_timer := False, res_typ := t, res_agentID := agentID,
                         res_session := Some sess, res_tunnel := None\<rparr>) r1
              in (Ok (i, True), r2)))"

definition reg_activate :: "nat \<Rightarrow> nat \<Rightarrow> nameRegistry \<Rightarrow> nameRegistry" where
  "reg_activate i tn r = upd_res i (\<lambda>res. res\<lparr>res_tunnel := Some tn\<rparr>) r"

definition deleteLocked :: "nat \<Rightarrow> nameRegistry \<Rightarrow> nameRegistry" where
  "deleteLocked i r =
     (case res_at r i of
        None \<Rightarrow> r
      | Some res \<Rightarrow>
          (upd_res i (\<lambda>res. res\<lparr>res_timer := False\<rparr>) r)\<lparr>
             reg_names := (if map_of (reg_names r) (res_name res) = Some i
                           then AList.delete (res_name res) (reg_names r) else reg_names r),
             reg_ports := (if res_port res \<noteq> 0 then AList.delete (res_port res) (reg_ports r) else reg_ports r),
             reg_domains := fold (\<lambda>d m. if map_of m d = Some i then AList.delete d m else m)
                              (res_domains res) (reg_domains r)\<rparr>)"

definition reg_park :: "int \<Rightarrow> nat \<Rightarrow> nat \<Rightarrow> nameRegistry \<Rightarrow> nameRegistry" where
  "reg_park now i sess r =
     (case res_at r i of
        None \<Rightarrow> r
      | Some res \<Rightarrow>
          if res_session res \<noteq> Some sess then r
          else let r1 = upd_res i (\<lambda>res. res\<lparr>res_session := None, res_tunnel := None\<rparr>) r
               in if map_of (reg_names r1) (res_name res) \<noteq> Some i then r1
                  else if (reg_closed r \<or> reg_clustered r) \<and> \<not> res_permanent res then deleteLocked i r1
                  else if \<not> res_permanent res
                  then upd_res i (\<lambda>res. res\<lparr>res_expires := now + reg_grace r, res_timer := True\<rparr>) r1
                  else r1)"

definition reg_rollback :: "int \<Rightarrow> nat \<Rightarrow> nat \<Rightarrow> bool \<Rightarrow> nameRegistry \<Rightarrow> nameRegistry" where
  "reg_rollback now i sess existed r =
     (if existed then reg_park now i sess r
      else case res_at r i of
             None \<Rightarrow> r
           | Some res \<Rightarrow> if res_session res = Some sess then deleteLocked i r else r)"

definition reg_expire :: "nat \<Rightarrow> nameRegistry \<Rightarrow> nameRegistry" where
  "reg_expire i r =
     (case res_at r i of
        None \<Rightarrow> r
      | Some res \<Rightarrow>
          if map_of (reg_names r) (res_name res) = Some i \<and> res_session res = None \<and> \<not> res_permanent res
          then deleteLocked i r else r)"

definition reg_setDomains :: "nat \<Rightarrow> string list \<Rightarrow> nameRegistry \<Rightarrow> (string, unit) result \<times> nameRegistry" where
  "reg_setDomains i domains r =
     (case find (\<lambda>d. case map_of (reg_domains r) d of None \<Rightarrow> False | Some j \<Rightarrow> j \<noteq> i) domains of
        Some d \<Rightarrow> (Err d, r)
      | None \<Rightarrow>
          (case res_at r i of
             None \<Rightarrow> (Ok (), r)
           | Some res \<Rightarrow>
               let m1 = fold (\<lambda>d m. if map_of m d = Some i then AList.delete d m else m) (res_domains res) (reg_domains r);
                   m2 = fold (\<lambda>d. AList.update d i) domains m1
               in (Ok (), (upd_res i (\<lambda>res. res\<lparr>res_domains := domains\<rparr>) r)\<lparr>reg_domains := m2\<rparr>)))"

text \<open>The exact domain, else the closest wildcard that covers it.\<close>

definition domain_res :: "nameRegistry \<Rightarrow> string \<Rightarrow> nat option" where
  "domain_res r domain =
     fold (\<lambda>w acc. case acc of Some i \<Rightarrow> Some i | None \<Rightarrow> map_of (reg_domains r) w)
       (WildcardsOf domain) (map_of (reg_domains r) domain)"

definition reg_lookupDomain :: "nameRegistry \<Rightarrow> string \<Rightarrow> (nat option \<times> TunnelType \<times> string) option" where
  "reg_lookupDomain r domain =
     (case domain_res r domain of
        None \<Rightarrow> None
      | Some i \<Rightarrow> map_option (\<lambda>res. (res_tunnel res, res_typ res, res_name res)) (res_at r i))"

definition reg_reserve :: "string \<Rightarrow> string \<Rightarrow> int \<Rightarrow> nameRegistry \<Rightarrow> (RuleError, unit) result \<times> nameRegistry" where
  "reg_reserve name tokenID port r =
     (let cur = map_of (reg_names r) name;
          res0 = (case cur of None \<Rightarrow> None | Some i \<Rightarrow> res_at r i)
      in if (case res0 of Some res \<Rightarrow> res_tokenID res \<noteq> tokenID | None \<Rightarrow> False) then (Err ErrNameTaken, r)
         else if port \<noteq> 0 \<and> (case res0 of Some res \<Rightarrow> res_port res \<noteq> port | None \<Rightarrow> True) \<and>
                 map_of (reg_ports r) port \<noteq> None then (Err ErrPortTaken, r)
         else
           let (i, r1) = (case cur of
                  Some i \<Rightarrow> (i, r)
                | None \<Rightarrow> alloc_res \<lparr>res_name = name, res_typ = TUNNEL_TYPE_UNSPECIFIED, res_tokenID = tokenID,
                     res_agentID = [], res_port = 0, res_domains = [], res_permanent = False, res_session = None,
                     res_tunnel = None, res_timer = False, res_expires = 0\<rparr> r);
               old = (case res_at r1 i of Some res \<Rightarrow> res_port res | None \<Rightarrow> 0);
               r2 = (if port \<noteq> 0 \<and> old \<noteq> port
                     then (upd_res i (\<lambda>res. res\<lparr>res_port := port\<rparr>) r1)\<lparr>
                            reg_ports := AList.update port ()
                              (if old \<noteq> 0 then AList.delete old (reg_ports r1) else reg_ports r1)\<rparr>
                     else r1)
           in (Ok (), upd_res i (\<lambda>res. res\<lparr>res_permanent := True, res_timer := False\<rparr>) r2))"

definition reg_unreserve :: "string \<Rightarrow> nameRegistry \<Rightarrow> nameRegistry" where
  "reg_unreserve name r =
     (case map_of (reg_names r) name of
        None \<Rightarrow> r
      | Some i \<Rightarrow>
          (case res_at r i of
             None \<Rightarrow> r
           | Some res \<Rightarrow>
               if \<not> res_permanent res then r
               else let r1 = upd_res i (\<lambda>res. res\<lparr>res_permanent := False\<rparr>) r
                    in if res_session res = None then deleteLocked i r1 else r1))"

definition reg_releaseToken :: "string \<Rightarrow> nameRegistry \<Rightarrow> nat list \<times> nameRegistry" where
  "reg_releaseToken tokenID r =
     fold (\<lambda>(_, i) (sessions, r').
        case res_at r' i of
          None \<Rightarrow> (sessions, r')
        | Some res \<Rightarrow>
            if res_tokenID res = tokenID
            then (sessions @ (case res_session res of None \<Rightarrow> [] | Some s \<Rightarrow> [s]), deleteLocked i r')
            else (sessions, r'))
       (reg_names r) ([], r)"

definition reg_lookup :: "nameRegistry \<Rightarrow> string \<Rightarrow> (nat option \<times> TunnelType) option" where
  "reg_lookup r name =
     (case map_of (reg_names r) name of
        None \<Rightarrow> None
      | Some i \<Rightarrow> map_option (\<lambda>res. (res_tunnel res, res_typ res)) (res_at r i))"

definition reg_reservePort :: "int \<Rightarrow> nameRegistry \<Rightarrow> bool \<times> nameRegistry" where
  "reg_reservePort port r =
     (if map_of (reg_ports r) port \<noteq> None then (False, r)
      else (True, r\<lparr>reg_ports := AList.update port () (reg_ports r)\<rparr>))"

definition reg_releasePort :: "int \<Rightarrow> nameRegistry \<Rightarrow> nameRegistry" where
  "reg_releasePort port r = r\<lparr>reg_ports := AList.delete port (reg_ports r)\<rparr>"

definition reg_portOf :: "nameRegistry \<Rightarrow> nat \<Rightarrow> int" where
  "reg_portOf r i = (case res_at r i of None \<Rightarrow> 0 | Some res \<Rightarrow> res_port res)"

definition reg_setPort :: "nat \<Rightarrow> int \<Rightarrow> nameRegistry \<Rightarrow> nameRegistry" where
  "reg_setPort i port r =
     (let old = reg_portOf r i;
          r1 = (if old \<noteq> 0 \<and> old \<noteq> port then r\<lparr>reg_ports := AList.delete old (reg_ports r)\<rparr> else r)
      in upd_res i (\<lambda>res. res\<lparr>res_port := port\<rparr>) r1)"

record ParkedTunnel =
  pk_Name :: string
  pk_TokenID :: string
  pk_Type :: string
  pk_Port :: int
  pk_Permanent :: bool
  pk_Expires :: "int option"

definition parked_entry :: "reservation \<Rightarrow> ParkedTunnel" where
  "parked_entry res = \<lparr>pk_Name = res_name res, pk_TokenID = res_tokenID res,
     pk_Type = (if res_typ res \<noteq> TUNNEL_TYPE_UNSPECIFIED then TunnelTypeName (res_typ res) else []),
     pk_Port = res_port res, pk_Permanent = res_permanent res,
     pk_Expires = (if \<not> res_permanent res then Some (res_expires res) else None)\<rparr>"

definition reg_parked :: "nameRegistry \<Rightarrow> ParkedTunnel list" where
  "reg_parked r =
     sort_key pk_Name
       (map parked_entry (filter (\<lambda>res. res_session res = None)
          (List.map_filter (\<lambda>(_, i). res_at r i) (reg_names r))))"

definition reg_close :: "nameRegistry \<Rightarrow> nameRegistry" where
  "reg_close r =
     fold (\<lambda>(_, i) r'.
        case res_at r' i of
          None \<Rightarrow> r'
        | Some res \<Rightarrow>
            if res_session res = None
            then (let r1 = upd_res i (\<lambda>res. res\<lparr>res_timer := False\<rparr>) r'
                  in if \<not> res_permanent res then deleteLocked i r1 else r1)
            else r')
       (reg_names r) (r\<lparr>reg_closed := True\<rparr>)"

end
