(* ===== verification/Relay_Registry_Inv.thy ===== *)
theory Relay_Registry_Inv
  imports Relay_Registry
begin

text \<open>
  The relay registry's invariant: names, domains and ports each have one live
  reservation, and every parked reservation that is not permanent has its
  grace timer armed.  The step relation \<open>reg_step\<close> has one rule per method,
  with the callers' obligations as premises: a session sets domains and ports
  on a live reservation only, and a port it reserved itself.
\<close>

section \<open>Definitions\<close>

definition live :: "nameRegistry \<Rightarrow> nat \<Rightarrow> bool" where
  "live r i = (case res_at r i of None \<Rightarrow> False | Some res \<Rightarrow> map_of (reg_names r) (res_name res) = Some i)"

definition timer_ok :: "reservation \<Rightarrow> bool" where
  "timer_ok res \<longleftrightarrow> (res_session res = None \<and> \<not> res_permanent res \<longrightarrow> res_timer res)"

text \<open>The entry of a live reservation is consistent; addresses in \<open>X\<close> may
  lack their timer (inside a method).\<close>

definition entry_ok :: "nat set \<Rightarrow> nameRegistry \<Rightarrow> string \<Rightarrow> nat \<Rightarrow> reservation \<Rightarrow> bool" where
  "entry_ok X r n i res \<longleftrightarrow>
     res_name res = n \<and>
     (res_port res \<noteq> 0 \<longrightarrow> map_of (reg_ports r) (res_port res) = Some ()) \<and>
     (\<forall>d\<in>set (res_domains res). map_of (reg_domains r) d = Some i) \<and>
     (i \<notin> X \<longrightarrow> timer_ok res)"

definition reg_ok :: "nat set \<Rightarrow> nameRegistry \<Rightarrow> bool" where
  "reg_ok X r \<longleftrightarrow>
     map_ok (reg_names r) \<and> map_ok (reg_domains r) \<and> map_ok (reg_ports r) \<and> map_ok (reg_heap r) \<and>
     (\<forall>i\<ge>reg_next r. res_at r i = None) \<and>
     (\<forall>n i. map_of (reg_names r) n = Some i \<longrightarrow> (\<exists>res. res_at r i = Some res \<and> entry_ok X r n i res)) \<and>
     (\<forall>d i. map_of (reg_domains r) d = Some i \<longrightarrow>
        (\<exists>res. res_at r i = Some res \<and> map_of (reg_names r) (res_name res) = Some i \<and> d \<in> set (res_domains res))) \<and>
     (\<forall>n m i j res res'. map_of (reg_names r) n = Some i \<longrightarrow> map_of (reg_names r) m = Some j \<longrightarrow> i \<noteq> j \<longrightarrow>
        res_at r i = Some res \<longrightarrow> res_at r j = Some res' \<longrightarrow> res_port res \<noteq> 0 \<longrightarrow> res_port res \<noteq> res_port res')"

abbreviation reg_inv :: "nameRegistry \<Rightarrow> bool" where
  "reg_inv \<equiv> reg_ok {}"

text \<open>A port some session reserved and no live reservation has.\<close>

definition unassigned :: "nameRegistry \<Rightarrow> int \<Rightarrow> bool" where
  "unassigned r p \<longleftrightarrow>
     list_all (\<lambda>(_, i). case res_at r i of None \<Rightarrow> True | Some res \<Rightarrow> res_port res \<noteq> p) (reg_names r)"

inductive reg_step :: "nameRegistry \<Rightarrow> nameRegistry \<Rightarrow> bool" where
  claim: "reg_step r (snd (reg_claim name t tok ag sess mx r))"
| activate: "reg_step r (reg_activate i tn r)"
| park: "reg_step r (reg_park now i sess r)"
| rollback: "existed \<or> live r i \<Longrightarrow> reg_step r (reg_rollback now i sess existed r)"
| expire: "reg_step r (reg_expire i r)"
| setDomains: "live r i \<Longrightarrow> reg_step r (snd (reg_setDomains i ds r))"
| reserve: "reg_step r (snd (reg_reserve name tok port r))"
| unreserve: "reg_step r (reg_unreserve name r)"
| releaseToken: "reg_step r (snd (reg_releaseToken tok r))"
| reservePort: "reg_step r (snd (reg_reservePort p r))"
| releasePort: "unassigned r p \<Longrightarrow> reg_step r (reg_releasePort p r)"
| setPort: "live r i \<Longrightarrow> p \<noteq> 0 \<Longrightarrow> map_of (reg_ports r) p = Some () \<Longrightarrow> unassigned r p \<Longrightarrow>
    reg_step r (reg_setPort i p r)"
| close: "reg_step r (reg_close r)"

definition reg_owner :: "nameRegistry \<Rightarrow> string \<Rightarrow> string option" where
  "reg_owner r n =
     (case map_of (reg_names r) n of None \<Rightarrow> None | Some i \<Rightarrow> map_option res_tokenID (res_at r i))"

section \<open>Consequences\<close>

lemma reg_entry: "reg_ok X r \<Longrightarrow> map_of (reg_names r) n = Some i \<Longrightarrow> \<exists>res. res_at r i = Some res \<and> entry_ok X r n i res"
  by (simp add: reg_ok_def)

lemma reg_dom: "reg_ok X r \<Longrightarrow> map_of (reg_domains r) d = Some i \<Longrightarrow>
    \<exists>res. res_at r i = Some res \<and> map_of (reg_names r) (res_name res) = Some i \<and> d \<in> set (res_domains res)"
  by (simp add: reg_ok_def)

lemma reg_fresh: "reg_ok X r \<Longrightarrow> reg_next r \<le> i \<Longrightarrow> res_at r i = None"
  by (simp add: reg_ok_def)

lemma reg_port_unique:
  "reg_ok X r \<Longrightarrow> map_of (reg_names r) n = Some i \<Longrightarrow> map_of (reg_names r) m = Some j \<Longrightarrow> i \<noteq> j \<Longrightarrow>
   res_at r i = Some res \<Longrightarrow> res_at r j = Some res' \<Longrightarrow> res_port res \<noteq> 0 \<Longrightarrow> res_port res \<noteq> res_port res'"
  unfolding reg_ok_def by blast

lemma reg_ports_differ:
  "reg_ok X r \<Longrightarrow> map_of (reg_names r) n = Some i \<Longrightarrow> map_of (reg_names r) m = Some j \<Longrightarrow> i \<noteq> j \<Longrightarrow>
   \<forall>res res'. res_at r i = Some res \<longrightarrow> res_at r j = Some res' \<longrightarrow> res_port res \<noteq> 0 \<longrightarrow> res_port res \<noteq> res_port res'"
  unfolding reg_ok_def by blast

lemma reg_ok_mono: "reg_ok X r \<Longrightarrow> X \<subseteq> Y \<Longrightarrow> reg_ok Y r"
  unfolding reg_ok_def entry_ok_def by blast

lemma live_iff:
  assumes "reg_ok X r"
  shows "live r i \<longleftrightarrow> (\<exists>n. map_of (reg_names r) n = Some i)"
proof
  assume "live r i"
  then show "\<exists>n. map_of (reg_names r) n = Some i"
    by (auto simp: live_def split: option.splits)
next
  assume "\<exists>n. map_of (reg_names r) n = Some i"
  then obtain n where "map_of (reg_names r) n = Some i" by blast
  then show "live r i"
    using reg_entry [OF assms] by (fastforce simp: live_def entry_ok_def)
qed

lemma unassigned_iff:
  "reg_ok X r \<Longrightarrow> unassigned r p \<longleftrightarrow>
     (\<forall>n i res. map_of (reg_names r) n = Some i \<longrightarrow> res_at r i = Some res \<longrightarrow> res_port res \<noteq> p)"
  unfolding unassigned_def reg_ok_def list_all_iff
  by (auto split: option.splits prod.splits) (metis map_of_mem)+

section \<open>Primitive updates\<close>

lemma upd_res_simps [simp]:
  "reg_names (upd_res i f r) = reg_names r" "reg_domains (upd_res i f r) = reg_domains r"
  "reg_ports (upd_res i f r) = reg_ports r" "reg_next (upd_res i f r) = reg_next r"
  "reg_closed (upd_res i f r) = reg_closed r" "reg_clustered (upd_res i f r) = reg_clustered r"
  "reg_grace (upd_res i f r) = reg_grace r"
  "res_at (upd_res i f r) = (map_of (reg_heap r))(i := map_option f (res_at r i))"
  by (auto simp: upd_res_def split: option.split)

lemma upd_res_map_ok: "map_ok (reg_heap r) \<Longrightarrow> map_ok (reg_heap (upd_res i f r))"
  by (auto simp: upd_res_def split: option.split)

lemma upd_res_ok:
  assumes "reg_ok X r"
    and "\<And>res. res_at r i = Some res \<Longrightarrow> res_name (f res) = res_name res \<and> res_port (f res) = res_port res \<and>
      res_domains (f res) = res_domains res"
    and "\<And>res. res_at r i = Some res \<Longrightarrow> map_of (reg_names r) (res_name res) = Some i \<Longrightarrow> i \<notin> Y \<Longrightarrow> timer_ok (f res)"
    and "X - {i} \<subseteq> Y"
  shows "reg_ok Y (upd_res i f r)"
proof -
  have ent: "\<exists>res. res_at (upd_res i f r) j = Some res \<and> entry_ok Y (upd_res i f r) n j res"
    if n: "map_of (reg_names r) n = Some j" for n j
    using reg_entry [OF assms(1) n] n assms(2-4) by (auto simp: entry_ok_def)
  have "\<forall>n m j k res res'. map_of (reg_names r) n = Some j \<longrightarrow> map_of (reg_names r) m = Some k \<longrightarrow> j \<noteq> k \<longrightarrow>
      res_at (upd_res i f r) j = Some res \<longrightarrow> res_at (upd_res i f r) k = Some res' \<longrightarrow> res_port res \<noteq> 0 \<longrightarrow>
      res_port res \<noteq> res_port res'"
    using reg_port_unique [OF assms(1)] assms(2) by (auto split: if_splits) metis+
  moreover have "\<forall>d j. map_of (reg_domains r) d = Some j \<longrightarrow>
      (\<exists>res. res_at (upd_res i f r) j = Some res \<and> map_of (reg_names r) (res_name res) = Some j \<and> d \<in> set (res_domains res))"
    using reg_dom [OF assms(1)] assms(2) by fastforce
  ultimately show ?thesis
    using assms(1) ent reg_fresh [OF assms(1)]
    by (simp add: reg_ok_def upd_res_map_ok)
qed

lemma alloc_res_ok:
  assumes "reg_inv r" "map_of (reg_names r) (res_name res) = None" "res_port res = 0" "res_domains res = []"
    "alloc_res res r = (i, r')" "i \<notin> X \<longrightarrow> timer_ok res"
  shows "reg_ok X r' \<and> map_of (reg_names r') (res_name res) = Some i \<and> res_at r' i = Some res \<and>
    (\<forall>n. n \<noteq> res_name res \<longrightarrow> map_of (reg_names r') n = map_of (reg_names r) n) \<and>
    (\<forall>j. j \<noteq> i \<longrightarrow> res_at r' j = res_at r j) \<and> reg_ports r' = reg_ports r"
proof -
  have i: "i = reg_next r"
    and r': "r' = r\<lparr>reg_heap := AList.update i res (reg_heap r), reg_next := Suc i,
        reg_names := AList.update (res_name res) i (reg_names r)\<rparr>"
    using assms(5) by (auto simp: alloc_res_def)
  have new: "res_at r i = None" using reg_fresh [OF assms(1)] i by simp
  have old: "\<And>n j. map_of (reg_names r) n = Some j \<Longrightarrow> j \<noteq> i"
    using reg_entry [OF assms(1)] new by fastforce
  have "reg_ok X r'"
    unfolding reg_ok_def
  proof (intro conjI allI impI)
    show "map_ok (reg_names r')" "map_ok (reg_domains r')" "map_ok (reg_ports r')" "map_ok (reg_heap r')"
      using assms(1) r' by (auto simp: reg_ok_def)
    show "res_at r' j = None" if "reg_next r' \<le> j" for j
      using reg_fresh [OF assms(1), of j] that r' i by auto
    show "\<exists>res'. res_at r' j = Some res' \<and> entry_ok X r' n j res'" if n: "map_of (reg_names r') n = Some j" for n j
    proof (cases "n = res_name res")
      case True
      then show ?thesis using n r' assms(3,4,6) by (auto simp: entry_ok_def)
    next
      case False
      then have "map_of (reg_names r) n = Some j" using n r' by simp
      then show ?thesis using reg_entry [OF assms(1)] old [of n j] r' by (fastforce simp: entry_ok_def)
    qed
    show "\<exists>res'. res_at r' j = Some res' \<and> map_of (reg_names r') (res_name res') = Some j \<and> d \<in> set (res_domains res')"
      if "map_of (reg_domains r') d = Some j" for d j
      using reg_dom [OF assms(1), of d j] that assms(2) r' new by force
    show "res_port a \<noteq> res_port b" if "map_of (reg_names r') n = Some j" "map_of (reg_names r') m = Some k" "j \<noteq> k"
      "res_at r' j = Some a" "res_at r' k = Some b" "res_port a \<noteq> 0" for n m j k a b
      using that reg_port_unique [OF assms(1), of n j m k a b] r' assms(3) old
      by (auto split: if_splits)
  qed
  then show ?thesis using r' by auto
qed

lemma deleteLocked_names:
  "res_at r i = Some res \<Longrightarrow> map_of (reg_names r) (res_name res) = Some i \<Longrightarrow>
   map_of (reg_names (deleteLocked i r)) = (map_of (reg_names r))(res_name res := None)"
  by (simp add: deleteLocked_def)

lemma deleteLocked_res:
  "res_at (deleteLocked i r) j = map_option (\<lambda>res. if j = i then res\<lparr>res_timer := False\<rparr> else res) (res_at r j)"
  by (cases "res_at r i"; cases "res_at r j") (auto simp: deleteLocked_def)

lemma deleteLocked_ok:
  assumes "reg_ok {i} r" "live r i"
  shows "reg_inv (deleteLocked i r)"
proof -
  obtain res where res: "res_at r i = Some res" and nm: "map_of (reg_names r) (res_name res) = Some i"
    using assms(2) by (auto simp: live_def split: option.splits)
  let ?r = "deleteLocked i r"
  have names: "map_of (reg_names ?r) = (map_of (reg_names r))(res_name res := None)"
    using deleteLocked_names [OF res nm] .
  have other: "j \<noteq> i" if "map_of (reg_names ?r) n = Some j" for n j
    using that names res reg_entry [OF assms(1), of n i] by (auto simp: entry_ok_def split: if_splits)
  have heap: "\<And>j. j \<noteq> i \<Longrightarrow> res_at ?r j = res_at r j"
    by (simp add: deleteLocked_res option.map_ident)
  have ports: "map_of (reg_ports ?r) = (if res_port res = 0 then map_of (reg_ports r) else (map_of (reg_ports r))(res_port res := None))"
    using res by (simp add: deleteLocked_def)
  have doms: "\<And>d. map_of (reg_domains ?r) d = (if d \<in> set (res_domains res) \<and> map_of (reg_domains r) d = Some i
      then None else map_of (reg_domains r) d)"
    using res by (simp add: deleteLocked_def index_simps)
  show ?thesis
    unfolding reg_ok_def
  proof (intro conjI allI impI)
    show "map_ok (reg_names ?r)" "map_ok (reg_domains ?r)" "map_ok (reg_ports ?r)" "map_ok (reg_heap ?r)"
      using assms(1) res by (auto simp: reg_ok_def deleteLocked_def upd_res_map_ok)
    show "res_at ?r j = None" if "reg_next ?r \<le> j" for j
      using that reg_fresh [OF assms(1), of j] res by (simp add: deleteLocked_res) (simp add: deleteLocked_def)
    show "\<exists>res'. res_at ?r j = Some res' \<and> entry_ok {} ?r n j res'" if n: "map_of (reg_names ?r) n = Some j" for n j
    proof -
      have old: "map_of (reg_names r) n = Some j" and ne: "j \<noteq> i"
        using n names other by (auto split: if_splits)
      obtain res' where r': "res_at r j = Some res'" "entry_ok {i} r n j res'"
        using reg_entry [OF assms(1) old] by blast
      have "res_port res' \<noteq> 0 \<longrightarrow> res_port res' \<noteq> res_port res"
        using reg_port_unique [OF assms(1) old nm ne r'(1) res] by blast
      then show ?thesis
        using r' ne heap [OF ne] by (auto simp: entry_ok_def ports doms)
    qed
    show "\<exists>res'. res_at ?r j = Some res' \<and> map_of (reg_names ?r) (res_name res') = Some j \<and> d \<in> set (res_domains res')"
      if d: "map_of (reg_domains ?r) d = Some j" for d j
    proof -
      obtain res' where r': "res_at r j = Some res'" "map_of (reg_names r) (res_name res') = Some j" "d \<in> set (res_domains res')"
        using reg_dom [OF assms(1), of d j] d doms by (auto split: if_splits)
      have "j \<noteq> i" using d doms [of d] r' res by (auto split: if_splits)
      then show ?thesis
        using r' heap [of j] names nm by auto
    qed
    show "res_port a \<noteq> res_port b" if "map_of (reg_names ?r) n = Some j" "map_of (reg_names ?r) m = Some k" "j \<noteq> k"
      "res_at ?r j = Some a" "res_at ?r k = Some b" "res_port a \<noteq> 0" for n m j k a b
      using that reg_port_unique [OF assms(1), of n j m k a b] names other heap by (auto split: if_splits)
  qed
qed

section \<open>Owners\<close>

definition shrinks :: "nameRegistry \<Rightarrow> nameRegistry \<Rightarrow> bool" where
  "shrinks r r' \<longleftrightarrow> (\<forall>n. reg_owner r' n = reg_owner r n \<or> reg_owner r' n = None)"

lemma shrinks_refl [simp]: "shrinks r r"
  by (simp add: shrinks_def)

lemma shrinks_trans: "shrinks r s \<Longrightarrow> shrinks s t \<Longrightarrow> shrinks r t"
  unfolding shrinks_def by metis

lemma shrinks_same: "reg_names r' = reg_names r \<Longrightarrow> reg_heap r' = reg_heap r \<Longrightarrow> shrinks r r'"
  by (simp add: shrinks_def reg_owner_def split: option.split)

lemma upd_res_owner:
  assumes "\<And>res. res_tokenID (f res) = res_tokenID res"
  shows "reg_owner (upd_res i f r) = reg_owner r"
  using assms by (auto simp: reg_owner_def fun_eq_iff option.map_comp comp_def split: option.split)

lemma upd_res_shrinks: "(\<And>res. res_tokenID (f res) = res_tokenID res) \<Longrightarrow> shrinks r (upd_res i f r)"
  by (simp add: shrinks_def upd_res_owner)

lemma deleteLocked_shrinks: "shrinks r (deleteLocked i r)"
proof (cases "res_at r i")
  case None
  then show ?thesis by (simp add: deleteLocked_def)
next
  case (Some res)
  have nm: "map_of (reg_names (deleteLocked i r)) n = map_of (reg_names r) n \<or>
      map_of (reg_names (deleteLocked i r)) n = None" for n
    using Some by (auto simp: deleteLocked_def)
  have tok: "map_option res_tokenID (res_at (deleteLocked i r) j) = map_option res_tokenID (res_at r j)" for j
    by (simp add: deleteLocked_res option.map_comp comp_def if_distrib cong: if_cong option.map_cong)
  have "reg_owner (deleteLocked i r) n = reg_owner r n \<or> reg_owner (deleteLocked i r) n = None" for n
    using nm [of n] tok by (auto simp: reg_owner_def split: option.split)
  then show ?thesis by (simp add: shrinks_def)
qed

section \<open>Methods\<close>

definition good_step :: "nameRegistry \<Rightarrow> nameRegistry \<Rightarrow> bool" where
  "good_step r r' \<longleftrightarrow> reg_inv r' \<and> (\<forall>n t. reg_owner r n = Some t \<longrightarrow> reg_owner r' n = Some t \<or> reg_owner r' n = None)"

lemma good_shrinks: "reg_inv r' \<Longrightarrow> shrinks r r' \<Longrightarrow> good_step r r'"
  unfolding good_step_def shrinks_def by metis

lemma good_refl: "reg_inv r \<Longrightarrow> good_step r r"
  by (simp add: good_shrinks)

lemma reg_ok_frame [simp]:
  "reg_ok X (r\<lparr>reg_closedTunnels := c\<rparr>) = reg_ok X r" "reg_ok X (r\<lparr>reg_closed := b\<rparr>) = reg_ok X r"
  by (simp_all add: reg_ok_def entry_ok_def)

lemma owner_frame [simp]:
  "reg_owner (r\<lparr>reg_closedTunnels := c\<rparr>) = reg_owner r" "reg_owner (r\<lparr>reg_closed := b\<rparr>) = reg_owner r"
  by (simp_all add: reg_owner_def fun_eq_iff split: option.split)

lemma alloc_owner:
  assumes "reg_inv r" "alloc_res res r = (i, r')" "n \<noteq> res_name res"
  shows "reg_owner r' n = reg_owner r n"
proof -
  have "res_at r (reg_next r) = None" using reg_fresh [OF assms(1)] by simp
  then have "map_of (reg_names r) n = Some j \<Longrightarrow> j \<noteq> reg_next r" for j
    using reg_entry [OF assms(1), of n j] by auto
  then show ?thesis
    using assms(2,3) by (auto simp: alloc_res_def reg_owner_def split: option.split)
qed

lemma owner_None: "map_of (reg_names r) n = None \<Longrightarrow> reg_owner r n = None"
  by (simp add: reg_owner_def)

lemma alloc_good:
  assumes "reg_inv r" "map_of (reg_names r) (res_name res) = None" "res_port res = 0" "res_domains res = []"
    "alloc_res res r = (i, r')" "timer_ok res"
  shows "good_step r r'"
  using alloc_res_ok [OF assms(1-5), of "{}"] assms(6) alloc_owner [OF assms(1,5)] owner_None [OF assms(2)]
  unfolding good_step_def by (metis option.distinct(1))

lemma good_claim:
  assumes "reg_inv r"
  shows "good_step r (snd (reg_claim name t tok ag sess mx r))"
proof -
  let ?cur = "map_of (reg_names r) name"
  let ?f = "\<lambda>res. res\<lparr>res_timer := False, res_typ := t, res_agentID := ag, res_session := Some sess, res_tunnel := None\<rparr>"
  have upd: "good_step r (upd_res i ?f (r\<lparr>reg_closedTunnels := c\<rparr>))" for i c
    using assms by (intro good_shrinks upd_res_ok [of "{}"])
      (auto simp: timer_ok_def shrinks_def upd_res_owner)
  have upd': "good_step r (upd_res i ?f r)" for i
    using assms by (intro good_shrinks upd_res_ok [of "{}"]) (auto simp: timer_ok_def shrinks_def upd_res_owner)
  show ?thesis
  proof (cases ?cur)
    case None
    then show ?thesis
      using assms
      by (auto simp: reg_claim_def Let_def Decide_def timer_ok_def intro!: good_refl alloc_good
          split: prod.split if_splits)
  next
    case (Some i)
    then obtain res where "res_at r i = Some res"
      using reg_entry [OF assms] by blast
    with Some show ?thesis
      using assms upd upd'
      by (auto simp: reg_claim_def Let_def Decide_def good_refl)
  qed
qed

lemma good_activate: "reg_inv r \<Longrightarrow> good_step r (reg_activate i tn r)"
  unfolding reg_activate_def
  by (intro good_shrinks upd_res_ok [of "{}"] upd_res_shrinks)
    (auto simp: timer_ok_def dest!: reg_entry simp: entry_ok_def)

lemma good_delete:
  assumes "reg_ok {i} r" "live r i"
  shows "good_step r (deleteLocked i r)"
  using deleteLocked_ok [OF assms] deleteLocked_shrinks by (rule good_shrinks)

lemma good_park:
  assumes "reg_inv r"
  shows "good_step r (reg_park now i sess r)"
proof (cases "res_at r i")
  case None
  then show ?thesis using assms by (simp add: reg_park_def good_refl)
next
  case (Some res)
  let ?r1 = "upd_res i (\<lambda>res. res\<lparr>res_session := None, res_tunnel := None\<rparr>) r"
  have r1: "reg_ok {i} ?r1" and sh: "shrinks r ?r1"
    using assms by (auto intro!: upd_res_ok [of "{}"] upd_res_shrinks)
  have dead: "map_of (reg_names r) (res_name res) \<noteq> Some i \<Longrightarrow> reg_inv ?r1"
    using assms Some by (intro upd_res_ok [of "{}"]) auto
  have perm: "res_permanent res \<Longrightarrow> reg_inv ?r1"
    using assms Some by (intro upd_res_ok [of "{}"]) (auto simp: timer_ok_def)
  have timer: "reg_inv (upd_res i (\<lambda>res. res\<lparr>res_expires := now + reg_grace r, res_timer := True\<rparr>) ?r1)"
    by (rule upd_res_ok [OF r1]) (auto simp: timer_ok_def)
  have del: "map_of (reg_names r) (res_name res) = Some i \<Longrightarrow> reg_inv (deleteLocked i ?r1)"
    using r1 Some by (intro deleteLocked_ok) (auto simp: live_def)
  show ?thesis
    using Some assms dead perm timer del sh
    by (auto simp: reg_park_def Let_def good_refl
        intro!: good_shrinks shrinks_trans [OF sh] deleteLocked_shrinks upd_res_shrinks)
qed

lemma good_rollback:
  assumes "reg_inv r" "existed \<or> live r i"
  shows "good_step r (reg_rollback now i sess existed r)"
  using assms reg_ok_mono [of "{}" r "{i}"]
  by (auto simp: reg_rollback_def intro: good_park good_refl good_delete split: option.split)

lemma good_expire: "reg_inv r \<Longrightarrow> good_step r (reg_expire i r)"
  using reg_ok_mono [of "{}" r "{i}"]
  by (auto simp: reg_expire_def live_def intro: good_refl good_delete split: option.split)

lemma good_unreserve:
  assumes "reg_inv r"
  shows "good_step r (reg_unreserve name r)"
proof (cases "map_of (reg_names r) name")
  case None
  then show ?thesis using assms by (simp add: reg_unreserve_def good_refl)
next
  case (Some i)
  obtain res where res: "res_at r i = Some res" "res_name res = name"
    using reg_entry [OF assms Some] by (auto simp: entry_ok_def)
  let ?r1 = "upd_res i (\<lambda>res. res\<lparr>res_permanent := False\<rparr>) r"
  have sh: "shrinks r ?r1" by (rule upd_res_shrinks) simp
  have r1: "reg_ok {i} ?r1"
    using assms by (auto intro!: upd_res_ok [of "{}"])
  have conn: "res_session res \<noteq> None \<Longrightarrow> reg_inv ?r1"
    using assms res by (intro upd_res_ok [of "{}"]) (auto simp: timer_ok_def)
  have del: "reg_inv (deleteLocked i ?r1)"
    using r1 Some res by (intro deleteLocked_ok) (auto simp: live_def)
  show ?thesis
    using Some res assms conn del sh
    by (auto simp: reg_unreserve_def Let_def good_refl
        intro!: good_shrinks shrinks_trans [OF sh] deleteLocked_shrinks)
qed

lemma setDomains_ok:
  assumes "reg_inv r" "live r i"
  shows "reg_inv (snd (reg_setDomains i ds r))"
proof (cases "find (\<lambda>d. case map_of (reg_domains r) d of None \<Rightarrow> False | Some j \<Rightarrow> j \<noteq> i) ds")
  case (Some d)
  then show ?thesis
    using assms(1) by (simp add: reg_setDomains_def)
next
  case None
  obtain res where res: "res_at r i = Some res" and nm: "map_of (reg_names r) (res_name res) = Some i"
    using assms(2) by (auto simp: live_def split: option.splits)
  have free: "\<forall>d\<in>set ds. map_of (reg_domains r) d \<in> {None, Some i}"
  proof
    fix d
    assume "d \<in> set ds"
    then show "map_of (reg_domains r) d \<in> {None, Some i}"
      using None unfolding find_None_iff_all by (cases "map_of (reg_domains r) d") fastforce+
  qed
  define m where "m = fold (\<lambda>d. AList.update d i) ds
    (fold (\<lambda>d m. if map_of m d = Some i then AList.delete d m else m) (res_domains res) (reg_domains r))"
  have r': "snd (reg_setDomains i ds r) = (upd_res i (\<lambda>res. res\<lparr>res_domains := ds\<rparr>) r)\<lparr>reg_domains := m\<rparr>"
    using None res by (simp add: reg_setDomains_def Let_def m_def)
  have m: "map_of m d = (if d \<in> set ds then Some i else if map_of (reg_domains r) d = Some i then None
      else map_of (reg_domains r) d)" for d
    using reg_dom [OF assms(1), of d i] res by (auto simp: m_def index_simps)
  have upd: "reg_names (snd (reg_setDomains i ds r)) = reg_names r" "reg_ports (snd (reg_setDomains i ds r)) = reg_ports r"
    "reg_domains (snd (reg_setDomains i ds r)) = m"
    "\<And>j. res_at (snd (reg_setDomains i ds r)) j = (if j = i then Some (res\<lparr>res_domains := ds\<rparr>) else res_at r j)"
    using res by (auto simp: r')
  show ?thesis
    unfolding reg_ok_def upd
  proof (intro conjI allI impI)
    show "map_ok (reg_names r)" "map_ok (reg_ports r)" using assms(1) by (auto simp: reg_ok_def)
    show "map_ok m" using assms(1) by (auto simp: m_def reg_ok_def)
    show "map_ok (reg_heap (snd (reg_setDomains i ds r)))"
      using assms(1) by (auto simp: r' reg_ok_def upd_res_map_ok)
    show "(if j = i then Some (res\<lparr>res_domains := ds\<rparr>) else res_at r j) = None"
      if "reg_next (snd (reg_setDomains i ds r)) \<le> j" for j
      using that reg_fresh [OF assms(1), of j] reg_fresh [OF assms(1), of i] res by (auto simp: r')
    show "\<exists>res'. (if j = i then Some (res\<lparr>res_domains := ds\<rparr>) else res_at r j) = Some res' \<and>
        entry_ok {} (snd (reg_setDomains i ds r)) n j res'" if n: "map_of (reg_names r) n = Some j" for n j
      using reg_entry [OF assms(1) n] res free by (fastforce simp: entry_ok_def upd m timer_ok_def)
    show "\<exists>res'. (if j = i then Some (res\<lparr>res_domains := ds\<rparr>) else res_at r j) = Some res' \<and>
        map_of (reg_names r) (res_name res') = Some j \<and> d \<in> set (res_domains res')" if "map_of m d = Some j" for d j
      using that reg_dom [OF assms(1), of d j] nm by (auto simp: m split: if_splits)
    show "res_port a \<noteq> res_port b" if "map_of (reg_names r) n = Some j" "map_of (reg_names r) k = Some l" "j \<noteq> l"
      "(if j = i then Some (res\<lparr>res_domains := ds\<rparr>) else res_at r j) = Some a"
      "(if l = i then Some (res\<lparr>res_domains := ds\<rparr>) else res_at r l) = Some b" "res_port a \<noteq> 0" for n k j l a b
      using that res reg_ports_differ [OF assms(1) that(1-3)] by (cases "j = i"; cases "l = i") auto
  qed
qed

lemma good_setDomains: "reg_inv r \<Longrightarrow> live r i \<Longrightarrow> good_step r (snd (reg_setDomains i ds r))"
  by (rule good_shrinks [OF setDomains_ok], assumption+)
    (auto simp: reg_setDomains_def Let_def shrinks_def reg_owner_def split: option.split)

text \<open>Giving a live reservation a port no other live reservation has.\<close>

lemma assign_port_ok:
  assumes ok: "reg_ok X r" and res: "res_at r i = Some res" and nm: "map_of (reg_names r) (res_name res) = Some i"
    and others: "\<And>n j res'. map_of (reg_names r) n = Some j \<Longrightarrow> j \<noteq> i \<Longrightarrow> res_at r j = Some res' \<Longrightarrow> res_port res' \<noteq> p"
    and ports: "map_ok ps" "map_of ps p = Some ()"
      "\<And>q. q \<noteq> p \<Longrightarrow> q \<noteq> res_port res \<Longrightarrow> map_of ps q = map_of (reg_ports r) q"
  shows "reg_ok X ((upd_res i (\<lambda>res. res\<lparr>res_port := p\<rparr>) r)\<lparr>reg_ports := ps\<rparr>)" (is "reg_ok X ?r")
proof -
  have upd: "reg_names ?r = reg_names r" "reg_domains ?r = reg_domains r" "reg_ports ?r = ps"
    "\<And>j. res_at ?r j = (if j = i then Some (res\<lparr>res_port := p\<rparr>) else res_at r j)" "reg_next ?r = reg_next r"
    using res by auto
  have keep: "res_port a \<noteq> 0 \<Longrightarrow> res_port a \<noteq> res_port res"
    if "map_of (reg_names r) n = Some j" "j \<noteq> i" "res_at r j = Some a" for n j a
    using reg_port_unique [OF ok that(1) nm that(2,3) res] by blast
  show ?thesis
    unfolding reg_ok_def upd
  proof (intro conjI allI impI)
    show "map_ok (reg_names r)" "map_ok (reg_domains r)" "map_ok ps" "map_ok (reg_heap ?r)"
      using ok ports by (auto simp: reg_ok_def upd_res_map_ok)
    show "(if j = i then Some (res\<lparr>res_port := p\<rparr>) else res_at r j) = None" if "reg_next r \<le> j" for j
      using that reg_fresh [OF ok, of j] res by auto
    show "\<exists>res'. (if j = i then Some (res\<lparr>res_port := p\<rparr>) else res_at r j) = Some res' \<and> entry_ok X ?r n j res'"
      if n: "map_of (reg_names r) n = Some j" for n j
      using reg_entry [OF ok n] res ports others [OF n] keep [OF n] n
      by (cases "j = i") (auto simp: entry_ok_def upd timer_ok_def)
    show "\<exists>res'. (if j = i then Some (res\<lparr>res_port := p\<rparr>) else res_at r j) = Some res' \<and>
        map_of (reg_names r) (res_name res') = Some j \<and> d \<in> set (res_domains res')"
      if "map_of (reg_domains r) d = Some j" for d j
      using reg_dom [OF ok that] res by auto
    show "res_port a \<noteq> res_port b" if "map_of (reg_names r) n = Some j" "map_of (reg_names r) k = Some l" "j \<noteq> l"
      "(if j = i then Some (res\<lparr>res_port := p\<rparr>) else res_at r j) = Some a"
      "(if l = i then Some (res\<lparr>res_port := p\<rparr>) else res_at r l) = Some b" "res_port a \<noteq> 0" for n k j l a b
      using that reg_port_unique [OF ok, of n j k l a b] others [of k l b] others [of n j a]
      by (auto split: if_splits)
  qed
qed

lemma good_setPort:
  assumes "reg_inv r" "live r i" "map_of (reg_ports r) p = Some ()" "unassigned r p"
  shows "good_step r (reg_setPort i p r)"
proof -
  obtain res where res: "res_at r i = Some res" and nm: "map_of (reg_names r) (res_name res) = Some i"
    using assms(2) by (auto simp: live_def split: option.splits)
  have ne: "res_port res \<noteq> p" and others: "\<And>n j res'. map_of (reg_names r) n = Some j \<Longrightarrow> res_at r j = Some res' \<Longrightarrow> res_port res' \<noteq> p"
    using assms(4) res nm by (auto simp: unassigned_iff [OF assms(1)])
  let ?ps = "if res_port res \<noteq> 0 then AList.delete (res_port res) (reg_ports r) else reg_ports r"
  have eq: "reg_setPort i p r = (upd_res i (\<lambda>res. res\<lparr>res_port := p\<rparr>) r)\<lparr>reg_ports := ?ps\<rparr>"
    using res ne by (simp add: reg_setPort_def reg_portOf_def Let_def upd_res_def)
  have "reg_inv (reg_setPort i p r)"
    unfolding eq
  proof (rule assign_port_ok [OF assms(1) res nm])
    show "map_ok ?ps" using assms(1) by (auto simp: reg_ok_def)
    show "map_of ?ps p = Some ()" using assms(3) ne by auto
    show "map_of ?ps q = map_of (reg_ports r) q" if "q \<noteq> p" "q \<noteq> res_port res" for q using that by auto
  qed (rule others)
  then show ?thesis
    by (rule good_shrinks)
      (auto simp: eq shrinks_def reg_owner_def split: option.split)
qed

lemma reg_ok_ports:
  assumes ok: "reg_ok X r" and "map_ok ps"
    and keep: "\<And>n i res. map_of (reg_names r) n = Some i \<Longrightarrow> res_at r i = Some res \<Longrightarrow> res_port res \<noteq> 0 \<Longrightarrow>
      map_of (reg_ports r) (res_port res) = Some () \<Longrightarrow> map_of ps (res_port res) = Some ()"
  shows "reg_ok X (r\<lparr>reg_ports := ps\<rparr>)"
proof -
  have "\<exists>res. res_at r i = Some res \<and> entry_ok X (r\<lparr>reg_ports := ps\<rparr>) n i res"
    if n: "map_of (reg_names r) n = Some i" for n i
    using reg_entry [OF ok n] keep [OF n] by (auto simp: entry_ok_def)
  then show ?thesis
    using ok assms(2) by (simp add: reg_ok_def)
qed

lemma ports_shrinks: "shrinks r (r\<lparr>reg_ports := ps\<rparr>)"
  by (rule shrinks_same) simp_all

lemma good_reservePort: "reg_inv r \<Longrightarrow> good_step r (snd (reg_reservePort p r))"
  by (auto simp: reg_reservePort_def good_refl reg_ok_def
      intro!: good_shrinks reg_ok_ports ports_shrinks)

lemma good_releasePort: "reg_inv r \<Longrightarrow> unassigned r p \<Longrightarrow> good_step r (reg_releasePort p r)"
  unfolding reg_releasePort_def
  by (rule good_shrinks [OF reg_ok_ports ports_shrinks])
    (auto simp: unassigned_iff, simp add: reg_ok_def)

text \<open>The last step of \<open>reserve\<close>: the reservation becomes permanent.\<close>

lemma make_permanent_ok:
  "reg_ok {i} r \<Longrightarrow> reg_inv (upd_res i (\<lambda>res. res\<lparr>res_permanent := True, res_timer := False\<rparr>) r)"
  by (rule upd_res_ok) (auto simp: timer_ok_def)

definition reserve_from :: "nat \<Rightarrow> int \<Rightarrow> nameRegistry \<Rightarrow> nameRegistry" where
  "reserve_from i port r1 =
     (let old = (case res_at r1 i of Some res \<Rightarrow> res_port res | None \<Rightarrow> 0);
          r2 = (if port \<noteq> 0 \<and> old \<noteq> port
                then (upd_res i (\<lambda>res. res\<lparr>res_port := port\<rparr>) r1)\<lparr>
                       reg_ports := AList.update port ()
                         (if old \<noteq> 0 then AList.delete old (reg_ports r1) else reg_ports r1)\<rparr>
                else r1)
      in upd_res i (\<lambda>res. res\<lparr>res_permanent := True, res_timer := False\<rparr>) r2)"

lemma reserve_from_ok:
  assumes ok: "reg_ok {i} r" and res: "res_at r i = Some res" and nm: "map_of (reg_names r) (res_name res) = Some i"
    and free: "port = 0 \<or> res_port res = port \<or> map_of (reg_ports r) port = None"
  shows "reg_inv (reserve_from i port r)" "reg_owner (reserve_from i port r) = reg_owner r"
proof -
  let ?ps = "AList.update port () (if res_port res \<noteq> 0 then AList.delete (res_port res) (reg_ports r) else reg_ports r)"
  have "reg_ok {i} ((upd_res i (\<lambda>res. res\<lparr>res_port := port\<rparr>) r)\<lparr>reg_ports := ?ps\<rparr>)"
    if p: "port \<noteq> 0" "res_port res \<noteq> port"
  proof (rule assign_port_ok [OF ok res nm])
    show "map_ok ?ps" using ok by (auto simp: reg_ok_def)
    show "res_port res' \<noteq> port" if n: "map_of (reg_names r) n = Some j" "res_at r j = Some res'" for n j res'
      using reg_entry [OF ok n(1)] n(2) p free by (auto simp: entry_ok_def)
  qed (use p in auto)
  then show "reg_inv (reserve_from i port r)"
    using ok res by (auto simp: reserve_from_def Let_def intro!: make_permanent_ok)
  have frame: "reg_owner (s\<lparr>reg_ports := ps\<rparr>) = reg_owner s" for s :: nameRegistry and ps
    by (simp add: reg_owner_def fun_eq_iff split: option.split)
  show "reg_owner (reserve_from i port r) = reg_owner r"
    by (simp add: reserve_from_def Let_def upd_res_owner frame)
qed

lemma good_reserve:
  assumes "reg_inv r"
  shows "good_step r (snd (reg_reserve name tok port r))"
proof (cases "map_of (reg_names r) name")
  case (Some i)
  obtain res where res: "res_at r i = Some res" "res_name res = name"
    using reg_entry [OF assms Some] by (auto simp: entry_ok_def)
  have "snd (reg_reserve name tok port r) = r \<or>
      snd (reg_reserve name tok port r) = reserve_from i port r \<and>
      (port = 0 \<or> res_port res = port \<or> map_of (reg_ports r) port = None)"
    using Some res by (auto simp: reg_reserve_def reserve_from_def Let_def)
  then show ?thesis
    using reserve_from_ok [of i r res port] reg_ok_mono [OF assms, of "{i}"] res Some assms
    by (auto simp: good_refl intro!: good_shrinks simp: shrinks_def)
next
  case None
  let ?new = "\<lparr>res_name = name, res_typ = TUNNEL_TYPE_UNSPECIFIED, res_tokenID = tok,
     res_agentID = [], res_port = 0, res_domains = [], res_permanent = False, res_session = None,
     res_tunnel = None, res_timer = False, res_expires = 0\<rparr>"
  obtain i r1 where al: "alloc_res ?new r = (i, r1)" by (cases "alloc_res ?new r")
  have r1: "reg_ok {i} r1 \<and> map_of (reg_names r1) name = Some i \<and> res_at r1 i = Some ?new \<and> reg_ports r1 = reg_ports r"
    using alloc_res_ok [OF assms _ _ _ al, of "{i}"] None by simp
  have step: "snd (reg_reserve name tok port r) = r \<or>
      snd (reg_reserve name tok port r) = reserve_from i port r1 \<and>
      (port = 0 \<or> map_of (reg_ports r) port = None)"
    using None al by (auto simp: reg_reserve_def reserve_from_def Let_def)
  have "good_step r (reserve_from i port r1)" if "port = 0 \<or> map_of (reg_ports r) port = None"
    using reserve_from_ok [of i r1 ?new port] r1 that alloc_owner [OF assms al] owner_None [OF None]
    unfolding good_step_def by (metis option.distinct(1) reservation.select_convs(1))
  then show ?thesis
    using step assms by (auto simp: good_refl)
qed

text \<open>The loops of \<open>releaseToken\<close> and \<open>close\<close> over the names.\<close>

lemma delete_loop:
  assumes "\<And>i s. reg_inv s \<Longrightarrow> live s i \<Longrightarrow>
      f i s = s \<or> f i s = deleteLocked i s \<or>
      f i s = deleteLocked i (upd_res i (\<lambda>res. res\<lparr>res_timer := False\<rparr>) s) \<or>
      (f i s = upd_res i (\<lambda>res. res\<lparr>res_timer := False\<rparr>) s \<and> (\<forall>res. res_at s i = Some res \<longrightarrow> res_permanent res))"
  shows "reg_inv s \<Longrightarrow> distinct (map fst xs) \<Longrightarrow> \<forall>(n, i)\<in>set xs. map_of (reg_names s) n = Some i \<Longrightarrow>
    reg_inv (fold (\<lambda>(_, i). f i) xs s) \<and> shrinks s (fold (\<lambda>(_, i). f i) xs s)"
proof (induction xs arbitrary: s)
  case (Cons x xs)
  obtain n i where x: "x = (n, i)" by (cases x)
  have n: "map_of (reg_names s) n = Some i" using Cons.prems x by auto
  obtain res where res: "res_at s i = Some res" "res_name res = n"
    using reg_entry [OF Cons.prems(1) n] by (auto simp: entry_ok_def)
  have lv: "live s i" using n res by (simp add: live_def)
  let ?s1 = "upd_res i (\<lambda>res. res\<lparr>res_timer := False\<rparr>) s"
  have s1: "reg_ok {i} ?s1" "live ?s1 i" "shrinks s ?s1"
    using Cons.prems(1) n res by (auto simp: live_def intro!: upd_res_ok [of "{}"] upd_res_shrinks)
  have del: "reg_inv (deleteLocked i s) \<and> shrinks s (deleteLocked i s) \<and>
      map_of (reg_names (deleteLocked i s)) = (map_of (reg_names s))(n := None)"
    using deleteLocked_ok [OF reg_ok_mono [OF Cons.prems(1)] lv] deleteLocked_shrinks deleteLocked_names [OF res(1)] n res(2)
    by simp
  have del1: "reg_inv (deleteLocked i ?s1) \<and> shrinks s (deleteLocked i ?s1) \<and>
      map_of (reg_names (deleteLocked i ?s1)) = (map_of (reg_names s))(n := None)"
    using deleteLocked_ok [OF s1(1,2)] shrinks_trans [OF s1(3) deleteLocked_shrinks]
      deleteLocked_names [of ?s1 i "res\<lparr>res_timer := False\<rparr>"] n res
    by simp
  have perm: "reg_inv ?s1" if "\<forall>res. res_at s i = Some res \<longrightarrow> res_permanent res"
    using that Cons.prems(1) by (intro upd_res_ok [of "{}"]) (auto simp: timer_ok_def)
  have step: "reg_inv (f i s) \<and> shrinks s (f i s) \<and>
      (map_of (reg_names (f i s)) = map_of (reg_names s) \<or> map_of (reg_names (f i s)) = (map_of (reg_names s))(n := None))"
    using assms [OF Cons.prems(1) lv] Cons.prems(1) del del1 perm s1(3) by auto
  then have "\<forall>(m, j)\<in>set xs. map_of (reg_names (f i s)) m = Some j"
    using Cons.prems(2,3) x by force
  then have "reg_inv (fold (\<lambda>(_, i). f i) xs (f i s)) \<and> shrinks (f i s) (fold (\<lambda>(_, i). f i) xs (f i s))"
    using Cons.IH [of "f i s"] step Cons.prems(2) x by simp
  then show ?case
    using step x shrinks_trans by auto
qed simp

lemma names_entries: "reg_ok X r \<Longrightarrow> distinct (map fst (reg_names r)) \<and> (\<forall>(n, i)\<in>set (reg_names r). map_of (reg_names r) n = Some i)"
  by (auto simp: reg_ok_def map_ok_def)

definition release_if :: "string \<Rightarrow> nat \<Rightarrow> nameRegistry \<Rightarrow> nameRegistry" where
  "release_if tok i s =
     (case res_at s i of None \<Rightarrow> s | Some res \<Rightarrow> if res_tokenID res = tok then deleteLocked i s else s)"

lemma releaseToken_snd: "snd (reg_releaseToken tok r) = fold (\<lambda>(_, i). release_if tok i) (reg_names r) r"
proof -
  let ?F = "\<lambda>(_, i) (sessions, r').
        case res_at r' i of
          None \<Rightarrow> (sessions, r')
        | Some res \<Rightarrow>
            if res_tokenID res = tok
            then (sessions @ (case res_session res of None \<Rightarrow> [] | Some s \<Rightarrow> [s]), deleteLocked i r')
            else (sessions, r')"
  have "snd (fold ?F xs (ss, s)) = fold (\<lambda>(_, i). release_if tok i) xs s" for xs :: "(string \<times> nat) list" and ss s
    by (induction xs arbitrary: ss s) (auto simp: release_if_def split: option.split)
  then show ?thesis by (simp add: reg_releaseToken_def)
qed

lemma good_releaseToken: "reg_inv r \<Longrightarrow> good_step r (snd (reg_releaseToken tok r))"
  using delete_loop [of "release_if tok" r "reg_names r"] names_entries [of "{}" r]
  by (auto simp: releaseToken_snd release_if_def good_shrinks split: option.split)

lemma good_close: "reg_inv r \<Longrightarrow> good_step r (reg_close r)"
proof -
  assume r: "reg_inv r"
  define f where "f = (\<lambda>i r'. case res_at r' i of
          None \<Rightarrow> r'
        | Some res \<Rightarrow>
            if res_session res = None
            then (let r1 = upd_res i (\<lambda>res. res\<lparr>res_timer := False\<rparr>) r'
                  in if \<not> res_permanent res then deleteLocked i r1 else r1)
            else r')"
  let ?r = "r\<lparr>reg_closed := True\<rparr>"
  have "reg_inv (fold (\<lambda>(_, i). f i) (reg_names r) ?r) \<and> shrinks ?r (fold (\<lambda>(_, i). f i) (reg_names r) ?r)"
    using r names_entries [OF r] by (intro delete_loop) (auto simp: f_def Let_def split: option.split)
  moreover have "reg_close r = fold (\<lambda>(_, i). f i) (reg_names r) ?r"
    by (simp add: reg_close_def f_def)
  ultimately show ?thesis
    by (simp add: good_shrinks shrinks_def)
qed

lemma reg_step_good: "reg_step r r' \<Longrightarrow> reg_inv r \<Longrightarrow> good_step r r'"
  by (induction rule: reg_step.induct)
    (simp_all add: good_claim good_activate good_park good_rollback good_expire good_setDomains good_reserve
      good_unreserve good_releaseToken good_reservePort good_releasePort good_setPort good_close)

interpretation relay: name_holding reg_inv reg_step reg_owner
proof unfold_locales
  show "reg_inv r'" if "reg_inv r" "reg_step r r'" for r r'
    using reg_step_good [OF that(2,1)] by (simp add: good_step_def)
  show "reg_owner r' n = Some t \<or> reg_owner r' n = None"
    if "reg_inv r" "reg_step r r'" "reg_owner r n = Some t" for r r' n t
    using reg_step_good [OF that(2,1)] that(3) by (simp add: good_step_def)
qed

lemma newNameRegistry_inv: "reg_inv (newNameRegistry grace clustered)"
  by (simp add: newNameRegistry_def reg_ok_def)

section \<open>Lookups\<close>

lemma fold_first:
  "fold (\<lambda>w acc. case acc of Some i \<Rightarrow> Some i | None \<Rightarrow> m w) ws acc =
     (case acc of
        Some i \<Rightarrow> Some i
      | None \<Rightarrow> (case find (\<lambda>w. m w \<noteq> None) ws of Some w \<Rightarrow> m w | None \<Rightarrow> None))"
  by (induction ws arbitrary: acc) (auto split: option.split)

lemma domain_res_alt:
  "domain_res r d =
     (case map_of (reg_domains r) d of
        Some i \<Rightarrow> Some i
      | None \<Rightarrow> (case find (\<lambda>w. map_of (reg_domains r) w \<noteq> None) (WildcardsOf d) of
                   Some w \<Rightarrow> map_of (reg_domains r) w | None \<Rightarrow> None))"
  unfolding domain_res_def by (rule fold_first)

lemma find_sorted_first:
  assumes "sorted_wrt (\<lambda>v w. length w < length v) ws" "find P ws = Some w" "v \<in> set ws" "P v"
  shows "length v \<le> length w"
  using assms by (induction ws) (auto split: if_splits)

lemma domain_res_closest:
  assumes "map_of (reg_domains r) d = None" "domain_res r d = Some i"
  shows "\<exists>w. map_of (reg_domains r) w = Some i \<and> covers_host w d \<and>
    (\<forall>v. covers_host v d \<longrightarrow> map_of (reg_domains r) v \<noteq> None \<longrightarrow> length v \<le> length w)"
proof -
  obtain w where w: "find (\<lambda>w. map_of (reg_domains r) w \<noteq> None) (WildcardsOf d) = Some w"
    and i: "map_of (reg_domains r) w = Some i"
    using assms by (auto simp: domain_res_alt split: option.splits)
  have "covers_host w d"
    using find_Some_iff_mem [OF w] by (simp add: WildcardsOf_iff)
  moreover have "length v \<le> length w" if "covers_host v d" "map_of (reg_domains r) v \<noteq> None" for v
    using find_sorted_first [OF WildcardsOf_sorted w] that by (simp add: WildcardsOf_iff)
  ultimately show ?thesis using i by blast
qed

lemma domain_res_none:
  "domain_res r d = None \<longleftrightarrow>
     map_of (reg_domains r) d = None \<and> (\<forall>w. covers_host w d \<longrightarrow> map_of (reg_domains r) w = None)"
proof (cases "find (\<lambda>w. map_of (reg_domains r) w \<noteq> None) (WildcardsOf d)")
  case None
  then have "\<forall>w. covers_host w d \<longrightarrow> map_of (reg_domains r) w = None"
    unfolding find_None_iff_all WildcardsOf_iff [symmetric] by blast
  then show ?thesis
    using None by (simp add: domain_res_alt split: option.split)
next
  case (Some w)
  then have "map_of (reg_domains r) w \<noteq> None" "covers_host w d"
    using find_Some_iff_mem [OF Some] by (simp_all add: WildcardsOf_iff)
  then show ?thesis
    using Some by (auto simp: domain_res_alt split: option.split)
qed

end
