(* ===== verification/Relay_Properties.thy ===== *)
theory Relay_Properties
  imports Relay_Registry_Inv
begin

text \<open>
  The properties of the relay's name registry (\<open>relay/registry.go\<close>), with
  instances on a registry two sessions use.
\<close>

section \<open>Two sessions\<close>

definition exReg0 :: nameRegistry where
  "exReg0 = newNameRegistry 60000000000 False"

definition exReg1 :: nameRegistry where
  "exReg1 = reg_setPort 0 10000 (snd (reg_reservePort 10000
     (snd (reg_claim ''a'' TUNNEL_TYPE_TCP ''t1'' ''g1'' 1 0 exReg0))))"

definition exReg2 :: nameRegistry where
  "exReg2 = snd (reg_setDomains 1 [''*.shop.org''] (snd (reg_claim ''b'' TUNNEL_TYPE_HTTP ''t2'' ''g2'' 2 0 exReg1)))"

lemma step_trans: "reg_step\<^sup>*\<^sup>* r s \<Longrightarrow> reg_step s t \<Longrightarrow> reg_step\<^sup>*\<^sup>* r t"
  by (rule rtranclp.rtrancl_into_rtrancl)

lemma exReg1_steps: "reg_step\<^sup>*\<^sup>* exReg0 exReg1"
proof -
  let ?c = "snd (reg_claim ''a'' TUNNEL_TYPE_TCP ''t1'' ''g1'' 1 0 exReg0)"
  let ?p = "snd (reg_reservePort 10000 ?c)"
  have ok: "live ?p 0" "map_of (reg_ports ?p) 10000 = Some ()" "unassigned ?p 10000" by code_simp+
  have "reg_step\<^sup>*\<^sup>* exReg0 ?c" by (rule r_into_rtranclp) (rule reg_step.claim)
  then have "reg_step\<^sup>*\<^sup>* exReg0 ?p" by (rule step_trans) (rule reg_step.reservePort)
  then show ?thesis unfolding exReg1_def by (rule step_trans) (rule reg_step.setPort, use ok in simp_all)
qed

lemma exReg2_steps: "reg_step\<^sup>*\<^sup>* exReg0 exReg2"
proof -
  let ?c = "snd (reg_claim ''b'' TUNNEL_TYPE_HTTP ''t2'' ''g2'' 2 0 exReg1)"
  have ok: "live ?c 1" by code_simp
  have "reg_step\<^sup>*\<^sup>* exReg0 ?c" using exReg1_steps by (rule step_trans) (rule reg_step.claim)
  then show ?thesis unfolding exReg2_def by (rule step_trans) (rule reg_step.setDomains, rule ok)
qed

section \<open>Properties\<close>



text \<open>
  A reserved name is never handed from one token to another while it is
  held: if a token holds a name of the relay and later does not, the name was
  unreserved in some state in between.
\<close>

theorem relay_name_handover:
  assumes "reg_step\<^sup>*\<^sup>* (newNameRegistry grace clustered) r" "reg_step\<^sup>*\<^sup>* r r'"
    and "reg_owner r n = Some tok" "reg_owner r' n \<noteq> Some tok"
  shows "\<exists>m. reg_step\<^sup>*\<^sup>* r m \<and> reg_step\<^sup>*\<^sup>* m r' \<and> reg_owner m n = None"
proof -
  have "reg_inv r" using relay.keeps_steps [OF assms(1)] newNameRegistry_inv by blast
  then show ?thesis using relay.freed_between assms(2-4) by blast
qed

theorem relay_name_handover_witness:
  "\<exists>m. reg_step\<^sup>*\<^sup>* exReg2 m \<and> reg_step\<^sup>*\<^sup>* m (snd (reg_releaseToken ''t1'' exReg2)) \<and> reg_owner m ''a'' = None"
proof -
  have "reg_owner exReg2 ''a'' = Some ''t1''" "reg_owner (snd (reg_releaseToken ''t1'' exReg2)) ''a'' \<noteq> Some ''t1''"
    by code_simp+
  moreover have "reg_step\<^sup>*\<^sup>* exReg2 (snd (reg_releaseToken ''t1'' exReg2))"
    by (rule r_into_rtranclp) (rule reg_step.releaseToken)
  ultimately show ?thesis using relay_name_handover exReg2_steps [unfolded exReg0_def] by blast
qed

text \<open>
  Domain lookup takes the most specific match: an exact registration
  wins, otherwise the longest registered wildcard that covers the host, and
  it misses only when nothing registered covers the host.
\<close>

theorem domain_lookup_most_specific:
  "(\<forall>i. map_of (reg_domains r) d = Some i \<longrightarrow> domain_res r d = Some i) \<and>
   (\<forall>i. map_of (reg_domains r) d = None \<and> domain_res r d = Some i \<longrightarrow>
      (\<exists>w. map_of (reg_domains r) w = Some i \<and> covers_host w d \<and>
        (\<forall>v. covers_host v d \<longrightarrow> map_of (reg_domains r) v \<noteq> None \<longrightarrow> length v \<le> length w))) \<and>
   (domain_res r d = None \<longleftrightarrow>
      map_of (reg_domains r) d = None \<and> (\<forall>w. covers_host w d \<longrightarrow> map_of (reg_domains r) w = None))"
  using domain_res_closest [of r d] domain_res_none [of r d] by (auto simp: domain_res_alt)

theorem domain_lookup_most_specific_witness:
  "domain_res exReg2 ''eu.shop.org'' = Some 1 \<and>
   (\<exists>w. map_of (reg_domains exReg2) w = Some 1 \<and> covers_host w ''eu.shop.org'')"
proof -
  have "domain_res exReg2 ''eu.shop.org'' = Some 1" "map_of (reg_domains exReg2) ''eu.shop.org'' = None" by code_simp+
  then show ?thesis using domain_lookup_most_specific [of exReg2 "''eu.shop.org''"] by blast
qed

section \<open>Rolling back a released reservation\<close>

definition exRevoked :: nameRegistry where
  "exRevoked = reg_setPort 1 10000 (snd (reg_reservePort 10000
     (snd (reg_claim ''b'' TUNNEL_TYPE_TCP ''t2'' ''g2'' 2 0 (snd (reg_releaseToken ''t1'' exReg1))))))"

text \<open>
  C29. \<open>rollback\<close> of a new reservation checks that the session still has it, not
  that it is still registered.  When the token was revoked meanwhile,
  \<open>deleteLocked\<close> runs a second time and frees a port that now belongs to
  another reservation.
\<close>

theorem rollback_frees_foreign_port:
  "reg_step\<^sup>*\<^sup>* exReg0 exRevoked \<and>
   map_of (reg_names exRevoked) ''b'' = Some 1 \<and> reg_portOf exRevoked 1 = 10000 \<and>
   map_of (reg_ports exRevoked) 10000 = Some () \<and>
   reg_portOf (reg_rollback 0 0 1 False exRevoked) 1 = 10000 \<and>
   map_of (reg_ports (reg_rollback 0 0 1 False exRevoked)) 10000 = None"
proof -
  let ?v = "snd (reg_releaseToken ''t1'' exReg1)"
  let ?c = "snd (reg_claim ''b'' TUNNEL_TYPE_TCP ''t2'' ''g2'' 2 0 ?v)"
  let ?p = "snd (reg_reservePort 10000 ?c)"
  have ok: "live ?p 1" "map_of (reg_ports ?p) 10000 = Some ()" "unassigned ?p 10000" by code_simp+
  have "reg_step\<^sup>*\<^sup>* exReg0 ?v" using exReg1_steps by (rule step_trans) (rule reg_step.releaseToken)
  then have "reg_step\<^sup>*\<^sup>* exReg0 ?c" by (rule step_trans) (rule reg_step.claim)
  then have "reg_step\<^sup>*\<^sup>* exReg0 ?p" by (rule step_trans) (rule reg_step.reservePort)
  then have "reg_step\<^sup>*\<^sup>* exReg0 exRevoked"
    unfolding exRevoked_def by (rule step_trans) (rule reg_step.setPort, use ok in simp_all)
  moreover have "map_of (reg_names exRevoked) ''b'' = Some 1" "reg_portOf exRevoked 1 = 10000"
    "map_of (reg_ports exRevoked) 10000 = Some ()" "reg_portOf (reg_rollback 0 0 1 False exRevoked) 1 = 10000"
    "map_of (reg_ports (reg_rollback 0 0 1 False exRevoked)) 10000 = None" by code_simp+
  ultimately show ?thesis by blast
qed

end
