(* ===== verification/Go_Net.thy ===== *)
theory Go_Net
  imports Go_Strings "HOL-Library.Word"
begin

text \<open>
  Go's \<open>net/netip\<close> addresses and prefixes, and the host/port helpers of
  \<open>net\<close>.  An address is invalid (the zero \<open>Addr\<close>), IPv4, or IPv6 with a zone;
  the parsers follow the standard library's (\<^const>\<open>None\<close> is a parse error).
\<close>

section \<open>Addresses\<close>

datatype Addr =
    AddrInvalid
  | Addr4 "32 word"
  | Addr6 "128 word" string

text \<open>\<open>Unmap\<close> turns an IPv4-mapped IPv6 address \<open>::ffff:a.b.c.d\<close> into \<open>a.b.c.d\<close>.\<close>

definition Is4In6 :: "Addr \<Rightarrow> bool" where
  "Is4In6 a = (case a of Addr6 w z \<Rightarrow> drop_bit 32 w = 0xFFFF | _ \<Rightarrow> False)"

definition Unmap :: "Addr \<Rightarrow> Addr" where
  "Unmap a = (case a of Addr6 w z \<Rightarrow> if drop_bit 32 w = 0xFFFF then Addr4 (ucast w) else a | _ \<Rightarrow> a)"

definition map4in6 :: "32 word \<Rightarrow> Addr" where
  "map4in6 w = Addr6 (or (push_bit 32 (mask 16)) (ucast w)) []"

definition BitLen :: "Addr \<Rightarrow> int" where
  "BitLen a = (case a of AddrInvalid \<Rightarrow> 0 | Addr4 _ \<Rightarrow> 32 | Addr6 _ _ \<Rightarrow> 128)"

section \<open>Prefixes\<close>

record Prefix =
  pfx_addr :: Addr
  pfx_bits :: nat

definition withoutZone :: "Addr \<Rightarrow> Addr" where
  "withoutZone a = (case a of Addr6 w z \<Rightarrow> Addr6 w [] | _ \<Rightarrow> a)"

definition PrefixFrom :: "Addr \<Rightarrow> int \<Rightarrow> Prefix" where
  "PrefixFrom a bits = \<lparr>pfx_addr = withoutZone a, pfx_bits = nat bits\<rparr>"

text \<open>\<open>Masked\<close> clears the host bits.\<close>

definition Masked :: "Prefix \<Rightarrow> Prefix" where
  "Masked p = p\<lparr>pfx_addr :=
     (case pfx_addr p of
        Addr4 w \<Rightarrow> Addr4 (push_bit (32 - pfx_bits p) (drop_bit (32 - pfx_bits p) w))
      | Addr6 w z \<Rightarrow> Addr6 (push_bit (128 - pfx_bits p) (drop_bit (128 - pfx_bits p) w)) z
      | AddrInvalid \<Rightarrow> AddrInvalid)\<rparr>"

text \<open>\<open>Contains\<close>: families must agree and a zoned address is in no prefix.\<close>

definition Contains :: "Prefix \<Rightarrow> Addr \<Rightarrow> bool" where
  "Contains p a =
     (case (pfx_addr p, a) of
        (Addr4 w, Addr4 v) \<Rightarrow> drop_bit (32 - pfx_bits p) w = drop_bit (32 - pfx_bits p) v
      | (Addr6 w _, Addr6 v z) \<Rightarrow> z = [] \<and> drop_bit (128 - pfx_bits p) w = drop_bit (128 - pfx_bits p) v
      | _ \<Rightarrow> False)"

section \<open>Parsing\<close>

definition octet :: "string \<Rightarrow> int option" where
  "octet s =
     (if s \<noteq> [] \<and> list_all is_digit s \<and> length s \<le> 3 \<and> (length s > 1 \<longrightarrow> hd s \<noteq> CHR ''0'') \<and> digits_val s \<le> 255
      then Some (digits_val s) else None)"

definition parseIPv4Fields :: "string \<Rightarrow> int list option" where
  "parseIPv4Fields s =
     (let fs = map octet (Split s CHR ''.'')
      in if length fs = 4 \<and> list_all (\<lambda>f. f \<noteq> None) fs then Some (map the fs) else None)"

definition bytes_word :: "int list \<Rightarrow> 'a::len word" where
  "bytes_word bs = foldl (\<lambda>w b. push_bit 8 w + of_int b) 0 bs"

definition hex_val :: "char \<Rightarrow> int option" where
  "hex_val c =
     (if is_digit c then Some (int (char_code c) - 48)
      else if 97 \<le> char_code c \<and> char_code c \<le> 102 then Some (int (char_code c) - 87)
      else if 65 \<le> char_code c \<and> char_code c \<le> 70 then Some (int (char_code c) - 55)
      else None)"

definition is_hex :: "char \<Rightarrow> bool" where
  "is_hex c \<longleftrightarrow> hex_val c \<noteq> None"

definition hex_word :: "string \<Rightarrow> int" where
  "hex_word s = foldl (\<lambda>a c. 16 * a + the (hex_val c)) 0 s"

text \<open>The loop of \<open>parseIPv6\<close>: the bytes parsed so far and the byte position of
  the ellipsis.\<close>

function parse6 :: "string \<Rightarrow> int list \<Rightarrow> nat option \<Rightarrow> (int list \<times> nat option) option" where
  "parse6 s ip ellipsis =
     (if length ip \<ge> 16 then (if s = [] then Some (ip, ellipsis) else None)
      else let h = takeWhile is_hex s; s1 = dropWhile is_hex s in
      if h = [] \<or> length h > 4 then None
      else if s1 \<noteq> [] \<and> hd s1 = CHR ''.'' then
        (if (ellipsis = None \<and> length ip \<noteq> 12) \<or> length ip + 4 > 16 then None
         else case parseIPv4Fields s of None \<Rightarrow> None | Some fs \<Rightarrow> Some (ip @ fs, ellipsis))
      else let ip' = ip @ [hex_word h div 256, hex_word h mod 256] in
      if s1 = [] then Some (ip', ellipsis)
      else if hd s1 \<noteq> CHR '':'' \<or> tl s1 = [] then None
      else if hd (tl s1) = CHR '':'' then
        (if ellipsis \<noteq> None then None
         else if tl (tl s1) = [] then Some (ip', Some (length ip'))
         else parse6 (tl (tl s1)) ip' (Some (length ip')))
      else parse6 (tl s1) ip' ellipsis)"
  by pat_completeness auto
termination
  by (relation "measure (\<lambda>(s, ip, e). 16 - length ip)") auto

declare parse6.simps [simp del]

definition expand6 :: "int list \<Rightarrow> nat option \<Rightarrow> int list option" where
  "expand6 ip ellipsis =
     (if length ip < 16 then
        (case ellipsis of
           None \<Rightarrow> None
         | Some e \<Rightarrow> Some (take e ip @ replicate (16 - length ip) 0 @ drop e ip))
      else if ellipsis \<noteq> None then None else Some ip)"

definition parseIPv6 :: "string \<Rightarrow> Addr option" where
  "parseIPv6 inp =
     (let (s, zone, zoned) = Cut inp CHR ''%'' in
      if zoned \<and> zone = [] then None
      else let lead = HasPrefix s ''::''; s1 = (if lead then drop 2 s else s) in
      if lead \<and> s1 = [] then Some (Addr6 0 zone)
      else case parse6 s1 [] (if lead then Some 0 else None) of
             None \<Rightarrow> None
           | Some (ip, ellipsis) \<Rightarrow>
               map_option (\<lambda>bs. Addr6 (bytes_word bs) zone) (expand6 ip ellipsis))"

definition ParseAddr :: "string \<Rightarrow> Addr option" where
  "ParseAddr s =
     (case find (\<lambda>c. c = CHR ''.'' \<or> c = CHR '':'' \<or> c = CHR ''%'') s of
        None \<Rightarrow> None
      | Some c \<Rightarrow>
          if c = CHR ''.'' then map_option (\<lambda>bs. Addr4 (bytes_word bs)) (parseIPv4Fields s)
          else if c = CHR '':'' then parseIPv6 s
          else None)"

definition has_zone :: "Addr \<Rightarrow> bool" where
  "has_zone a = (case a of Addr6 _ z \<Rightarrow> z \<noteq> [] | _ \<Rightarrow> False)"

text \<open>\<open>netip.ParsePrefix\<close>, cut at the last slash.\<close>

definition netip_ParsePrefix :: "string \<Rightarrow> Prefix option" where
  "netip_ParsePrefix s =
     (let (rb, ra, found) = Cut (rev s) CHR ''/''; ip = rev ra; bitsStr = rev rb in
      if \<not> found then None
      else case ParseAddr ip of
             None \<Rightarrow> None
           | Some a \<Rightarrow>
               if has_zone a then None
               else if length bitsStr > 1 \<and> \<not> (49 \<le> char_code (hd bitsStr) \<and> char_code (hd bitsStr) \<le> 57) then None
               else case Atoi bitsStr of
                      None \<Rightarrow> None
                    | Some bits \<Rightarrow> if bits < 0 \<or> bits > BitLen a then None else Some (PrefixFrom a bits))"

section \<open>Host and port\<close>

definition JoinHostPort :: "string \<Rightarrow> int \<Rightarrow> string" where
  "JoinHostPort host port =
     (if CHR '':'' \<in> set host then CHR ''['' # host @ '']:'' @ Itoa port else host @ '':'' @ Itoa port)"

definition String4 :: "32 word \<Rightarrow> string" where
  "String4 w = Join (map (\<lambda>k. dec_digits (unat (drop_bit (8 * k) w) mod 256)) [3, 2, 1, 0]) ''.''"

section \<open>Lemmas\<close>

lemma Unmap_simps [simp]: "Unmap (Addr4 w) = Addr4 w" "Unmap AddrInvalid = AddrInvalid"
  by (simp_all add: Unmap_def)

lemma Unmap_idem [simp]: "Unmap (Unmap a) = Unmap a"
  by (cases a) (simp_all add: Unmap_def)

lemma Unmap_map4in6 [simp]: "Unmap (map4in6 w) = Addr4 w"
proof -
  let ?m = "or (push_bit 32 (mask 16)) (ucast w) :: 128 word"
  have "drop_bit 32 ?m = mask 16"
    by (rule bit_eqI) (auto simp: bit_simps dest: bit_imp_le_length)
  then have "drop_bit 32 ?m = 0xFFFF" by (simp add: mask_eq_exp_minus_1)
  moreover have "(ucast ?m :: 32 word) = w"
    by (rule bit_eqI) (auto simp: bit_simps dest: bit_imp_le_length)
  ultimately show ?thesis by (simp add: Unmap_def map4in6_def)
qed

lemma Contains_full: "Contains (PrefixFrom (Addr4 w) 32) (Addr4 v) \<longleftrightarrow> v = w"
  by (auto simp: Contains_def PrefixFrom_def withoutZone_def)

end
