(* ===== verification/Auth_Access.thy ===== *)
theory Auth_Access
  imports Protocol_Names Go_Net Go_Hash
begin

text \<open>
  \<open>go/tunnel/auth/access.go\<close>: a tunnel's access policy: IP lists, basic
  auth with its cache of verified credentials, the mode B access token and
  the OIDC rule.  bcrypt is third-party code and a parameter: \<open>cost_ok h\<close> says
  that \<open>bcrypt.Cost\<close> accepts the hash \<open>h\<close>, and \<open>compare h pw\<close> that
  \<open>bcrypt.CompareHashAndPassword\<close> returns no error.  Times are nanoseconds.
\<close>

section \<open>Messages\<close>

record BasicUser =
  Username :: string
  BcryptHash :: string

record OIDCPolicy =
  op_Provider :: string
  AllowEmails :: "string list"
  AllowDomains :: "string list"

record AccessPolicy =
  AllowIps :: "string list"
  DenyIps :: "string list"
  BasicUsers :: "BasicUser list"
  AccessTokenSha256 :: string
  Oidc :: "OIDCPolicy option"

section \<open>State\<close>

record OIDCRule =
  Provider :: string
  Emails :: "string list"
  oidc_Domains :: "string list"

record Access =
  ac_allow :: "Prefix list"
  ac_deny :: "Prefix list"
  ac_users :: "(string, string) gomap"
  ac_tokenHash :: string
  ac_oidc :: "OIDCRule option"
  ac_verified :: "(string, int) gomap"

datatype AccessError =
    BadAllowIP
  | BadDenyIP
  | BadUsername string
  | NotABcryptHash string
  | DuplicateUser string
  | OIDCProviderRequired
  | NotAnEmail string
  | NotADomain string
  | OIDCNeedsAllowList
  | BadTokenHashLength
  | PublicPortNotTcp
  | BasicNotHttp
  | OIDCNotHttp
  | BasicAndOIDC
  | TokenNotTcp
  | TokenWithPublicPort

section \<open>Parsing\<close>

definition ParsePrefix :: "string \<Rightarrow> Prefix option" where
  "ParsePrefix s =
     (if CHR ''/'' \<in> set s then map_option Masked (netip_ParsePrefix s)
      else map_option (\<lambda>addr. PrefixFrom (Unmap addr) (BitLen (Unmap addr))) (ParseAddr s))"

fun ParsePrefixes :: "string list \<Rightarrow> Prefix list option" where
  "ParsePrefixes [] = Some []"
| "ParsePrefixes (s # ss) =
     (case ParsePrefix s of
        None \<Rightarrow> None
      | Some p \<Rightarrow> map_option ((#) p) (ParsePrefixes ss))"

text \<open>The loop over \<open>GetBasicUsers()\<close>.\<close>

fun parseUsers :: "(string \<Rightarrow> bool) \<Rightarrow> BasicUser list \<Rightarrow> (string, string) gomap \<Rightarrow> (AccessError, (string, string) gomap) result" where
  "parseUsers cost_ok [] users = Ok users"
| "parseUsers cost_ok (u # us) users =
     (if Username u = [] \<or> CHR '':'' \<in> set (Username u) then Err (BadUsername (Username u))
      else if \<not> cost_ok (BcryptHash u) then Err (NotABcryptHash (Username u))
      else if map_of users (Username u) \<noteq> None then Err (DuplicateUser (Username u))
      else parseUsers cost_ok us (AList.update (Username u) (BcryptHash u) users))"

definition oidc_email :: "string \<Rightarrow> string" where
  "oidc_email e = ToLower (TrimSpace e)"

definition oidc_domain :: "string \<Rightarrow> string" where
  "oidc_domain d = ToLower (fst (CutPrefix (TrimSpace d) ''@''))"

definition parseOIDC :: "OIDCPolicy \<Rightarrow> (AccessError, OIDCRule) result" where
  "parseOIDC p =
     (if op_Provider p = [] then Err OIDCProviderRequired
      else case find (\<lambda>e. CHR ''@'' \<notin> set e) (map oidc_email (AllowEmails p)) of
             Some e \<Rightarrow> Err (NotAnEmail e)
           | None \<Rightarrow>
          (case find (\<lambda>d. d = [] \<or> CHR ''@'' \<in> set d) (map oidc_domain (AllowDomains p)) of
             Some d \<Rightarrow> Err (NotADomain d)
           | None \<Rightarrow>
               if AllowEmails p = [] \<and> AllowDomains p = [] then Err OIDCNeedsAllowList
               else Ok \<lparr>Provider = op_Provider p,
                        Emails = map oidc_email (AllowEmails p),
                        oidc_Domains = map oidc_domain (AllowDomains p)\<rparr>))"

text \<open>A nil policy reads as the empty one (the protobuf getters).\<close>

definition nilPolicy :: AccessPolicy where
  "nilPolicy = \<lparr>AllowIps = [], DenyIps = [], BasicUsers = [], AccessTokenSha256 = [], Oidc = None\<rparr>"

definition ParseAccess :: "(string \<Rightarrow> bool) \<Rightarrow> AccessPolicy \<Rightarrow> (AccessError, Access) result" where
  "ParseAccess cost_ok p =
     (case ParsePrefixes (AllowIps p) of
        None \<Rightarrow> Err BadAllowIP
      | Some allow \<Rightarrow>
     (case ParsePrefixes (DenyIps p) of
        None \<Rightarrow> Err BadDenyIP
      | Some deny \<Rightarrow>
     (case parseUsers cost_ok (BasicUsers p) [] of
        Inl e \<Rightarrow> Err e
      | Inr users \<Rightarrow>
     (case (case Oidc p of None \<Rightarrow> Ok None | Some o' \<Rightarrow> map_sum id Some (parseOIDC o')) of
        Inl e \<Rightarrow> Err e
      | Inr rule \<Rightarrow>
          if AccessTokenSha256 p \<noteq> [] \<and> length (AccessTokenSha256 p) \<noteq> 32 then Err BadTokenHashLength
          else Ok \<lparr>ac_allow = allow, ac_deny = deny, ac_users = users,
                   ac_tokenHash = AccessTokenSha256 p, ac_oidc = rule, ac_verified = []\<rparr>))))"

section \<open>Checks\<close>

definition AllowsIP :: "Access \<Rightarrow> Addr \<Rightarrow> bool" where
  "AllowsIP a addr =
     (let addr' = Unmap addr in
      if list_ex (\<lambda>p. Contains p addr') (ac_deny a) then False
      else if ac_allow a = [] then True
      else list_ex (\<lambda>p. Contains p addr') (ac_allow a))"

definition RequiresBasic :: "Access \<Rightarrow> bool" where
  "RequiresBasic a \<longleftrightarrow> length (ac_users a) > 0"

definition basicCacheTTL :: int where
  "basicCacheTTL = 5 * 60 * 10 ^ 9"

definition credential :: "string \<Rightarrow> string \<Rightarrow> string" where
  "credential user password = user @ char_of (0 :: nat) # password"

text \<open>The result, and the policy with its cache updated.  \<open>now\<close> is the one
  clock reading of the method.\<close>

definition cache_hit :: "Access \<Rightarrow> int \<Rightarrow> string \<Rightarrow> bool" where
  "cache_hit a now digest \<longleftrightarrow>
     (case map_of (ac_verified a) digest of None \<Rightarrow> False | Some expiry \<Rightarrow> now < expiry)"

definition CheckBasic :: "(string \<Rightarrow> string \<Rightarrow> bool) \<Rightarrow> int \<Rightarrow> string \<Rightarrow> string \<Rightarrow> Access \<Rightarrow> bool \<times> Access" where
  "CheckBasic compare now user password a =
     (let digest = Sum256 (credential user password) in
      if cache_hit a now digest then (True, a)
      else case map_of (ac_users a) user of
             None \<Rightarrow> (False, a)
           | Some hash \<Rightarrow>
               if \<not> compare hash password then (False, a)
               else (True, a\<lparr>ac_verified :=
                 AList.update digest (now + basicCacheTTL)
                   (filter (\<lambda>(d, exp). \<not> now > exp) (ac_verified a))\<rparr>))"

definition RequiresToken :: "Access \<Rightarrow> bool" where
  "RequiresToken a \<longleftrightarrow> length (ac_tokenHash a) > 0"

definition CheckToken :: "Access \<Rightarrow> string \<Rightarrow> bool" where
  "CheckToken a token \<longleftrightarrow> Sum256 token = ac_tokenHash a"

definition HashAccessToken :: "string \<Rightarrow> string" where
  "HashAccessToken token = Sum256 token"

definition tcpLike :: "TunnelType \<Rightarrow> bool" where
  "tcpLike t \<longleftrightarrow> t = TUNNEL_TYPE_TCP \<or> t = TUNNEL_TYPE_SSH"

definition ValidateSpecAccess ::
    "(string \<Rightarrow> bool) \<Rightarrow> TunnelType \<Rightarrow> int \<Rightarrow> AccessPolicy \<Rightarrow> (AccessError, Access) result" where
  "ValidateSpecAccess cost_ok t publicPort p =
     (if \<not> tcpLike t \<and> publicPort \<noteq> 0 then Err PublicPortNotTcp
      else case ParseAccess cost_ok p of
             Inl e \<Rightarrow> Err e
           | Inr a \<Rightarrow>
               if RequiresBasic a \<and> t \<noteq> TUNNEL_TYPE_HTTP then Err BasicNotHttp
               else if ac_oidc a \<noteq> None \<and> t \<noteq> TUNNEL_TYPE_HTTP then Err OIDCNotHttp
               else if ac_oidc a \<noteq> None \<and> RequiresBasic a then Err BasicAndOIDC
               else if RequiresToken a \<and> \<not> tcpLike t then Err TokenNotTcp
               else if RequiresToken a \<and> publicPort \<noteq> 0 then Err TokenWithPublicPort
               else Ok a)"

text \<open>\<open>strings.LastIndex(email, "@")\<close>: what follows the last \<open>@\<close>, if there is one.\<close>

definition after_last_at :: "string \<Rightarrow> string option" where
  "after_last_at s = (if CHR ''@'' \<in> set s then Some (rev (takeWhile (\<lambda>c. c \<noteq> CHR ''@'') (rev s))) else None)"

definition OIDCRule_Allows :: "OIDCRule \<Rightarrow> string \<Rightarrow> bool" where
  "OIDCRule_Allows r email0 =
     (let email = ToLower email0 in
      if email \<in> set (Emails r) then True
      else case after_last_at email of None \<Rightarrow> False | Some d \<Rightarrow> d \<in> set (oidc_Domains r))"

section \<open>IP lists\<close>

lemma AllowsIP_iff:
  "AllowsIP a addr \<longleftrightarrow>
     (\<forall>p\<in>set (ac_deny a). \<not> Contains p (Unmap addr)) \<and>
     (ac_allow a = [] \<or> (\<exists>p\<in>set (ac_allow a). Contains p (Unmap addr)))"
  by (auto simp: AllowsIP_def Let_def list_ex_iff)

lemma AllowsIP_Unmap: "AllowsIP a (Unmap addr) = AllowsIP a addr"
  by (simp add: AllowsIP_def)

lemma drop_push_drop [simp]: "drop_bit n (push_bit n (drop_bit n w)) = drop_bit n (w :: 'a::len word)"
  by (rule bit_eqI) (auto simp: bit_simps dest: bit_imp_le_length)

lemma Contains_Masked [simp]: "Contains (Masked p) a = Contains p a"
  by (auto simp: Contains_def Masked_def split: Addr.splits)

text \<open>A list entry without a slash stands for exactly the address it names,
  whether written as IPv4 or as IPv4-mapped IPv6.\<close>

lemma ParsePrefix_address:
  assumes "CHR ''/'' \<notin> set s" "ParseAddr s = Some a"
  obtains p where "ParsePrefix s = Some p" "\<And>x. Contains p x \<longleftrightarrow> x \<noteq> AddrInvalid \<and> x = withoutZone (Unmap a)"
proof
  show "ParsePrefix s = Some (PrefixFrom (Unmap a) (BitLen (Unmap a)))"
    using assms by (simp add: ParsePrefix_def)
  show "Contains (PrefixFrom (Unmap a) (BitLen (Unmap a))) x \<longleftrightarrow> x \<noteq> AddrInvalid \<and> x = withoutZone (Unmap a)" for x
    by (cases "Unmap a"; cases x) (auto simp: Contains_def PrefixFrom_def withoutZone_def BitLen_def)
qed

text \<open>An IPv4-mapped CIDR parses, but contains no client address: the client's
  address is unmapped before it is compared.\<close>

definition mapped_prefix :: "Prefix \<Rightarrow> bool" where
  "mapped_prefix p \<longleftrightarrow> Is4In6 (pfx_addr p) \<and> pfx_bits p \<ge> 96 \<and> pfx_bits p \<le> 128"

lemma mapped_prefix_empty:
  assumes "mapped_prefix p"
  shows "\<not> Contains p (Unmap x)"
proof
  assume c: "Contains p (Unmap x)"
  obtain w z where w: "pfx_addr p = Addr6 w z" "drop_bit 32 w = 0xFFFF"
    using assms by (auto simp: mapped_prefix_def Is4In6_def split: Addr.splits)
  obtain v where v: "Unmap x = Addr6 v []" "drop_bit (128 - pfx_bits p) w = drop_bit (128 - pfx_bits p) v"
    using c w(1) by (cases "Unmap x") (auto simp: Contains_def)
  have le: "128 - pfx_bits p \<le> 32" using assms unfolding mapped_prefix_def by linarith
  have "drop_bit 32 u = drop_bit (32 - (128 - pfx_bits p)) (drop_bit (128 - pfx_bits p) u)" for u :: "128 word"
    using le by (simp add: drop_bit_drop_bit)
  then have "drop_bit 32 v = 0xFFFF" using w(2) v(2) by metis
  moreover have "drop_bit 32 v \<noteq> 0xFFFF"
    using v(1) by (cases x) (auto simp: Unmap_def split: if_splits)
  ultimately show False by simp
qed

section \<open>Basic auth\<close>

text \<open>What the policy promises, without the cache.\<close>

definition valid_login :: "(string \<Rightarrow> string \<Rightarrow> bool) \<Rightarrow> Access \<Rightarrow> string \<Rightarrow> string \<Rightarrow> bool" where
  "valid_login compare a user password \<longleftrightarrow>
     (case map_of (ac_users a) user of None \<Rightarrow> False | Some hash \<Rightarrow> compare hash password)"

definition cache_ok :: "(string \<Rightarrow> string \<Rightarrow> bool) \<Rightarrow> Access \<Rightarrow> bool" where
  "cache_ok compare a \<longleftrightarrow>
     map_ok (ac_verified a) \<and>
     (\<forall>d\<in>fst ` set (ac_verified a). \<exists>u pw. d = Sum256 (credential u pw) \<and> valid_login compare a u pw)"

lemma CheckBasic_users [simp]: "ac_users (snd (CheckBasic compare now user pw a)) = ac_users a"
  by (simp add: CheckBasic_def Let_def split: option.split)

lemma valid_login_CheckBasic [simp]:
  "valid_login compare (snd (CheckBasic c now user pw a)) = valid_login compare a"
  by (simp add: valid_login_def fun_eq_iff)

lemma CheckBasic_cache_ok:
  assumes "cache_ok compare a"
  shows "cache_ok compare (snd (CheckBasic compare now user pw a))"
proof -
  let ?r = "snd (CheckBasic compare now user pw a)"
  let ?f = "filter (\<lambda>(d, exp). \<not> now > exp) (ac_verified a)"
  have "?r = a \<or>
      ac_verified ?r = AList.update (Sum256 (credential user pw)) (now + basicCacheTTL) ?f \<and> valid_login compare a user pw"
    by (cases "cache_hit a now (Sum256 (credential user pw))"; cases "map_of (ac_users a) user")
      (simp_all add: CheckBasic_def Let_def valid_login_def)
  then show ?thesis
  proof
    assume 2: "ac_verified ?r = AList.update (Sum256 (credential user pw)) (now + basicCacheTTL) ?f \<and> valid_login compare a user pw"
    have "map_ok ?f" using assms by (auto simp: cache_ok_def map_ok_def distinct_map_filter)
    then have "map_ok (ac_verified ?r)" using 2 by (simp add: map_ok_def distinct_update)
    moreover have "fst ` set (ac_verified ?r) \<subseteq> insert (Sum256 (credential user pw)) (fst ` set (ac_verified a))"
      using 2 by (auto simp: dom_update)
    ultimately show ?thesis using assms 2 unfolding cache_ok_def valid_login_CheckBasic by blast
  qed (use assms in simp)
qed

fun attempts :: "(string \<Rightarrow> string \<Rightarrow> bool) \<Rightarrow> (int \<times> string \<times> string) list \<Rightarrow> Access \<Rightarrow> Access" where
  "attempts compare [] a = a"
| "attempts compare ((now, user, pw) # as) a = attempts compare as (snd (CheckBasic compare now user pw a))"

lemma attempts_valid_login [simp]: "valid_login compare (attempts compare as a) = valid_login compare a"
  by (induction compare as a rule: attempts.induct) simp_all

lemma attempts_cache_ok: "cache_ok compare a \<Longrightarrow> cache_ok compare (attempts compare as a)"
  by (induction compare as a rule: attempts.induct) (simp_all add: CheckBasic_cache_ok)

lemma ParseAccess_cache_ok: "ParseAccess cost_ok p = Ok a \<Longrightarrow> cache_ok compare a"
  by (auto simp: ParseAccess_def cache_ok_def map_ok_def split: option.splits sum.splits if_splits)

lemma CheckBasic_complete: "valid_login compare a user pw \<Longrightarrow> fst (CheckBasic compare now user pw a)"
  by (cases "map_of (ac_users a) user") (simp_all add: CheckBasic_def Let_def valid_login_def)

lemma CheckBasic_sound:
  assumes "cache_ok compare a" "fst (CheckBasic compare now user pw a)"
  shows "\<exists>u p. Sum256 (credential u p) = Sum256 (credential user pw) \<and> valid_login compare a u p"
proof (cases "map_of (ac_verified a) (Sum256 (credential user pw))")
  case None
  then have "valid_login compare a user pw"
    using assms(2)
    by (cases "map_of (ac_users a) user")
      (simp_all add: CheckBasic_def Let_def valid_login_def cache_hit_def split: if_splits)
  then show ?thesis by blast
next
  case (Some e)
  then have "Sum256 (credential user pw) \<in> fst ` set (ac_verified a)"
    by (metis map_of_SomeD fst_conv image_eqI)
  then show ?thesis using assms(1) unfolding cache_ok_def by metis
qed

lemma credential_inj:
  "char_of (0 :: nat) \<notin> set u \<Longrightarrow> char_of (0 :: nat) \<notin> set v \<Longrightarrow> credential u p = credential v q \<longleftrightarrow> u = v \<and> p = q"
proof (induction u arbitrary: v)
  case Nil then show ?case by (cases v) (auto simp: credential_def)
next
  case (Cons c u) then show ?case by (cases v) (auto simp: credential_def)
qed

section \<open>OIDC\<close>

lemma after_last_at_iff:
  "CHR ''@'' \<notin> set d \<Longrightarrow> after_last_at s = Some d \<longleftrightarrow> (\<exists>l. s = l @ CHR ''@'' # d)"
proof
  assume a: "after_last_at s = Some d"
  let ?t = "takeWhile (\<lambda>c. c \<noteq> CHR ''@'') (rev s)" and ?r = "dropWhile (\<lambda>c. c \<noteq> CHR ''@'') (rev s)"
  have mem: "CHR ''@'' \<in> set s" and d: "d = rev ?t" using a by (auto simp: after_last_at_def split: if_splits)
  have "?r \<noteq> []" using mem by (auto simp: dropWhile_eq_Nil_conv)
  then have "hd ?r = CHR ''@''" using hd_dropWhile [of "\<lambda>c. c \<noteq> CHR ''@''" "rev s"] by simp
  then obtain r where r: "?r = CHR ''@'' # r" using \<open>?r \<noteq> []\<close> by (cases ?r) simp_all
  have "rev (?t @ ?r) = s" by (simp only: takeWhile_dropWhile_id rev_rev_ident)
  then have "s = rev ?r @ rev ?t" by (simp only: rev_append)
  then show "\<exists>l. s = l @ CHR ''@'' # d" using r d by auto
next
  assume free: "CHR ''@'' \<notin> set d" and "\<exists>l. s = l @ CHR ''@'' # d"
  then obtain l where s: "s = l @ CHR ''@'' # d" by blast
  have "takeWhile (\<lambda>c. c \<noteq> CHR ''@'') (rev d @ CHR ''@'' # rev l) = rev d"
    using free by (subst takeWhile_append2) auto
  then show "after_last_at s = Some d" by (simp add: after_last_at_def s)
qed

lemma parseOIDC_Ok:
  assumes "parseOIDC p = Ok r"
  shows "Emails r = map oidc_email (AllowEmails p)" "oidc_Domains r = map oidc_domain (AllowDomains p)"
    and "\<forall>d\<in>set (AllowDomains p). oidc_domain d \<noteq> [] \<and> CHR ''@'' \<notin> set (oidc_domain d)"
    and "AllowEmails p \<noteq> [] \<or> AllowDomains p \<noteq> []"
  using assms by (auto simp: parseOIDC_def find_None_iff split: if_splits option.splits)

lemma OIDCRule_Allows_iff:
  assumes "parseOIDC p = Ok r"
  shows "OIDCRule_Allows r email \<longleftrightarrow>
    (\<exists>e\<in>set (AllowEmails p). ToLower email = oidc_email e) \<or>
    (\<exists>d\<in>set (AllowDomains p). \<exists>l. ToLower email = l @ CHR ''@'' # oidc_domain d)"
proof -
  have "(case after_last_at (ToLower email) of None \<Rightarrow> False | Some d \<Rightarrow> d \<in> set (oidc_Domains r))
     \<longleftrightarrow> (\<exists>d\<in>set (AllowDomains p). after_last_at (ToLower email) = Some (oidc_domain d))"
    by (auto simp: parseOIDC_Ok(2) [OF assms] split: option.splits)
  also have "\<dots> \<longleftrightarrow> (\<exists>d\<in>set (AllowDomains p). \<exists>l. ToLower email = l @ CHR ''@'' # oidc_domain d)"
    using parseOIDC_Ok(3) [OF assms] after_last_at_iff by blast
  finally show ?thesis by (auto simp: OIDCRule_Allows_def Let_def parseOIDC_Ok(1) [OF assms])
qed

section \<open>The table of access modes\<close>

lemma ValidateSpecAccess_Ok_iff:
  "ValidateSpecAccess cost_ok t port p = Ok a \<longleftrightarrow>
     ParseAccess cost_ok p = Ok a \<and>
     (port \<noteq> 0 \<longrightarrow> tcpLike t \<and> \<not> RequiresToken a) \<and>
     (RequiresBasic a \<longrightarrow> t = TUNNEL_TYPE_HTTP \<and> ac_oidc a = None) \<and>
     (ac_oidc a \<noteq> None \<longrightarrow> t = TUNNEL_TYPE_HTTP) \<and>
     (RequiresToken a \<longrightarrow> tcpLike t)"
  by (cases "ParseAccess cost_ok p") (auto simp: ValidateSpecAccess_def split: if_split)

end
