(* ===== verification/Auth_Limiter.thy ===== *)
theory Auth_Limiter
  imports Prelude Go_Net Complex_Main
begin

text \<open>
  \<open>go/tunnel/auth/ratelimit.go\<close>: a token bucket per client address.  The
  \<open>float64\<close> token counts are exact rationals here, so rounding is not
  modelled; times are nanoseconds.  The \<open>*bucket\<close> a method updates in place is
  the entry of the map.
\<close>

section \<open>Definitions\<close>

record bucket =
  tokens :: rat
  last_seen :: int

record IPLimiter =
  rate :: rat
  burst :: rat
  buckets :: "(Addr, bucket) gomap"
  lastSweep :: int

definition Seconds :: "int \<Rightarrow> rat" where
  "Seconds d = of_int d / 10 ^ 9"

definition Minute :: int where
  "Minute = 60 * 10 ^ 9"

definition NewIPLimiter :: "rat \<Rightarrow> int \<Rightarrow> int \<Rightarrow> IPLimiter" where
  "NewIPLimiter perSecond b now = \<lparr>rate = perSecond, burst = of_int b, buckets = [], lastSweep = now\<rparr>"

definition limiter_sweep :: "int \<Rightarrow> IPLimiter \<Rightarrow> IPLimiter" where
  "limiter_sweep now l =
     l\<lparr>buckets := filter (\<lambda>(ip, b). \<not> tokens b + Seconds (now - last_seen b) * rate l \<ge> burst l) (buckets l),
       lastSweep := now\<rparr>"

definition refill :: "Addr \<Rightarrow> int \<Rightarrow> IPLimiter \<Rightarrow> bucket \<times> IPLimiter" where
  "refill ip now l0 =
     (let l = (if now - lastSweep l0 > Minute then limiter_sweep now l0 else l0);
          b = (case map_of (buckets l) ip of
                 None \<Rightarrow> \<lparr>tokens = burst l, last_seen = now\<rparr>
               | Some b \<Rightarrow>
                   let t = tokens b + Seconds (now - last_seen b) * rate l
                   in \<lparr>tokens = (if t > burst l then burst l else t), last_seen = now\<rparr>)
      in (b, l\<lparr>buckets := AList.update ip b (buckets l)\<rparr>))"

definition Allow :: "Addr \<Rightarrow> int \<Rightarrow> IPLimiter \<Rightarrow> bool \<times> IPLimiter" where
  "Allow ip now l =
     (let (b, l') = refill (Unmap ip) now l in
      if tokens b < 1 then (False, l')
      else (True, l'\<lparr>buckets := AList.update (Unmap ip) (b\<lparr>tokens := tokens b - 1\<rparr>) (buckets l')\<rparr>))"

definition Exhausted :: "Addr \<Rightarrow> int \<Rightarrow> IPLimiter \<Rightarrow> bool \<times> IPLimiter" where
  "Exhausted ip now l = (let (b, l') = refill (Unmap ip) now l in (tokens b < 1, l'))"

section \<open>The tokens an address has\<close>

definition avail :: "IPLimiter \<Rightarrow> Addr \<Rightarrow> int \<Rightarrow> rat" where
  "avail l ip t =
     (case map_of (buckets l) ip of
        None \<Rightarrow> burst l
      | Some b \<Rightarrow> min (burst l) (tokens b + Seconds (t - last_seen b) * rate l))"

definition lim_ok :: "IPLimiter \<Rightarrow> bool" where
  "lim_ok l \<longleftrightarrow> rate l \<ge> 0 \<and> map_ok (buckets l)"

lemma Seconds_mono: "s \<le> t \<Longrightarrow> Seconds s \<le> Seconds t"
  by (simp add: Seconds_def divide_right_mono)

lemma Seconds_add: "Seconds (s + t) = Seconds s + Seconds t"
  by (simp add: Seconds_def add_divide_distrib)

lemma Seconds_nonneg: "0 \<le> t \<Longrightarrow> 0 \<le> Seconds t"
  by (simp add: Seconds_def)

lemma Seconds_zero [simp]: "Seconds 0 = 0"
  by (simp add: Seconds_def)

lemma avail_le_burst: "avail l ip t \<le> burst l"
  by (simp add: avail_def split: option.split)

lemma avail_grows:
  assumes "rate l \<ge> 0" "t \<le> t'"
  shows "avail l ip t \<le> avail l ip t'" "avail l ip t' \<le> avail l ip t + Seconds (t' - t) * rate l"
proof -
  have nn: "0 \<le> Seconds (t' - t) * rate l"
    using assms by (simp add: Seconds_nonneg)
  show "avail l ip t \<le> avail l ip t'" "avail l ip t' \<le> avail l ip t + Seconds (t' - t) * rate l"
  proof (atomize (full), cases "map_of (buckets l) ip")
    case (Some b)
    have "Seconds (t' - last_seen b) = Seconds (t - last_seen b) + Seconds (t' - t)"
      using Seconds_add [of "t - last_seen b" "t' - t"] by simp
    then have "Seconds (t' - last_seen b) * rate l = Seconds (t - last_seen b) * rate l + Seconds (t' - t) * rate l"
      by (simp add: distrib_right)
    then show "avail l ip t \<le> avail l ip t' \<and> avail l ip t' \<le> avail l ip t + Seconds (t' - t) * rate l"
      using nn Some by (simp add: avail_def min_def)
  qed (use nn in \<open>simp add: avail_def\<close>)
qed

text \<open>The sweep cannot be observed: a bucket it drops is full from then on.\<close>

lemma limiter_sweep_avail:
  assumes "lim_ok l" "now \<le> t"
  shows "avail (limiter_sweep now l) ip t = avail l ip t"
proof (cases "map_of (buckets l) ip")
  case (Some b)
  have "Seconds (now - last_seen b) * rate l \<le> Seconds (t - last_seen b) * rate l"
    using assms by (intro mult_right_mono Seconds_mono) (simp_all add: lim_ok_def)
  then show ?thesis
    using assms(1) Some by (auto simp: avail_def limiter_sweep_def lim_ok_def map_of_filter_pair)
qed (use assms(1) in \<open>simp add: avail_def limiter_sweep_def lim_ok_def map_of_filter_pair\<close>)

lemma limiter_sweep_ok [simp]: "lim_ok l \<Longrightarrow> lim_ok (limiter_sweep now l)"
  by (simp add: lim_ok_def limiter_sweep_def map_ok_def distinct_map_filter)

lemma limiter_sweep_params [simp]: "rate (limiter_sweep now l) = rate l" "burst (limiter_sweep now l) = burst l"
  by (simp_all add: limiter_sweep_def)

lemma avail_upd:
  "avail (l\<lparr>buckets := AList.update ip b m\<rparr>) ip' t =
    (if ip' = ip then min (burst l) (tokens b + Seconds (t - last_seen b) * rate l)
     else avail (l\<lparr>buckets := m\<rparr>) ip' t)"
  by (simp add: avail_def update_conv' split: option.split)

lemma refill_spec:
  assumes "lim_ok l"
  shows "tokens (fst (refill ip now l)) = avail l ip now"
    and "last_seen (fst (refill ip now l)) = now"
    and "lim_ok (snd (refill ip now l))"
    and "rate (snd (refill ip now l)) = rate l" "burst (snd (refill ip now l)) = burst l"
    and "now \<le> t \<Longrightarrow> avail (snd (refill ip now l)) ip' t = avail l ip' t"
proof -
  define m where "m = (if now - lastSweep l > Minute then limiter_sweep now l else l)"
  have ok: "lim_ok m" and par [simp]: "rate m = rate l" "burst m = burst l"
    using assms by (simp_all add: m_def)
  have av: "now \<le> t \<Longrightarrow> avail m x t = avail l x t" for x t
    using limiter_sweep_avail [OF assms] by (simp add: m_def)
  define b where "b = fst (refill ip now l)"
  have r: "refill ip now l = (b, m\<lparr>buckets := AList.update ip b (buckets m)\<rparr>)"
    unfolding b_def refill_def m_def [symmetric] Let_def by simp
  have last: "last_seen b = now" and tok: "tokens b = avail m ip now"
    unfolding b_def refill_def m_def [symmetric] Let_def avail_def by (auto split: option.split)
  show "tokens (fst (refill ip now l)) = avail l ip now" "last_seen (fst (refill ip now l)) = now"
    using tok last av [of now ip] by (simp_all add: r)
  show "lim_ok (snd (refill ip now l))"
    using ok by (simp add: r lim_ok_def map_ok_def distinct_update)
  show "rate (snd (refill ip now l)) = rate l" "burst (snd (refill ip now l)) = burst l"
    by (simp_all add: r)
  show "avail (snd (refill ip now l)) ip' t = avail l ip' t" if t: "now \<le> t"
  proof -
    have "min (burst l) (avail m ip now + Seconds (t - now) * rate l) = avail m ip t"
    proof (cases "map_of (buckets m) ip")
      case (Some c)
      have e: "Seconds (t - last_seen c) = Seconds (now - last_seen c) + Seconds (t - now)"
        using Seconds_add [of "now - last_seen c" "t - now"] by simp
      have "0 \<le> Seconds (t - now) * rate l" using t assms by (simp add: Seconds_nonneg lim_ok_def)
      then show ?thesis using Some by (auto simp: avail_def e algebra_simps min_def)
    qed (use t assms in \<open>simp add: avail_def Seconds_nonneg lim_ok_def\<close>)
    then show ?thesis using av [OF t] by (simp add: r avail_upd last tok)
  qed
qed

section \<open>Call sequences\<close>

lemma Allow_spec:
  assumes "lim_ok l"
  shows "fst (Allow ip now l) \<longleftrightarrow> avail l (Unmap ip) now \<ge> 1"
    and "lim_ok (snd (Allow ip now l))"
    and "rate (snd (Allow ip now l)) = rate l" "burst (snd (Allow ip now l)) = burst l"
    and "now \<le> t \<Longrightarrow> x \<noteq> Unmap ip \<Longrightarrow> avail (snd (Allow ip now l)) x t = avail l x t"
    and "avail (snd (Allow ip now l)) (Unmap ip) now =
      avail l (Unmap ip) now - (if fst (Allow ip now l) then 1 else 0)"
proof -
  obtain b l' where r: "refill (Unmap ip) now l = (b, l')" by fastforce
  note spec = refill_spec [OF assms, where ip = "Unmap ip" and now = now, unfolded r, simplified]
  show "fst (Allow ip now l) \<longleftrightarrow> avail l (Unmap ip) now \<ge> 1"
    using spec(1) by (auto simp: Allow_def r)
  show "lim_ok (snd (Allow ip now l))"
    using spec(3) by (simp add: Allow_def r lim_ok_def map_ok_def distinct_update)
  show "rate (snd (Allow ip now l)) = rate l" "burst (snd (Allow ip now l)) = burst l"
    using spec(4,5) by (simp_all add: Allow_def r)
  show "avail (snd (Allow ip now l)) x t = avail l x t" if "now \<le> t" "x \<noteq> Unmap ip"
    using spec(6) [OF that(1), where ip' = x] that(2) by (simp add: Allow_def r avail_upd)
  have "tokens b \<le> burst l'" using spec(1,5) avail_le_burst [of l] by simp
  then show "avail (snd (Allow ip now l)) (Unmap ip) now =
      avail l (Unmap ip) now - (if fst (Allow ip now l) then 1 else 0)"
    using spec(1,2) spec(6) [where t = now and ip' = "Unmap ip"] by (simp add: Allow_def r avail_upd min_def)
qed

datatype limiter_call = CallAllow | CallExhausted

definition limiter_do :: "limiter_call \<Rightarrow> Addr \<Rightarrow> int \<Rightarrow> IPLimiter \<Rightarrow> bool \<times> IPLimiter" where
  "limiter_do c ip now l = (case c of CallAllow \<Rightarrow> Allow ip now l | CallExhausted \<Rightarrow> Exhausted ip now l)"

text \<open>How many calls of \<open>Allow\<close> for \<open>x\<close> succeed in a sequence of calls for any
  addresses, and the state after the sequence.\<close>

fun granted :: "Addr \<Rightarrow> (int \<times> limiter_call \<times> Addr) list \<Rightarrow> IPLimiter \<Rightarrow> nat" where
  "granted x [] l = 0"
| "granted x ((now, c, ip) # es) l =
     (let (ok, l') = limiter_do c ip now l in
      (if ok \<and> c = CallAllow \<and> Unmap ip = Unmap x then 1 else 0) + granted x es l')"

lemma Exhausted_spec:
  assumes "lim_ok l"
  shows "fst (Exhausted ip now l) \<longleftrightarrow> avail l (Unmap ip) now < 1"
    and "lim_ok (snd (Exhausted ip now l))"
    and "rate (snd (Exhausted ip now l)) = rate l" "burst (snd (Exhausted ip now l)) = burst l"
    and "now \<le> t \<Longrightarrow> avail (snd (Exhausted ip now l)) x t = avail l x t"
  using refill_spec [OF assms, where ip = "Unmap ip" and now = now] by (simp_all add: Exhausted_def case_prod_beta)

lemma limiter_do_spec:
  assumes "lim_ok l"
  shows "lim_ok (snd (limiter_do c ip now l))" "rate (snd (limiter_do c ip now l)) = rate l"
    and "burst (snd (limiter_do c ip now l)) = burst l"
    and "avail (snd (limiter_do c ip now l)) x now =
      avail l x now - (if fst (limiter_do c ip now l) \<and> c = CallAllow \<and> Unmap ip = x then 1 else 0)"
  using Allow_spec [OF assms(1), where ip = ip and now = now] Exhausted_spec [OF assms(1), where ip = ip and now = now]
  by (cases c; cases "x = Unmap ip"; auto simp: limiter_do_def)+

lemma avail_nonneg_after:
  assumes "lim_ok l" "0 \<le> avail l x now"
  shows "0 \<le> avail (snd (limiter_do c ip now l)) x now"
  using limiter_do_spec(4) [OF assms(1), of c ip now x] Allow_spec(1) [OF assms(1), of ip now] assms(2)
  by (auto simp: limiter_do_def split: if_splits limiter_call.splits)

text \<open>Between \<open>t0\<close> and \<open>t1\<close> an address is granted at most what it had at \<open>t0\<close>
  plus what the rate adds in that time.\<close>

lemma granted_bound:
  assumes "lim_ok l" "0 \<le> avail l (Unmap x) t0"
    and "sorted (t0 # map fst es @ [t1])"
  shows "of_nat (granted x es l) \<le> avail l (Unmap x) t0 + Seconds (t1 - t0) * rate l"
  using assms
proof (induction es arbitrary: l t0)
  case Nil
  then show ?case by (simp add: Seconds_nonneg lim_ok_def)
next
  case (Cons e es)
  obtain now c ip where e: "e = (now, c, ip)" by (metis prod_cases3)
  have t: "t0 \<le> now" "sorted (now # map fst es @ [t1])" using Cons.prems(3) by (auto simp: e)
  have rate: "rate l \<ge> 0" using Cons.prems(1) by (simp add: lim_ok_def)
  let ?l = "snd (limiter_do c ip now l)"
  let ?n = "if fst (limiter_do c ip now l) \<and> c = CallAllow \<and> Unmap ip = Unmap x then 1 else 0 :: rat"
  note spec = limiter_do_spec [OF Cons.prems(1), where c = c and ip = ip and now = now]
  have grown: "0 \<le> avail l (Unmap x) now"
    using avail_grows(1) [OF rate t(1)] Cons.prems(2) by (meson order_trans)
  have "of_nat (granted x es ?l) \<le> avail ?l (Unmap x) now + Seconds (t1 - now) * rate l"
    using Cons.IH [OF spec(1) avail_nonneg_after [OF Cons.prems(1) grown] t(2)] spec(2) by simp
  also have "avail ?l (Unmap x) now = avail l (Unmap x) now - ?n" by (rule spec(4) [of "Unmap x"])
  also have "avail l (Unmap x) now \<le> avail l (Unmap x) t0 + Seconds (now - t0) * rate l"
    by (rule avail_grows(2) [OF rate t(1)])
  finally have "of_nat (granted x es ?l) + ?n
      \<le> avail l (Unmap x) t0 + (Seconds (now - t0) + Seconds (t1 - now)) * rate l"
    by (simp add: algebra_simps)
  moreover have "Seconds (now - t0) + Seconds (t1 - now) = Seconds (t1 - t0)"
    using Seconds_add [of "now - t0" "t1 - now"] by simp
  moreover have "of_nat (granted x (e # es) l) = of_nat (granted x es ?l) + ?n"
    by (simp add: e split_beta)
  ultimately show ?case by (simp only:)
qed

lemma NewIPLimiter_ok: "perSecond \<ge> 0 \<Longrightarrow> lim_ok (NewIPLimiter perSecond b now)"
  by (simp add: lim_ok_def NewIPLimiter_def map_ok_def)

lemma NewIPLimiter_avail [simp]: "avail (NewIPLimiter perSecond b now) x t = of_int b"
  by (simp add: avail_def NewIPLimiter_def)

end
