(* ===== verification/Auth_Token.thy ===== *)
theory Auth_Token
  imports Auth_Policy
begin

text \<open>
  \<open>go/tunnel/auth/token.go\<close>, \<open>gatewaykey.go\<close> and the identity checks of
  \<open>agentca.go\<close>.  Random bytes, bcrypt and the SSH key functions are
  parameters: \<open>generate pw cost\<close> is \<open>bcrypt.GenerateFromPassword\<close>
  (\<^const>\<open>None\<close> is its error), \<open>compare h pw\<close> says that
  \<open>bcrypt.CompareHashAndPassword\<close> returns no error, and \<open>parseKey\<close>,
  \<open>marshalKey\<close>, \<open>fingerprint\<close> are those of \<open>golang.org/x/crypto/ssh\<close>.
\<close>

section \<open>Encodings\<close>

definition hex_digit :: "nat \<Rightarrow> char" where
  "hex_digit n = char_of (if n < 10 then 48 + n else 87 + n)"

definition hex_encode :: "string \<Rightarrow> string" where
  "hex_encode bs = concat (map (\<lambda>b. [hex_digit (char_code b div 16), hex_digit (char_code b mod 16)]) bs)"

definition b64_char :: "nat \<Rightarrow> char" where
  "b64_char n =
     (if n < 26 then char_of (65 + n) else if n < 52 then char_of (71 + n)
      else if n < 62 then char_of (n - 4) else if n = 62 then CHR ''-'' else CHR ''_'')"

text \<open>\<open>base64.RawURLEncoding\<close>: no padding.\<close>

fun RawURLEncode :: "string \<Rightarrow> string" where
  "RawURLEncode [] = []"
| "RawURLEncode [a] = [b64_char (char_code a div 4), b64_char (char_code a mod 4 * 16)]"
| "RawURLEncode [a, b] =
     [b64_char (char_code a div 4), b64_char (char_code a mod 4 * 16 + char_code b div 16),
      b64_char (char_code b mod 16 * 4)]"
| "RawURLEncode (a # b # c # s) =
     b64_char (char_code a div 4) # b64_char (char_code a mod 4 * 16 + char_code b div 16) #
     b64_char (char_code b mod 16 * 4 + char_code c div 64) # b64_char (char_code c mod 64) # RawURLEncode s"

section \<open>Tokens\<close>

record TokenRecord =
  tk_ID :: string
  tk_Name :: string
  tk_Hash :: string
  tk_Created :: int
  tk_Policy :: Policy
  tk_CertSerials :: "string list"

datatype TokenError =
    BadTokenName string
  | BadPolicy PolicyError
  | MalformedToken
  | HashFailed

definition tokenPrefix :: string where
  "tokenPrefix = ''l8t_''"

definition is_alnum :: "char \<Rightarrow> bool" where
  "is_alnum c \<longleftrightarrow> is_upper c \<or> is_lower c \<or> is_digit c"

text \<open>The regular expression \<open>^[A-Za-z0-9][A-Za-z0-9._-]{0,63}$\<close>.\<close>

definition namePattern :: "string \<Rightarrow> bool" where
  "namePattern s \<longleftrightarrow>
     s \<noteq> [] \<and> is_alnum (hd s) \<and> length s \<le> 64 \<and>
     list_all (\<lambda>c. is_alnum c \<or> c = CHR ''.'' \<or> c = CHR ''_'' \<or> c = CHR ''-'') (tl s)"

definition ValidateTokenName :: "string \<Rightarrow> (TokenError, unit) result" where
  "ValidateTokenName name = (if \<not> namePattern name then Err (BadTokenName name) else Ok ())"

definition is_lower_hex :: "char \<Rightarrow> bool" where
  "is_lower_hex c \<longleftrightarrow> is_digit c \<or> (97 \<le> char_code c \<and> char_code c \<le> 102)"

definition is_b64 :: "char \<Rightarrow> bool" where
  "is_b64 c \<longleftrightarrow> is_alnum c \<or> c = CHR ''_'' \<or> c = CHR ''-''"

text \<open>The regular expression \<open>^l8t_([0-9a-f]{8})_([A-Za-z0-9_-]{43})$\<close>, its two
  groups.\<close>

definition ParseToken :: "string \<Rightarrow> (TokenError, string \<times> string) result" where
  "ParseToken token =
     (let ident = take 8 (drop 4 token); secret = drop 13 token in
      if take 4 token = tokenPrefix \<and> length ident = 8 \<and> list_all is_lower_hex ident \<and>
         take 1 (drop 12 token) = ''_'' \<and> length secret = 43 \<and> list_all is_b64 secret
      then Ok (ident, secret) else Err MalformedToken)"

definition NewTokenRecord ::
    "(string \<Rightarrow> int \<Rightarrow> string option) \<Rightarrow> int \<Rightarrow> string \<Rightarrow> string \<Rightarrow> Policy \<Rightarrow> int \<Rightarrow> (TokenError, TokenRecord) result" where
  "NewTokenRecord generate now name token policy cost =
     (case ValidateTokenName name of
        Inl e \<Rightarrow> Err e
      | Inr _ \<Rightarrow>
     (case Policy_Validate policy of
        Inl e \<Rightarrow> Err (BadPolicy e)
      | Inr _ \<Rightarrow>
     (case ParseToken token of
        Inl e \<Rightarrow> Err e
      | Inr (ident, secret) \<Rightarrow>
     (case generate secret cost of
        None \<Rightarrow> Err HashFailed
      | Some hash \<Rightarrow> Ok \<lparr>tk_ID = ident, tk_Name = name, tk_Hash = hash, tk_Created = now,
                        tk_Policy = policy, tk_CertSerials = []\<rparr>))))"

definition DefaultCost :: int where
  "DefaultCost = 10"

definition NewToken ::
    "(string \<Rightarrow> int \<Rightarrow> string option) \<Rightarrow> int \<Rightarrow> string \<Rightarrow> string \<Rightarrow> string \<Rightarrow> Policy \<Rightarrow>
     (TokenError, string \<times> TokenRecord) result" where
  "NewToken generate now idBytes secretBytes name policy =
     (let token = tokenPrefix @ hex_encode idBytes @ ''_'' @ RawURLEncode secretBytes in
      case NewTokenRecord generate now name token policy DefaultCost of
        Inl e \<Rightarrow> Err e
      | Inr rec \<Rightarrow> Ok (token, rec))"

definition Verify :: "(string \<Rightarrow> string \<Rightarrow> bool) \<Rightarrow> TokenRecord \<Rightarrow> string \<Rightarrow> bool" where
  "Verify compare r secret = compare (tk_Hash r) secret"

section \<open>Agent certificates\<close>

definition tokenURIPrefix :: string where
  "tokenURIPrefix = ''l8tunnel:token:''"

text \<open>The identity in a certificate with the given URIs and serial text.\<close>

definition CertIdentity :: "string list \<Rightarrow> string \<Rightarrow> (string \<times> string) option" where
  "CertIdentity uris serial =
     (case find (\<lambda>u. snd (CutPrefix u tokenURIPrefix)) uris of
        Some u \<Rightarrow> Some (fst (CutPrefix u tokenURIPrefix), serial)
      | None \<Rightarrow> None)"

definition HasCertSerial :: "TokenRecord \<Rightarrow> string \<Rightarrow> bool" where
  "HasCertSerial r serial = list_ex (\<lambda>s. s = serial) (tk_CertSerials r)"

section \<open>Gateway keys\<close>

record GatewayKey =
  gk_Name :: string
  gk_PublicKey :: string
  gk_Fingerprint :: string
  gk_Tunnels :: "string list"
  gk_Created :: int

datatype KeyError =
    BadKeyName string
  | BadPublicKey
  | NoGrants
  | BadTunnelPattern string

definition NewGatewayKey ::
    "(string \<Rightarrow> 'k option) \<Rightarrow> ('k \<Rightarrow> string) \<Rightarrow> ('k \<Rightarrow> string) \<Rightarrow> int \<Rightarrow> string \<Rightarrow> string \<Rightarrow> string list \<Rightarrow>
     (KeyError, GatewayKey) result" where
  "NewGatewayKey parseKey marshalKey fingerprint now name authorizedKey tunnels =
     (if \<not> namePattern name then Err (BadKeyName name)
      else case parseKey (TrimSpace authorizedKey) of
             None \<Rightarrow> Err BadPublicKey
           | Some key \<Rightarrow>
               if tunnels = [] then Err NoGrants
               else case find (\<lambda>p. path_Match p [] = None) tunnels of
                      Some p \<Rightarrow> Err (BadTunnelPattern p)
                    | None \<Rightarrow> Ok \<lparr>gk_Name = name, gk_PublicKey = TrimSpace (marshalKey key),
                                 gk_Fingerprint = fingerprint key, gk_Tunnels = tunnels, gk_Created = now\<rparr>)"

definition GatewayKey_Allows :: "GatewayKey \<Rightarrow> string \<Rightarrow> bool \<Rightarrow> bool" where
  "GatewayKey_Allows k tunnel explicitOnly =
     list_ex (\<lambda>p. if explicitOnly then p = tunnel else path_Match p tunnel = Some True) (gk_Tunnels k)"

section \<open>Lemmas\<close>

lemma is_lower_hex_digit: "n < 16 \<Longrightarrow> is_lower_hex (hex_digit n)"
  by (simp add: is_lower_hex_def hex_digit_def is_digit_def)

lemma length_hex_encode [simp]: "length (hex_encode bs) = 2 * length bs"
  by (induction bs) (simp_all add: hex_encode_def)

lemma hex_encode_lower: "list_all is_lower_hex (hex_encode bs)"
proof (induction bs)
  case (Cons b bs)
  have "char_code b div 16 < 16" using char_code_less [of b] by (simp add: less_mult_imp_div_less)
  then show ?case using Cons by (simp add: hex_encode_def is_lower_hex_digit)
qed (simp add: hex_encode_def)

lemma is_b64_char: "is_b64 (b64_char n)"
  by (auto simp: is_b64_def b64_char_def is_alnum_def is_upper_def is_lower_def is_digit_def)

lemma RawURLEncode_b64: "list_all is_b64 (RawURLEncode s)"
  by (induction s rule: RawURLEncode.induct) (simp_all add: is_b64_char)

lemma length_RawURLEncode: "length (RawURLEncode s) = (4 * length s + 2) div 3"
  by (induction s rule: RawURLEncode.induct) simp_all

lemma ParseToken_made:
  assumes "length ident = 8" "list_all is_lower_hex ident" "length secret = 43" "list_all is_b64 secret"
  shows "ParseToken (tokenPrefix @ ident @ ''_'' @ secret) = Ok (ident, secret)"
  using assms by (simp add: ParseToken_def tokenPrefix_def)

lemma ParseToken_Ok:
  assumes "ParseToken token = Ok (ident, secret)"
  shows "token = tokenPrefix @ ident @ ''_'' @ secret \<and> length ident = 8 \<and> length secret = 43"
proof -
  have "take 4 token = tokenPrefix" "take 8 (drop 4 token) = ident" "take 1 (drop 12 token) = ''_''"
    "drop 13 token = secret" "length ident = 8" "length secret = 43"
    using assms by (auto simp: ParseToken_def Let_def split: if_splits)
  moreover have "token = take 4 token @ take 8 (drop 4 token) @ take 1 (drop 12 token) @ drop 13 token"
  proof -
    have "drop 4 token = take 8 (drop 4 token) @ drop 12 token"
      using append_take_drop_id [of 8 "drop 4 token"] by simp
    moreover have "drop 12 token = take 1 (drop 12 token) @ drop 13 token"
      using append_take_drop_id [of 1 "drop 12 token"] by simp
    ultimately show ?thesis using append_take_drop_id [of 4 token] by (simp only: append.assoc)
  qed
  ultimately show ?thesis by metis
qed

end
