(* ===== verification/Auth_Properties.thy ===== *)
theory Auth_Properties
  imports Registry_Rules Auth_Access Auth_Limiter Auth_Token
begin

text \<open>
  The properties of names, rules, token policies and access control
  (\<open>go/tunnel/protocol\<close>, \<open>go/tunnel/registry\<close>, \<open>go/tunnel/auth\<close>).
\<close>

lemma alnum_not_meta: "alnum c \<Longrightarrow> c \<notin> {CHR ''*'', CHR ''?'', CHR ''['', CHR '']'', CHR 0x5C}"
  by (auto simp: alnum_def is_lower_def is_digit_def char_code_def)

lemma IsDNSLabel_literal:
  assumes "IsDNSLabel s"
  shows "literal s"
proof -
  have "c \<notin> {CHR ''*'', CHR ''?'', CHR ''['', CHR '']'', CHR 0x5C}" if "c \<in> set s" for c
    using IsDNSLabel_chars [OF assms that] alnum_not_meta [of c] by auto
  then show ?thesis unfolding literal_def list_all_iff by blast
qed

section \<open>Access control\<close>

text \<open>
  The IP lists: an address passes exactly if no deny entry contains it
  and the allow list is empty or has an entry containing it, and an IPv4
  client is treated the same whether its address arrives as IPv4 or as
  IPv4-mapped IPv6.
\<close>

theorem ip_lists:
  "(AllowsIP a addr \<longleftrightarrow>
     (\<forall>p\<in>set (ac_deny a). \<not> Contains p (Unmap addr)) \<and>
     (ac_allow a = [] \<or> (\<exists>p\<in>set (ac_allow a). Contains p (Unmap addr)))) \<and>
   AllowsIP a (map4in6 w) = AllowsIP a (Addr4 w)"
  using AllowsIP_iff AllowsIP_Unmap [of a "map4in6 w"] AllowsIP_Unmap [of a "Addr4 w"] by simp

definition exAccess :: Access where
  "exAccess = \<lparr>ac_allow = [PrefixFrom (Addr4 0x0A000000) 8], ac_deny = [PrefixFrom (Addr4 0x0A000001) 32],
     ac_users = [(''ann'', ''h1'')], ac_tokenHash = [], ac_oidc = None, ac_verified = []\<rparr>"

theorem ip_lists_witness:
  "AllowsIP exAccess (Addr4 0x0A000002) \<and> \<not> AllowsIP exAccess (map4in6 0x0A000001)"
  using ip_lists [of exAccess "Addr4 0x0A000002" "0x0A000001"] ip_lists [of exAccess "Addr4 0x0A000001" 0]
  by (simp add: exAccess_def Contains_def PrefixFrom_def withoutZone_def)

text \<open>
  C23. Basic auth with its cache: after any sequence of attempts on a parsed
  policy, valid credentials are accepted, and an accepted attempt has the
  SHA-256 digest of some valid credentials, so the cache never admits
  anything but a digest collision.
\<close>

theorem basic_auth_cache:
  assumes "ParseAccess cost_ok p = Ok a"
  shows "(valid_login compare a user pw \<longrightarrow> fst (CheckBasic compare now user pw (attempts compare as a))) \<and>
    (fst (CheckBasic compare now user pw (attempts compare as a)) \<longrightarrow>
       (\<exists>u q. Sum256 (credential u q) = Sum256 (credential user pw) \<and> valid_login compare a u q))"
  using CheckBasic_complete [of compare "attempts compare as a" user pw now]
    CheckBasic_sound [OF attempts_cache_ok [OF ParseAccess_cache_ok [OF assms, of compare], of as], of now user pw]
  by simp

definition exPolicy :: AccessPolicy where
  "exPolicy = \<lparr>AllowIps = [''10.0.0.0/8''], DenyIps = [], BasicUsers = [\<lparr>Username = ''ann'', BcryptHash = ''h1''\<rparr>],
     AccessTokenSha256 = [], Oidc = None\<rparr>"

theorem basic_auth_cache_witness:
  "\<exists>a. ParseAccess (\<lambda>_. True) exPolicy = Ok a \<and>
     fst (CheckBasic (\<lambda>h pw. h = ''h1'' \<and> pw = ''pw'') 7 ''ann'' ''pw''
       (attempts (\<lambda>h pw. h = ''h1'' \<and> pw = ''pw'') [(1, ''ann'', ''pw''), (2, ''bob'', ''pw'')] a))"
proof -
  have "ParsePrefixes [''10.0.0.0/8''] \<noteq> None" by code_simp
  then obtain a where a: "ParseAccess (\<lambda>_. True) exPolicy = Ok a" "ac_users a = [(''ann'', ''h1'')]"
    by (auto simp: ParseAccess_def exPolicy_def split: option.splits)
  then show ?thesis
    using basic_auth_cache [OF a(1), of "\<lambda>h pw. h = ''h1'' \<and> pw = ''pw''" "''ann''" "''pw''" 7
        "[(1, ''ann'', ''pw''), (2, ''bob'', ''pw'')]"]
    by (simp add: valid_login_def)
qed

text \<open>
  The OIDC rule admits exactly the listed emails and the emails whose
  part after the last \<open>@\<close> is a listed domain: a subdomain or a look-alike
  suffix of a listed domain does not pass.
\<close>

theorem oidc_allows:
  assumes "parseOIDC p = Ok r"
  shows "OIDCRule_Allows r email \<longleftrightarrow>
    (\<exists>e\<in>set (AllowEmails p). ToLower email = oidc_email e) \<or>
    (\<exists>d\<in>set (AllowDomains p). \<exists>l. ToLower email = l @ CHR ''@'' # oidc_domain d)"
  using assms by (rule OIDCRule_Allows_iff)

theorem oidc_allows_witness:
  "\<exists>r. parseOIDC \<lparr>op_Provider = ''g'', AllowEmails = [], AllowDomains = [''@Ex.com'']\<rparr> = Ok r \<and>
     OIDCRule_Allows r ''Ann@ex.com''"
proof -
  let ?p = "\<lparr>op_Provider = ''g'', AllowEmails = [], AllowDomains = [''@Ex.com'']\<rparr>"
  have "parseOIDC ?p = Ok \<lparr>Provider = ''g'', Emails = [], oidc_Domains = [''ex.com'']\<rparr>" by code_simp
  moreover have "ToLower ''Ann@ex.com'' = ''ann'' @ CHR ''@'' # oidc_domain ''@Ex.com''" by code_simp
  ultimately show ?thesis using oidc_allows [of ?p] by fastforce
qed

text \<open>
  Which access modes a tunnel may have: a specification is accepted
  exactly if its policy parses, a public port is only asked for on tcp and ssh
  tunnels without an access token, basic auth and OIDC are only on http
  tunnels and not together, and access tokens only on tcp and ssh tunnels.
\<close>

theorem spec_access_table:
  "ValidateSpecAccess cost_ok t port p = Ok a \<longleftrightarrow>
     ParseAccess cost_ok p = Ok a \<and>
     (port \<noteq> 0 \<longrightarrow> tcpLike t \<and> \<not> RequiresToken a) \<and>
     (RequiresBasic a \<longrightarrow> t = TUNNEL_TYPE_HTTP \<and> ac_oidc a = None) \<and>
     (ac_oidc a \<noteq> None \<longrightarrow> t = TUNNEL_TYPE_HTTP) \<and>
     (RequiresToken a \<longrightarrow> tcpLike t)"
  by (rule ValidateSpecAccess_Ok_iff)

theorem spec_access_table_witness:
  "is_ok (ValidateSpecAccess (\<lambda>_. True) TUNNEL_TYPE_TCP 10000 nilPolicy) \<and>
   \<not> is_ok (ValidateSpecAccess (\<lambda>_. True) TUNNEL_TYPE_HTTP 10000 nilPolicy)"
proof -
  obtain a where a: "ParseAccess (\<lambda>_. True) nilPolicy = Ok a" "\<not> RequiresBasic a" "\<not> RequiresToken a" "ac_oidc a = None"
    by (simp add: ParseAccess_def nilPolicy_def RequiresBasic_def RequiresToken_def)
  then show ?thesis
    by (simp add: is_ok_iff spec_access_table tcpLike_def)
qed

text \<open>
  C24. The rate limiter: in any interleaving of \<open>Allow\<close> and \<open>Exhausted\<close> calls
  for any addresses between \<open>t0\<close> and \<open>t1\<close>, one client address is granted at
  most the burst plus the rate times the elapsed seconds.  Forgetting full
  buckets in the sweep does not weaken the bound.
\<close>

theorem rate_limit:
  assumes "0 \<le> perSecond" "0 \<le> b" "sorted (t0 # map fst es @ [t1])"
  shows "of_nat (granted x es (NewIPLimiter perSecond b t)) \<le> of_int b + Seconds (t1 - t0) * perSecond"
proof -
  have "rate (NewIPLimiter perSecond b t) = perSecond" by (simp add: NewIPLimiter_def)
  then show ?thesis
    using granted_bound [OF NewIPLimiter_ok [OF assms(1)], of b t x t0 es t1] assms(2,3) by simp
qed

theorem rate_limit_witness:
  "of_nat (granted (Addr4 1) [(0, CallAllow, Addr4 1), (0, CallAllow, Addr4 1), (5, CallAllow, Addr4 1)]
     (NewIPLimiter 1 2 0)) \<le> (of_int 2 + Seconds (10 - 0) * 1 :: rat)"
  by (rule rate_limit) simp_all

section \<open>Tokens and keys\<close>

text \<open>
  A new token works: the plaintext shown to the operator parses back to
  the record's ID and to the secret, and the record verifies that secret.
  bcrypt is assumed to accept a password against the hash it made of it.
\<close>

theorem new_token_roundtrip:
  assumes bcrypt: "\<And>pw cost h. generate pw cost = Some h \<Longrightarrow> compare h pw"
    and "length idBytes = 4" "length secretBytes = 32"
    and "NewToken generate now idBytes secretBytes name policy = Ok (token, rec)"
  shows "ParseToken token = Ok (tk_ID rec, RawURLEncode secretBytes) \<and> Verify compare rec (RawURLEncode secretBytes) \<and>
    tk_Name rec = name \<and> Policy_Validate (tk_Policy rec) = Ok ()"
proof -
  have p: "ParseToken (tokenPrefix @ hex_encode idBytes @ ''_'' @ RawURLEncode secretBytes) =
      Ok (hex_encode idBytes, RawURLEncode secretBytes)"
    using assms(2,3) by (intro ParseToken_made) (simp_all add: hex_encode_lower RawURLEncode_b64 length_RawURLEncode)
  show ?thesis
    using assms(4) p bcrypt
    by (auto simp: NewToken_def NewTokenRecord_def Verify_def Let_def split: sum.splits option.splits)
qed

definition exTokenPolicy :: Policy where
  "exTokenPolicy = \<lparr>Names = [''team-*''], Types = [''tcp''], MaxTunnels = 3, Ports = ''10000-10009'',
     RequireCert = False, Domains = []\<rparr>"

theorem new_token_roundtrip_witness:
  "\<exists>token rec. NewToken (\<lambda>pw cost. Some (rev pw)) 5 ''abcd'' (replicate 32 CHR ''x'') ''ci'' exTokenPolicy = Ok (token, rec) \<and>
     Verify (\<lambda>h pw. h = rev pw) rec (RawURLEncode (replicate 32 CHR ''x''))"
proof -
  let ?n = "NewToken (\<lambda>pw cost. Some (rev pw)) 5 ''abcd'' (replicate 32 CHR ''x'') ''ci'' exTokenPolicy"
  have "is_ok ?n" by code_simp
  then obtain token rec where "?n = Ok (token, rec)" by (auto simp: is_ok_iff)
  then show ?thesis
    using new_token_roundtrip [of "\<lambda>pw cost. Some (rev pw)" "\<lambda>h pw. h = rev pw" "''abcd''" "replicate 32 CHR ''x''"]
    by auto
qed

text \<open>
  Gateway key grants: with \<open>explicitOnly\<close> (tunnels that have an access
  token) a key reaches exactly the tunnels it lists by name, no pattern
  helps; and for a valid tunnel name such a key also passes without
  \<open>explicitOnly\<close>, so the flag only ever narrows a grant.
\<close>

theorem gateway_key_explicit:
  "(GatewayKey_Allows k tunnel True \<longleftrightarrow> tunnel \<in> set (gk_Tunnels k)) \<and>
   (ValidName tunnel \<and> GatewayKey_Allows k tunnel True \<longrightarrow> GatewayKey_Allows k tunnel False)"
proof -
  have lit: "literal tunnel" if "ValidName tunnel"
    using that by (simp add: ValidName_def IsDNSLabel_literal)
  have "GatewayKey_Allows k tunnel False" if "ValidName tunnel" "tunnel \<in> set (gk_Tunnels k)"
    using that path_Match_literal [OF lit [OF that(1)], of tunnel]
    by (auto simp: GatewayKey_Allows_def list_ex_iff intro!: bexI [of _ tunnel])
  then show ?thesis by (auto simp: GatewayKey_Allows_def list_ex_iff)
qed

theorem gateway_key_explicit_witness:
  "\<not> GatewayKey_Allows \<lparr>gk_Name = ''k'', gk_PublicKey = [], gk_Fingerprint = [], gk_Tunnels = [''*'', ''db''], gk_Created = 0\<rparr> ''web'' True \<and>
   GatewayKey_Allows \<lparr>gk_Name = ''k'', gk_PublicKey = [], gk_Fingerprint = [], gk_Tunnels = [''*'', ''db''], gk_Created = 0\<rparr> ''db'' False"
proof -
  have "ValidName ''db''" by code_simp
  then show ?thesis using gateway_key_explicit by simp
qed

section \<open>Policies and rules\<close>

text \<open>
  C26. A validated policy's patterns never fail: \<open>AllowsName\<close> and
  \<open>AllowsDomain\<close> ignore \<open>path.Match\<close>'s error, and for a policy that
  \<open>Validate\<close> accepted no pattern gives that error on any name, so a grant
  is decided by the match alone; the policy's port range is within 1-65535.
\<close>

theorem validated_policy:
  assumes "Policy_Validate p = Ok ()"
  shows "(\<forall>pattern\<in>set (Names p) \<union> set (Domains p). \<forall>s. path_Match pattern s \<noteq> None) \<and>
    (Ports p \<noteq> [] \<longrightarrow> (\<exists>lo hi. ParsePortRange (Ports p) = Some (lo, hi) \<and> 1 \<le> lo \<and> lo \<le> hi \<and> hi \<le> 65535))"
proof -
  note v = assms [unfolded Policy_Validate_Ok_iff]
  have "\<forall>pattern\<in>set (Names p) \<union> set (Domains p). \<forall>s. path_Match pattern s \<noteq> None"
    using v validated_pattern by blast
  moreover have "\<exists>lo hi. ParsePortRange (Ports p) = Some (lo, hi) \<and> 1 \<le> lo \<and> lo \<le> hi \<and> hi \<le> 65535" if "Ports p \<noteq> []"
    using v that ParsePortRange_bounds [of "Ports p"] by fastforce
  ultimately show ?thesis by blast
qed

theorem validated_policy_witness: "path_Match ''team-*'' ''team-a[b'' \<noteq> None"
proof -
  have "Policy_Validate exTokenPolicy = Ok ()" by code_simp
  then show ?thesis using validated_policy [of exTokenPolicy] by (simp add: exTokenPolicy_def)
qed

text \<open>
  What a name grant means: a pattern without special characters allows
  exactly that name, and such a text followed by \<open>*\<close> allows exactly the names
  that start with it and have no slash after it.
\<close>

theorem name_grants:
  assumes "literal q"
  shows "(AllowsName (p\<lparr>Names := [q]\<rparr>) n \<longleftrightarrow> n = q) \<and>
    (AllowsName (p\<lparr>Names := [q @ ''*'']\<rparr>) n \<longleftrightarrow> (\<exists>t. n = q @ t \<and> CHR ''/'' \<notin> set t))"
  using path_Match_literal [OF assms, of n] path_Match_prefix [OF assms, of n] by (simp add: AllowsName_def)

theorem name_grants_witness:
  "AllowsName (exTokenPolicy\<lparr>Names := [''team-'' @ ''*'']\<rparr>) ''team-web'' \<and>
   \<not> AllowsName (exTokenPolicy\<lparr>Names := [''team-'']\<rparr>) ''team-web''"
proof -
  have "literal ''team-''" by code_simp
  then show ?thesis using name_grants [of "''team-''" exTokenPolicy "''team-web''"] by auto
qed

text \<open>
  C27. A requested port is accepted exactly when the automatic allocation
  could give it: it lies in the range \<open>AllocationRange\<close> computes from the
  rules and the token's policy.
\<close>

theorem requested_port_in_allocation:
  "CheckRequestedPort r port policy = Ok () \<longleftrightarrow>
     (\<exists>lo hi. AllocationRange r policy = Ok (lo, hi) \<and> lo \<le> port \<and> port \<le> hi)"
  by (rule CheckRequestedPort_iff)

text \<open>
  The claim decision, in full: a request is turned down only because
  another token, or another live session, holds the name, or because the
  token is at its limit; otherwise a free name is new, a connected holder of
  the same agent is taken over and a parked one reclaimed.
\<close>

theorem decide_table:
  "Decide holder tok agent active mx =
     (let foreign = (case holder of None \<Rightarrow> False | Some h \<Rightarrow>
            HTokenID h \<noteq> tok \<or> Connected h \<and> (HAgentID h \<noteq> agent \<or> SameSession h)) in
      if foreign then Err ErrNameTaken
      else if 0 < mx \<and> mx \<le> active then Err ErrMaxTunnels
      else Ok (case holder of None \<Rightarrow> DecisionNew
               | Some h \<Rightarrow> if Connected h then DecisionTakeover else DecisionReclaim))"
  by (simp add: Decide_def split: option.split)

theorem decide_table_witness:
  "Decide (Some \<lparr>HTokenID = ''t1'', HAgentID = ''a1'', Connected = True, SameSession = False\<rparr>) ''t1'' ''a1'' 2 3 = Ok DecisionTakeover \<and>
   Decide (Some \<lparr>HTokenID = ''t1'', HAgentID = ''a1'', Connected = True, SameSession = True\<rparr>) ''t1'' ''a1'' 2 3 = Err ErrNameTaken"
  by (simp add: decide_table)

text \<open>
  Host names and tunnel names correspond one to one: routing a host
  gives a name exactly if the host is that valid name followed by a dot and
  the base domain.
\<close>

theorem tunnel_name_of_host:
  "TunnelName r host = n \<and> n \<noteq> [] \<longleftrightarrow> ValidName n \<and> host = n @ ''.'' @ BaseDomain r"
  by (rule TunnelName_not_Nil_iff)

text \<open>
  Domain normalisation is idempotent: what \<open>NormalizeTunnelDomain\<close>
  returns is a lower-case host name, wildcard or not, that it returns
  unchanged when it is normalised again.
\<close>

theorem normalize_domain_idempotent:
  assumes "NormalizeTunnelDomain s = Some d"
  shows "NormalizeTunnelDomain d = Some d \<and> ToLower d = d"
proof -
  have "ToLower d = d"
    using assms host_name_lower
    by (auto simp: NormalizeTunnelDomain_def NormalizeDomain_Some_iff ToLower_def lower_char_def is_upper_def
        char_code_def split: prod.splits option.splits)
  then show ?thesis using NormalizeTunnelDomain_fixpoint [OF assms] by blast
qed

theorem normalize_domain_idempotent_witness:
  "NormalizeTunnelDomain ''*.Shop.ORG.'' = Some ''*.shop.org'' \<and> NormalizeTunnelDomain ''*.shop.org'' = Some ''*.shop.org''"
proof -
  have "NormalizeTunnelDomain ''*.Shop.ORG.'' = Some ''*.shop.org''" by code_simp
  then show ?thesis using normalize_domain_idempotent by blast
qed

text \<open>
  Port ranges print and parse back: the text of a range within 1-65535
  parses to that range, and whatever parses is such a range.
\<close>

theorem port_range_roundtrip:
  "(1 \<le> lo \<and> lo \<le> hi \<and> hi \<le> 65535 \<longrightarrow> ParsePortRange (Itoa lo @ CHR ''-'' # Itoa hi) = Some (lo, hi)) \<and>
   (ParsePortRange s = Some (a, b) \<longrightarrow> 1 \<le> a \<and> a \<le> b \<and> b \<le> 65535)"
  using ParsePortRange_print ParsePortRange_bounds by blast

theorem port_range_roundtrip_witness: "ParsePortRange (Itoa 8000 @ CHR ''-'' # Itoa 9000) = Some (8000, 9000)"
  using port_range_roundtrip [of 8000 9000] by simp

section \<open>Divergences\<close>

text \<open>
  C30. \<open>Validate\<close> accepts a tunnel type in any letter case, \<open>AllowsType\<close> compares
  it exactly with the lower-case name: a policy for \<open>TCP\<close> is valid and allows
  no tunnel at all.
\<close>

theorem validated_type_never_allowed:
  "Policy_Validate (exTokenPolicy\<lparr>Types := [''TCP'']\<rparr>) = Ok () \<and>
   (\<forall>t. \<not> AllowsType (exTokenPolicy\<lparr>Types := [''TCP'']\<rparr>) (TunnelTypeName t))"
proof -
  have "''TCP'' \<noteq> TunnelTypeName t" for t by (induction t) code_simp+
  moreover have "Policy_Validate (exTokenPolicy\<lparr>Types := [''TCP'']\<rparr>) = Ok ()" by code_simp
  ultimately show ?thesis by (simp add: AllowsType_def)
qed

text \<open>
  C31. A list entry may be an IPv4-mapped CIDR; it parses, but since the client's
  address is unmapped first it contains no client: such a deny entry denies
  nobody, such an allow entry admits nobody.
\<close>

theorem mapped_cidr_matches_nothing:
  "\<exists>p. ParsePrefix ''::ffff:10.0.0.0/104'' = Some p \<and> (\<forall>x. \<not> Contains p (Unmap x))"
proof -
  have "netip_ParsePrefix ''::ffff:10.0.0.0/104'' = Some \<lparr>pfx_addr = Addr6 0xFFFF0A000000 [], pfx_bits = 104\<rparr>"
    by code_simp
  then have p: "ParsePrefix ''::ffff:10.0.0.0/104'' = Some (Masked \<lparr>pfx_addr = Addr6 0xFFFF0A000000 [], pfx_bits = 104\<rparr>)"
    by (simp add: ParsePrefix_def)
  have "mapped_prefix \<lparr>pfx_addr = Addr6 0xFFFF0A000000 [], pfx_bits = 104\<rparr>"
    by (simp add: mapped_prefix_def Is4In6_def drop_bit_eq_div)
  then show ?thesis using p mapped_prefix_empty by simp
qed

end
