(* ===== verification/Edge_Types.thy ===== *)
theory Edge_Types
  imports Auth_Access
begin

text \<open>
  The edge messages of \<open>go/types/tun/tun.pb.go\<close>.  A target may be a nil
  pointer until it has been validated.
\<close>

datatype EdgeDomainKind =
    EDGE_DOMAIN_KIND_UNSPECIFIED
  | EDGE_DOMAIN_KIND_SITE
  | EDGE_DOMAIN_KIND_TUNNEL_BASE

datatype EdgeCertStatus =
    EDGE_CERT_STATUS_UNSPECIFIED
  | EDGE_CERT_STATUS_VALID
  | EDGE_CERT_STATUS_EXPIRING
  | EDGE_CERT_STATUS_EXPIRED
  | EDGE_CERT_STATUS_MISMATCH
  | EDGE_CERT_STATUS_MISSING

datatype EdgeProtocol =
    EDGE_PROTOCOL_UNSPECIFIED
  | EDGE_PROTOCOL_TLS
  | EDGE_PROTOCOL_HTTP
  | EDGE_PROTOCOL_TCP

datatype EdgeForwardMode =
    EDGE_FORWARD_MODE_UNSPECIFIED
  | EDGE_FORWARD_MODE_TERMINATE
  | EDGE_FORWARD_MODE_PASSTHROUGH
  | EDGE_FORWARD_MODE_RELAY

datatype EdgeTargetKind =
    EDGE_TARGET_KIND_UNSPECIFIED
  | EDGE_TARGET_KIND_TARGETS
  | EDGE_TARGET_KIND_DNS
  | EDGE_TARGET_KIND_NODE_LOCAL
  | EDGE_TARGET_KIND_RELAYS

datatype EdgeBackendScheme =
    EDGE_BACKEND_SCHEME_UNSPECIFIED
  | EDGE_BACKEND_SCHEME_HTTPS
  | EDGE_BACKEND_SCHEME_HTTP

datatype EdgeLbAlgorithm =
    EDGE_LB_ALGORITHM_UNSPECIFIED
  | EDGE_LB_ALGORITHM_ROUND_ROBIN
  | EDGE_LB_ALGORITHM_LEAST_CONN
  | EDGE_LB_ALGORITHM_SOURCE_HASH
  | EDGE_LB_ALGORITHM_RANDOM

datatype EdgeHealthType =
    EDGE_HEALTH_TYPE_UNSPECIFIED
  | EDGE_HEALTH_TYPE_NONE
  | EDGE_HEALTH_TYPE_TCP
  | EDGE_HEALTH_TYPE_HTTP
  | EDGE_HEALTH_TYPE_HTTPS

record EdgeTarget =
  et_Host :: string
  et_Port :: int
  et_Weight :: int
  et_Disabled :: bool

record EdgePortForward =
  pf_ForwardId :: string
  pf_ListenPort :: int
  pf_ListenPortEnd :: int
  pf_Protocol :: EdgeProtocol
  pf_Mode :: EdgeForwardMode
  pf_TargetKind :: EdgeTargetKind
  pf_Targets :: "EdgeTarget option list"
  pf_TargetDns :: string
  pf_TargetPort :: int
  pf_BackendScheme :: EdgeBackendScheme
  pf_SkipVerify :: bool
  pf_ProxyProtocol :: bool
  pf_Lb :: EdgeLbAlgorithm
  pf_HealthType :: EdgeHealthType
  pf_HealthPath :: string
  pf_HealthInterval :: int
  pf_Enabled :: bool
  pf_Note :: string

record EdgeDomain =
  ed_DomainId :: string
  ed_Domain :: string
  ed_Aliases :: "string list"
  ed_Kind :: EdgeDomainKind
  ed_Enabled :: bool
  ed_AllowIps :: "string list"
  ed_DenyIps :: "string list"
  ed_CertStoragePath :: string
  ed_CertFileName :: string
  ed_CertFileSize :: int
  ed_KeyStoragePath :: string
  ed_KeyFileName :: string
  ed_KeyFileSize :: int
  ed_CertSubject :: string
  ed_CertSans :: "string list"
  ed_CertIssuer :: string
  ed_CertNotAfter :: int
  ed_CertFingerprint :: string
  ed_CertStatus :: EdgeCertStatus
  ed_PortForwards :: "EdgePortForward list"
  ed_ConfigVersion :: int
  ed_Note :: string

end
