(* ===== verification/Edge_Conf.thy ===== *)
theory Edge_Conf
  imports Edge_Types
begin

text \<open>
  \<open>go/tunnel/edgeconf/targets.go\<close> and \<open>validate.go\<close>: the rules for an edge
  domain on its own and against the other stored domains.  The in-place
  normalisation of the names is the domain in the \<^const>\<open>Ok\<close> result; error
  texts are reduced to their kind.
\<close>

section \<open>Targets\<close>

datatype EdgeError =
    BadName
  | WildcardDomain
  | WrongBaseDomain
  | KindRequired
  | BadIPList string
  | NameTwice string
  | SecondTunnelBase
  | NameTaken string
  | EmptyTarget
  | BadTargetHost
  | BadTargetPort
  | BadTargetWeight
  | BadListenPort
  | BadRangeEnd
  | ProtocolRequired
  | TerminateNotTls
  | TerminateNeedsCert
  | RelayNotBase
  | ModeRequired
  | RangeNotTcp
  | TargetTwice
  | NoEnabledTarget
  | BadDnsTarget
  | TargetKindRequired
  | BadHealthPath
  | BadHealthInterval
  | PortsOverlap
  | PortProtocolMixed
  | TcpPortShared

definition MaxWeight :: int where
  "MaxWeight = 100"

text \<open>\<open>net.ParseIP\<close> succeeds on an address without a zone.\<close>

definition net_ParseIP_ok :: "string \<Rightarrow> bool" where
  "net_ParseIP_ok s = (case ParseAddr s of None \<Rightarrow> False | Some a \<Rightarrow> \<not> has_zone a)"

definition CheckTarget :: "EdgeTarget option \<Rightarrow> (EdgeError, unit) result" where
  "CheckTarget t0 =
     (case t0 of
        None \<Rightarrow> Err EmptyTarget
      | Some t \<Rightarrow>
          if et_Host t = [] \<or> (list_ex (\<lambda>c. c \<in> set '' /:'') (et_Host t) \<and> \<not> net_ParseIP_ok (et_Host t)) then Err BadTargetHost
          else if et_Port t < 1 \<or> et_Port t > 65535 then Err BadTargetPort
          else if et_Weight t < 0 \<or> et_Weight t > MaxWeight then Err BadTargetWeight
          else Ok ())"

definition Weight :: "EdgeTarget \<Rightarrow> int" where
  "Weight t = (if et_Weight t < 1 then 1 else et_Weight t)"

definition Address :: "EdgeTarget \<Rightarrow> string" where
  "Address t = JoinHostPort (et_Host t) (et_Port t)"

section \<open>Names\<close>

definition NormalizeName :: "string \<Rightarrow> string option" where
  "NormalizeName s =
     (let (rest, ok) = CutPrefix (TrimSpace s) ''*.'' in
      if ok then map_option (\<lambda>d. ''*.'' @ d) (NormalizeDomain rest)
      else NormalizeDomain (TrimSpace s))"

definition Names_of :: "EdgeDomain \<Rightarrow> string list" where
  "Names_of d = ed_Domain d # ed_Aliases d"

fun normalizeAliases :: "string list \<Rightarrow> string list option" where
  "normalizeAliases [] = Some []"
| "normalizeAliases (a # as) =
     (case NormalizeName a of None \<Rightarrow> None | Some n \<Rightarrow> map_option ((#) n) (normalizeAliases as))"

definition NormalizeNames :: "EdgeDomain \<Rightarrow> (EdgeError, EdgeDomain) result" where
  "NormalizeNames d =
     (if HasPrefix (TrimSpace (ed_Domain d)) ''*.'' then Err WildcardDomain
      else case NormalizeName (ed_Domain d) of
             None \<Rightarrow> Err BadName
           | Some n \<Rightarrow>
               (case normalizeAliases (ed_Aliases d) of
                  None \<Rightarrow> Err BadName
                | Some as \<Rightarrow> Ok (d\<lparr>ed_Domain := n, ed_Aliases := as\<rparr>)))"

section \<open>Checks\<close>

definition checkIPLists :: "EdgeDomain \<Rightarrow> (EdgeError, unit) result" where
  "checkIPLists d =
     (case find (\<lambda>v. ParsePrefix v = None) (ed_AllowIps d @ ed_DenyIps d) of
        Some v \<Rightarrow> Err (BadIPList v) | None \<Rightarrow> Ok ())"

fun checkTargets :: "EdgeTarget option list \<Rightarrow> string list \<Rightarrow> nat \<Rightarrow> (EdgeError, nat) result" where
  "checkTargets [] seen enabled = Ok enabled"
| "checkTargets (t0 # ts) seen enabled =
     (case CheckTarget t0 of
        Inl e \<Rightarrow> Err e
      | Inr _ \<Rightarrow>
          let t = the t0 in
          if Address t \<in> set seen then Err TargetTwice
          else checkTargets ts (Address t # seen) (if et_Disabled t then enabled else enabled + 1))"

definition Contains_svc :: "string \<Rightarrow> bool" where
  "Contains_svc s = list_ex (\<lambda>k. take 4 (drop k s) = ''.svc'') [0..<length s]"

definition checkTarget :: "EdgePortForward \<Rightarrow> bool \<Rightarrow> (EdgeError, unit) result" where
  "checkTarget pf base =
     (case pf_TargetKind pf of
        EDGE_TARGET_KIND_TARGETS \<Rightarrow>
          (case checkTargets (pf_Targets pf) [] 0 of
             Inl e \<Rightarrow> Err e
           | Inr enabled \<Rightarrow> if enabled = 0 then Err NoEnabledTarget else Ok ())
      | EDGE_TARGET_KIND_DNS \<Rightarrow>
          if NormalizeDomain (pf_TargetDns pf) = None \<and> \<not> Contains_svc (pf_TargetDns pf) then Err BadDnsTarget
          else if pf_TargetPort pf < 1 \<or> pf_TargetPort pf > 65535 then Err BadTargetPort
          else Ok ()
      | EDGE_TARGET_KIND_NODE_LOCAL \<Rightarrow>
          if pf_TargetPort pf < 1 \<or> pf_TargetPort pf > 65535 then Err BadTargetPort else Ok ()
      | EDGE_TARGET_KIND_RELAYS \<Rightarrow> if \<not> base then Err RelayNotBase else Ok ()
      | EDGE_TARGET_KIND_UNSPECIFIED \<Rightarrow> Err TargetKindRequired)"

definition checkMode :: "EdgeDomain \<Rightarrow> EdgePortForward \<Rightarrow> (EdgeError, unit) result" where
  "checkMode d pf =
     (case pf_Mode pf of
        EDGE_FORWARD_MODE_TERMINATE \<Rightarrow>
          if pf_Protocol pf \<noteq> EDGE_PROTOCOL_TLS then Err TerminateNotTls
          else if ed_CertStatus d \<noteq> EDGE_CERT_STATUS_VALID \<and> ed_CertStatus d \<noteq> EDGE_CERT_STATUS_EXPIRING
          then Err TerminateNeedsCert else Ok ()
      | EDGE_FORWARD_MODE_PASSTHROUGH \<Rightarrow> Ok ()
      | EDGE_FORWARD_MODE_RELAY \<Rightarrow> if ed_Kind d \<noteq> EDGE_DOMAIN_KIND_TUNNEL_BASE then Err RelayNotBase else Ok ()
      | EDGE_FORWARD_MODE_UNSPECIFIED \<Rightarrow> Err ModeRequired)"

definition checkForward :: "EdgeDomain \<Rightarrow> EdgePortForward \<Rightarrow> (EdgeError, unit) result" where
  "checkForward d pf =
     (if pf_ListenPort pf < 1 \<or> pf_ListenPort pf > 65535 then Err BadListenPort
      else if pf_ListenPortEnd pf \<noteq> 0 \<and> (pf_ListenPortEnd pf \<le> pf_ListenPort pf \<or> pf_ListenPortEnd pf > 65535)
      then Err BadRangeEnd
      else if pf_Protocol pf = EDGE_PROTOCOL_UNSPECIFIED then Err ProtocolRequired
      else case checkMode d pf of
             Inl e \<Rightarrow> Err e
           | Inr _ \<Rightarrow>
               if pf_ListenPortEnd pf \<noteq> 0 \<and> pf_Protocol pf \<noteq> EDGE_PROTOCOL_TCP then Err RangeNotTcp
               else case checkTarget pf (ed_Kind d = EDGE_DOMAIN_KIND_TUNNEL_BASE) of
                      Inl e \<Rightarrow> Err e
                    | Inr _ \<Rightarrow>
                        if (pf_HealthType pf = EDGE_HEALTH_TYPE_HTTP \<or> pf_HealthType pf = EDGE_HEALTH_TYPE_HTTPS) \<and>
                           \<not> HasPrefix (pf_HealthPath pf) ''/'' then Err BadHealthPath
                        else if pf_HealthInterval pf < 0 \<or> pf_HealthInterval pf > 3600 then Err BadHealthInterval
                        else Ok ())"

definition port_end :: "EdgePortForward \<Rightarrow> int" where
  "port_end a = (if pf_ListenPortEnd a = 0 then pf_ListenPort a else pf_ListenPortEnd a)"

definition overlap :: "EdgePortForward \<Rightarrow> EdgePortForward \<Rightarrow> bool" where
  "overlap a b \<longleftrightarrow> pf_ListenPort a \<le> port_end b \<and> pf_ListenPort b \<le> port_end a"

text \<open>The first check of \<open>checkPortConflicts\<close>: a domain's own forwards.\<close>

fun ownOverlap :: "EdgePortForward list \<Rightarrow> bool" where
  "ownOverlap [] = False"
| "ownOverlap (a # as) = (list_ex (overlap a) as \<or> ownOverlap as)"

text \<open>The error one pair of forwards of different domains gives, if any.\<close>

definition pairConflict :: "EdgePortForward \<Rightarrow> EdgePortForward \<Rightarrow> EdgeError option" where
  "pairConflict a b =
     (if \<not> overlap a b then None
      else if pf_Protocol a \<noteq> pf_Protocol b then Some PortProtocolMixed
      else if pf_Protocol a = EDGE_PROTOCOL_TCP then Some TcpPortShared
      else None)"

definition checkPortConflicts :: "EdgeDomain \<Rightarrow> EdgeDomain list \<Rightarrow> (EdgeError, unit) result" where
  "checkPortConflicts d others =
     (if ownOverlap (ed_PortForwards d) then Err PortsOverlap
      else case List.map_filter (\<lambda>(o', a, b). if ed_DomainId o' = ed_DomainId d then None else pairConflict a b)
                  (concat (map (\<lambda>o'. concat (map (\<lambda>a. map (\<lambda>b. (o', a, b)) (ed_PortForwards o')) (ed_PortForwards d))) others)) of
             [] \<Rightarrow> Ok ()
           | e # _ \<Rightarrow> Err e)"

fun firstDuplicate :: "string list \<Rightarrow> string list \<Rightarrow> string option" where
  "firstDuplicate [] seen = None"
| "firstDuplicate (n # ns) seen = (if n \<in> set seen then Some n else firstDuplicate ns (n # seen))"

fun checkOthers :: "EdgeDomain \<Rightarrow> EdgeDomain list \<Rightarrow> (EdgeError, unit) result" where
  "checkOthers d [] = Ok ()"
| "checkOthers d (o' # os) =
     (if ed_DomainId o' = ed_DomainId d then checkOthers d os
      else if ed_Kind d = EDGE_DOMAIN_KIND_TUNNEL_BASE \<and> ed_Kind o' = ed_Kind d then Err SecondTunnelBase
      else case find (\<lambda>n. ToLower n \<in> set (Names_of d)) (Names_of o') of
             Some n \<Rightarrow> Err (NameTaken n)
           | None \<Rightarrow> checkOthers d os)"

fun checkForwards :: "EdgeDomain \<Rightarrow> EdgePortForward list \<Rightarrow> (EdgeError, unit) result" where
  "checkForwards d [] = Ok ()"
| "checkForwards d (pf # pfs) = (case checkForward d pf of Inl e \<Rightarrow> Err e | Inr _ \<Rightarrow> checkForwards d pfs)"

definition checkKind :: "EdgeDomain \<Rightarrow> string \<Rightarrow> (EdgeError, unit) result" where
  "checkKind d baseDomain =
     (case ed_Kind d of
        EDGE_DOMAIN_KIND_SITE \<Rightarrow> Ok ()
      | EDGE_DOMAIN_KIND_TUNNEL_BASE \<Rightarrow> if ed_Domain d \<noteq> baseDomain then Err WrongBaseDomain else Ok ()
      | EDGE_DOMAIN_KIND_UNSPECIFIED \<Rightarrow> Err KindRequired)"

definition ValidateDomain :: "EdgeDomain \<Rightarrow> EdgeDomain list \<Rightarrow> string \<Rightarrow> (EdgeError, EdgeDomain) result" where
  "ValidateDomain d0 others baseDomain =
     (case NormalizeNames d0 of
        Inl e \<Rightarrow> Err e
      | Inr d \<Rightarrow>
     (case checkKind d baseDomain of
        Inl e \<Rightarrow> Err e
      | Inr _ \<Rightarrow>
     (case checkIPLists d of
        Inl e \<Rightarrow> Err e
      | Inr _ \<Rightarrow>
     (case firstDuplicate (Names_of d) [] of
        Some n \<Rightarrow> Err (NameTwice n)
      | None \<Rightarrow>
     (case checkOthers d others of
        Inl e \<Rightarrow> Err e
      | Inr _ \<Rightarrow>
     (case checkForwards d (ed_PortForwards d) of
        Inl e \<Rightarrow> Err e
      | Inr _ \<Rightarrow>
     (case checkPortConflicts d others of
        Inl e \<Rightarrow> Err e
      | Inr _ \<Rightarrow> Ok d)))))))"

section \<open>What validation establishes\<close>

lemma NormalizeDomain_lower: "NormalizeDomain s = Some d \<Longrightarrow> ToLower d = d"
  by (auto simp: NormalizeDomain_Some_iff)

lemma NormalizeName_lower: "NormalizeName s = Some n \<Longrightarrow> ToLower n = n"
  by (auto simp: NormalizeName_def Let_def NormalizeDomain_Some_iff ToLower_def lower_char_def is_upper_def char_code_def
      dest: NormalizeDomain_lower split: prod.splits if_splits)

lemma normalizeAliases_lower: "normalizeAliases as = Some ns \<Longrightarrow> \<forall>n\<in>set ns. ToLower n = n"
  by (induction as arbitrary: ns) (auto split: option.splits dest: NormalizeName_lower)

lemma NormalizeNames_Ok:
  assumes "NormalizeNames d = Ok d'"
  shows "\<forall>n\<in>set (Names_of d'). ToLower n = n"
    and "ed_DomainId d' = ed_DomainId d" "ed_PortForwards d' = ed_PortForwards d" "ed_Kind d' = ed_Kind d"
  using assms NormalizeName_lower [of "ed_Domain d" "ed_Domain d'"] normalizeAliases_lower [of "ed_Aliases d" "ed_Aliases d'"]
  by (auto simp: NormalizeNames_def Names_of_def split: if_splits option.splits)

lemma firstDuplicate_None: "firstDuplicate ns seen = None \<longleftrightarrow> distinct ns \<and> set ns \<inter> set seen = {}"
  by (induction ns seen rule: firstDuplicate.induct) auto

text \<open>Two stored domains are compatible: no name in common, at most one tunnel
  base, and a port both serve has one protocol, which is not TCP.\<close>

definition compatible :: "EdgeDomain \<Rightarrow> EdgeDomain \<Rightarrow> bool" where
  "compatible d o' \<longleftrightarrow>
     set (Names_of d) \<inter> set (Names_of o') = {} \<and>
     \<not> (ed_Kind d = EDGE_DOMAIN_KIND_TUNNEL_BASE \<and> ed_Kind o' = EDGE_DOMAIN_KIND_TUNNEL_BASE) \<and>
     (\<forall>a\<in>set (ed_PortForwards d). \<forall>b\<in>set (ed_PortForwards o'). overlap a b \<longrightarrow>
        pf_Protocol a = pf_Protocol b \<and> pf_Protocol a \<noteq> EDGE_PROTOCOL_TCP)"

definition domain_ok :: "EdgeDomain \<Rightarrow> bool" where
  "domain_ok d \<longleftrightarrow>
     (\<forall>n\<in>set (Names_of d). ToLower n = n) \<and> distinct (Names_of d) \<and>
     \<not> ownOverlap (ed_PortForwards d) \<and> (\<forall>pf\<in>set (ed_PortForwards d). checkForward d pf = Ok ())"

definition conf_ok :: "EdgeDomain list \<Rightarrow> bool" where
  "conf_ok ds \<longleftrightarrow>
     distinct (map ed_DomainId ds) \<and> (\<forall>d\<in>set ds. domain_ok d) \<and>
     (\<forall>d\<in>set ds. \<forall>o'\<in>set ds. d \<noteq> o' \<longrightarrow> compatible d o')"

lemma overlap_sym: "overlap a b \<longleftrightarrow> overlap b a"
  by (auto simp: overlap_def)

lemma compatible_sym: "compatible d o' \<Longrightarrow> compatible o' d"
  unfolding compatible_def by (metis Int_commute overlap_sym)

lemma checkOthers_Ok:
  "checkOthers d os = Ok () \<Longrightarrow> o' \<in> set os \<Longrightarrow> ed_DomainId o' \<noteq> ed_DomainId d \<Longrightarrow>
     \<not> (ed_Kind d = EDGE_DOMAIN_KIND_TUNNEL_BASE \<and> ed_Kind o' = ed_Kind d) \<and>
     (\<forall>n\<in>set (Names_of o'). ToLower n \<notin> set (Names_of d))"
  by (induction os) (auto simp: find_None_iff split: if_splits option.splits)

lemma checkForwards_Ok: "checkForwards d pfs = Ok () \<longleftrightarrow> (\<forall>pf\<in>set pfs. checkForward d pf = Ok ())"
  by (induction pfs) (auto split: sum.splits)

lemma map_filter_Nil_iff: "List.map_filter f xs = [] \<longleftrightarrow> (\<forall>x\<in>set xs. f x = None)"
  by (induction xs) (auto simp: List.map_filter_simps split: option.splits)

lemma checkPortConflicts_Ok:
  "checkPortConflicts d os = Ok () \<longleftrightarrow>
     \<not> ownOverlap (ed_PortForwards d) \<and>
     (\<forall>o'\<in>set os. ed_DomainId o' \<noteq> ed_DomainId d \<longrightarrow>
        (\<forall>a\<in>set (ed_PortForwards d). \<forall>b\<in>set (ed_PortForwards o'). pairConflict a b = None))"
proof -
  let ?xs = "concat (map (\<lambda>o'. concat (map (\<lambda>a. map (\<lambda>b. (o', a, b)) (ed_PortForwards o')) (ed_PortForwards d))) os)"
  let ?f = "\<lambda>(o', a, b). if ed_DomainId o' = ed_DomainId d then None else pairConflict a b"
  have "checkPortConflicts d os = Ok () \<longleftrightarrow> \<not> ownOverlap (ed_PortForwards d) \<and> List.map_filter ?f ?xs = []"
    unfolding checkPortConflicts_def by (simp split: list.split)
  also have "List.map_filter ?f ?xs = [] \<longleftrightarrow>
     (\<forall>o'\<in>set os. \<forall>a\<in>set (ed_PortForwards d). \<forall>b\<in>set (ed_PortForwards o'). ?f (o', a, b) = None)"
    unfolding map_filter_Nil_iff by auto
  finally show ?thesis by auto
qed

lemma pairConflict_None:
  "pairConflict a b = None \<longleftrightarrow> (overlap a b \<longrightarrow> pf_Protocol a = pf_Protocol b \<and> pf_Protocol a \<noteq> EDGE_PROTOCOL_TCP)"
  by (simp add: pairConflict_def)

lemma ValidateDomain_OkD:
  assumes "ValidateDomain d0 os base = Ok d"
  shows "NormalizeNames d0 = Ok d" "checkKind d base = Ok ()" "checkIPLists d = Ok ()"
    and "firstDuplicate (Names_of d) [] = None" "checkOthers d os = Ok ()"
    and "checkForwards d (ed_PortForwards d) = Ok ()" "checkPortConflicts d os = Ok ()"
  using assms by (auto simp: ValidateDomain_def split: sum.splits option.splits)

lemma ValidateDomain_ok:
  assumes "ValidateDomain d0 os base = Ok d"
  shows "domain_ok d" "ed_DomainId d = ed_DomainId d0"
    and "o' \<in> set os \<Longrightarrow> \<forall>n\<in>set (Names_of o'). ToLower n = n \<Longrightarrow> ed_DomainId o' \<noteq> ed_DomainId d \<Longrightarrow> compatible d o'"
proof -
  note v = ValidateDomain_OkD [OF assms]
  show "domain_ok d"
    using NormalizeNames_Ok(1) [OF v(1)] v(4,6,7)
    by (simp add: domain_ok_def firstDuplicate_None checkForwards_Ok checkPortConflicts_Ok)
  show "ed_DomainId d = ed_DomainId d0" by (rule NormalizeNames_Ok(2) [OF v(1)])
  show "compatible d o'" if "o' \<in> set os" "\<forall>n\<in>set (Names_of o'). ToLower n = n" "ed_DomainId o' \<noteq> ed_DomainId d"
    unfolding compatible_def
    using checkOthers_Ok [OF v(5) that(1,3)] that(2) v(7) [unfolded checkPortConflicts_Ok pairConflict_None] that(1,3)
    by (metis disjoint_iff)
qed

text \<open>Storing a validated domain, in place of its previous version.\<close>

definition storeDomain :: "EdgeDomain \<Rightarrow> EdgeDomain list \<Rightarrow> EdgeDomain list" where
  "storeDomain d ds = d # filter (\<lambda>o'. ed_DomainId o' \<noteq> ed_DomainId d) ds"

lemma storeDomain_ok:
  assumes "conf_ok ds" "ValidateDomain d0 ds base = Ok d"
  shows "conf_ok (storeDomain d ds)"
proof -
  have ds: "\<And>o'. o' \<in> set ds \<Longrightarrow> domain_ok o'" using assms(1) by (simp add: conf_ok_def)
  have c: "compatible d o'" if "o' \<in> set ds" "ed_DomainId o' \<noteq> ed_DomainId d" for o'
    using ValidateDomain_ok(3) [OF assms(2) that(1) _ that(2)] ds [OF that(1)] by (simp add: domain_ok_def)
  have "distinct (map ed_DomainId (storeDomain d ds))"
    using assms(1) by (auto simp: conf_ok_def storeDomain_def distinct_map_filter)
  moreover have "\<forall>o'\<in>set (storeDomain d ds). domain_ok o'"
    using ds ValidateDomain_ok(1) [OF assms(2)] by (auto simp: storeDomain_def)
  moreover have "\<forall>a\<in>set (storeDomain d ds). \<forall>b\<in>set (storeDomain d ds). a \<noteq> b \<longrightarrow> compatible a b"
    using assms(1) c compatible_sym by (auto simp: storeDomain_def conf_ok_def)
  ultimately show ?thesis unfolding conf_ok_def by blast
qed

lemma conf_ok_remove: "conf_ok ds \<Longrightarrow> conf_ok (filter P ds)"
  by (auto simp: conf_ok_def distinct_map_filter)

text \<open>The ports a forward listens on.\<close>

definition forward_ports :: "EdgePortForward \<Rightarrow> int list" where
  "forward_ports f = [pf_ListenPort f..port_end f]"

lemma same_port_overlap: "p \<in> set (forward_ports a) \<Longrightarrow> p \<in> set (forward_ports b) \<Longrightarrow> overlap a b"
  by (auto simp: forward_ports_def overlap_def)

lemma ownOverlap_distinct:
  "\<not> ownOverlap as \<Longrightarrow> a \<in> set as \<Longrightarrow> b \<in> set as \<Longrightarrow> a \<noteq> b \<Longrightarrow> \<not> overlap a b"
  by (induction as) (auto simp: list_ex_iff overlap_sym)

end
