(* ===== verification/Edge_Balance.thy ===== *)
theory Edge_Balance
  imports Edge_Pool Complex_Main "HOL-Library.Multiset"
begin

text \<open>
  What the edge's balancing guarantees.  The locale \<open>chooser\<close> is what a dial
  relies on of a balancing algorithm: it picks one of the candidates and
  changes nothing but round-robin counters.  It is interpreted on the four
  algorithms of \<open>pick\<close>.
\<close>

section \<open>The heap of members\<close>

lemma mem_upd [simp]: "mem (upd_mem i f p) j = (if j = i then f (mem p i) else mem p j)"
  by (simp add: mem_def upd_mem_def update_conv')

lemma upd_mem_frame [simp]:
  "pl_members (upd_mem i f p) = pl_members p" "pl_fwd (upd_mem i f p) = pl_fwd p" "pl_id (upd_mem i f p) = pl_id p"
  "pl_nodeIP (upd_mem i f p) = pl_nodeIP p" "pl_stopped (upd_mem i f p) = pl_stopped p" "pl_next (upd_mem i f p) = pl_next p"
  by (simp_all add: upd_mem_def)

definition keeps_pool :: "pool \<Rightarrow> pool \<Rightarrow> bool" where
  "keeps_pool p q \<longleftrightarrow> pl_members q = pl_members p \<and> pl_fwd q = pl_fwd p \<and>
     (\<forall>i. mem q i = (mem p i)\<lparr>mb_current := mb_current (mem q i)\<rparr>)"

lemma keeps_refl [simp]: "keeps_pool p p"
  by (simp add: keeps_pool_def)

lemma keeps_trans: "keeps_pool p q \<Longrightarrow> keeps_pool q r \<Longrightarrow> keeps_pool p r"
  unfolding keeps_pool_def by (metis member.surjective member.update_convs(11))

lemma keeps_current: "keeps_pool p (upd_mem i (\<lambda>m. m\<lparr>mb_current := f m\<rparr>) p)"
  by (simp add: keeps_pool_def)

lemma keeps_fields:
  assumes "keeps_pool p q"
  shows "mb_disabled (mem q i) = mb_disabled (mem p i)" "mb_healthy (mem q i) = mb_healthy (mem p i)"
    and "mb_addr (mem q i) = mb_addr (mem p i)" "mb_weight (mem q i) = mb_weight (mem p i)"
    and "candidates q tried = candidates p tried"
proof -
  have m: "mem q j = (mem p j)\<lparr>mb_current := mb_current (mem q j)\<rparr>" for j
    using assms by (simp add: keeps_pool_def)
  show d: "mb_disabled (mem q i) = mb_disabled (mem p i)" for i by (subst m) simp
  show h: "mb_healthy (mem q i) = mb_healthy (mem p i)" for i by (subst m) simp
  show "mb_addr (mem q i) = mb_addr (mem p i)" "mb_weight (mem q i) = mb_weight (mem p i)" by (subst m, simp)+
  have "pl_members q = pl_members p" using assms by (simp add: keeps_pool_def)
  then show "candidates q tried = candidates p tried" by (simp add: candidates_def d h)
qed

section \<open>Algorithms\<close>

locale chooser =
  fixes sel :: "nat list \<Rightarrow> pool \<Rightarrow> nat \<times> pool"
  assumes chosen: "cands \<noteq> [] \<Longrightarrow> fst (sel cands p) \<in> set cands"
    and frame: "cands \<noteq> [] \<Longrightarrow> keeps_pool p (snd (sel cands p))"
begin

lemma eligible:
  assumes "candidates p tried \<noteq> []"
  defines "r \<equiv> sel (candidates p tried) p"
  shows "fst r \<in> set (pl_members p)" "fst r \<notin> set tried" "mb_healthy (mem p (fst r))" "\<not> mb_disabled (mem p (fst r))"
    and "candidates (snd r) tried' = candidates p tried'"
  using chosen [OF assms(1), of p] keeps_fields(5) [OF frame [OF assms(1), of p]]
  by (auto simp: r_def candidates_def)

end

lemma bestScore_in: "bestScore score is b \<in> insert b (set is)"
  by (induction "is" arbitrary: b) (simp_all, metis insertE insertI1 insertI2)

lemma bestScore_max: "j \<in> insert b (set is) \<Longrightarrow> score j \<le> score (bestScore score is b)"
proof (induction "is" arbitrary: b j)
  case (Cons i "is")
  let ?c = "if score i > score b then i else b"
  have "score ?c \<le> score (bestScore score is ?c)" by (rule Cons.IH) simp
  moreover have "score i \<le> score ?c" "score b \<le> score ?c" by auto
  ultimately have "score i \<le> score (bestScore score is ?c)" "score b \<le> score (bestScore score is ?c)"
    using order_trans by blast+
  moreover have "j \<in> set is \<Longrightarrow> score j \<le> score (bestScore score is ?c)" by (rule Cons.IH) simp
  ultimately show ?case using Cons.prems by (auto simp only: bestScore.simps insert_iff list.set)
qed simp

definition load :: "pool \<Rightarrow> nat \<Rightarrow> rat" where
  "load p i = of_int (mb_active (mem p i)) / of_int (mb_weight (mem p i))"

lemma leastConn_bestScore:
  assumes "\<forall>j\<in>insert b (set is). 0 < mb_weight (mem p j)"
  shows "leastConn p is b = bestScore (\<lambda>j. - load p j) is b"
  using assms
proof (induction "is" arbitrary: b)
  case (Cons i "is")
  have "mb_active (mem p i) * mb_weight (mem p b) < mb_active (mem p b) * mb_weight (mem p i) \<longleftrightarrow> load p i < load p b"
    using Cons.prems unfolding load_def
    by (simp add: divide_less_eq less_divide_eq field_simps flip: of_int_mult of_int_less_iff)
  then show ?case using Cons by simp
qed simp

lemma leastConn_in: "leastConn p is b \<in> insert b (set is)"
  by (induction "is" arbitrary: b) (simp_all, metis insertE insertI1 insertI2)

lemma leastConn_min:
  assumes "\<forall>j\<in>insert b (set is). 0 < mb_weight (mem p j)" "j \<in> insert b (set is)"
  shows "mb_active (mem p (leastConn p is b)) * mb_weight (mem p j) \<le> mb_active (mem p j) * mb_weight (mem p (leastConn p is b))"
proof -
  let ?r = "leastConn p is b"
  have "load p ?r \<le> load p j"
    using bestScore_max [OF assms(2), of "\<lambda>j. - load p j"] leastConn_bestScore [OF assms(1)] by simp
  moreover have "0 < mb_weight (mem p ?r)" "0 < mb_weight (mem p j)"
    using assms leastConn_in [of p "is" b] by blast+
  ultimately have "(of_int (mb_active (mem p ?r) * mb_weight (mem p j)) :: rat)
      \<le> of_int (mb_active (mem p j) * mb_weight (mem p ?r))"
    unfolding load_def by (simp add: divide_le_eq le_divide_eq field_simps)
  then show ?thesis by (simp only: of_int_le_iff)
qed

text \<open>Smooth weighted round robin: one round adds its weight to every
  candidate's counter and takes the first of the largest.\<close>

abbreviation cur :: "pool \<Rightarrow> nat \<Rightarrow> int" where
  "cur p i \<equiv> mb_current (mem p i)"

abbreviation wt :: "pool \<Rightarrow> nat \<Rightarrow> int" where
  "wt p i \<equiv> mb_weight (mem p i)"

lemma srrLoop_keeps:
  "keeps_pool p (fst (srrLoop is (p, tot, best)))"
proof (induction "is" arbitrary: p tot best)
  case (Cons i "is")
  show ?case
    unfolding srrLoop.simps Let_def by (rule keeps_trans [OF keeps_current Cons.IH])
qed simp

lemma srrLoop_Cons:
  obtains best' where
    "srrLoop (i # is) (p, tot, best) =
       srrLoop is (upd_mem i (\<lambda>m. m\<lparr>mb_current := mb_current m + mb_weight m\<rparr>) p, tot + wt p i, best')"
    "best' = Some i \<or> best' = best \<and> best \<noteq> None"
  by (cases best) (auto simp: Let_def)

lemma srrLoop_best:
  assumes "is \<noteq> [] \<or> best \<noteq> None"
  shows "snd (snd (srrLoop is (p, tot, best))) \<in> (if best = None then {} else {best}) \<union> Some ` set is"
  using assms
proof (induction "is" arbitrary: p tot best)
  case (Cons i "is")
  obtain best' where step: "srrLoop (i # is) (p, tot, best) =
       srrLoop is (upd_mem i (\<lambda>m. m\<lparr>mb_current := mb_current m + mb_weight m\<rparr>) p, tot + wt p i, best')"
    and b: "best' = Some i \<or> best' = best \<and> best \<noteq> None" by (rule srrLoop_Cons)
  have "best' \<noteq> None" using b by auto
  then show ?case
    unfolding step using b
      Cons.IH [of best' "upd_mem i (\<lambda>m. m\<lparr>mb_current := mb_current m + mb_weight m\<rparr>) p" "tot + wt p i"] by auto
qed simp

lemma smoothRoundRobin_chosen:
  assumes "cands \<noteq> []"
  shows "fst (smoothRoundRobin cands p) \<in> set cands" "keeps_pool p (snd (smoothRoundRobin cands p))"
proof -
  obtain p1 tot best where l: "srrLoop cands (p, 0, None) = (p1, tot, best)" by (metis prod_cases3)
  then show "fst (smoothRoundRobin cands p) \<in> set cands"
    using srrLoop_best [of cands None p 0] assms by (auto simp: smoothRoundRobin_def)
  show "keeps_pool p (snd (smoothRoundRobin cands p))"
    using keeps_trans [OF _ keeps_current] srrLoop_keeps [of p cands 0 None] l by (simp add: smoothRoundRobin_def)
qed

interpretation least_conn: chooser "\<lambda>cands p. (leastConn p (tl cands) (hd cands), p)"
proof
  show "fst (leastConn p (tl cands) (hd cands), p) \<in> set cands" if "cands \<noteq> []" for cands p
    using leastConn_in [of p "tl cands" "hd cands"] that by (cases cands) simp_all
qed simp

interpretation source_hash: chooser "\<lambda>cands p. (bestScore (\<lambda>i. hashScore client (mem p i)) (tl cands) (hd cands), p)" for client
proof
  show "fst (bestScore (\<lambda>i. hashScore client (mem p i)) (tl cands) (hd cands), p) \<in> set cands" if "cands \<noteq> []" for cands p
    using bestScore_in [of "\<lambda>i. hashScore client (mem p i)" "tl cands" "hd cands"] that by (cases cands) simp_all
qed simp

interpretation two_random: chooser "\<lambda>cands p. (let a = cands ! (ra mod length cands); b = cands ! (rb mod length cands)
    in if mb_active (mem p b) < mb_active (mem p a) then b else a, p)" for ra rb
  by unfold_locales (simp_all add: Let_def)

interpretation round_robin: chooser smoothRoundRobin
  by unfold_locales (fact smoothRoundRobin_chosen)+

text \<open>What a dial needs of \<open>pick\<close>, whatever the algorithm.\<close>

lemma pool_pick_Some:
  assumes ne: "candidates p tried \<noteq> []"
  shows "\<exists>i q. pool_pick ra rb client tried p = (Some i, q) \<and> i \<in> set (candidates p tried) \<and> keeps_pool p q"
proof -
  obtain c cs where c: "candidates p tried = c # cs" using ne by (cases "candidates p tried") simp_all
  note lemmas' = least_conn.chosen [OF ne, of p] source_hash.chosen [OF ne, of client p]
    two_random.chosen [OF ne, of ra rb p] round_robin.chosen [OF ne, of p] round_robin.frame [OF ne, of p]
  show ?thesis
  proof (cases "pf_Lb (pl_fwd p)")
    case EDGE_LB_ALGORITHM_LEAST_CONN
    then show ?thesis using lemmas'(1) by (simp add: pool_pick_def c)
  next
    case EDGE_LB_ALGORITHM_SOURCE_HASH
    then show ?thesis using lemmas'(2) by (simp add: pool_pick_def c)
  next
    case EDGE_LB_ALGORITHM_RANDOM
    then show ?thesis using lemmas'(3) by (simp add: pool_pick_def c Let_def)
  qed (use lemmas'(4,5) in \<open>simp_all add: pool_pick_def c Let_def map_prod_def split_beta\<close>)
qed

lemma pool_pick_spec:
  assumes "pool_pick ra rb client tried p = (r, q)"
  shows "r = None \<longleftrightarrow> candidates p tried = []" "\<forall>i. r = Some i \<longrightarrow> i \<in> set (candidates p tried)" "keeps_pool p q"
proof (atomize (full), cases "candidates p tried = []")
  case True
  then show "(r = None \<longleftrightarrow> candidates p tried = []) \<and> (\<forall>i. r = Some i \<longrightarrow> i \<in> set (candidates p tried)) \<and> keeps_pool p q"
    using assms by (simp add: pool_pick_def)
next
  case False
  show "(r = None \<longleftrightarrow> candidates p tried = []) \<and> (\<forall>i. r = Some i \<longrightarrow> i \<in> set (candidates p tried)) \<and> keeps_pool p q"
    using assms pool_pick_Some [OF False, of ra rb client] False by auto
qed

section \<open>Dialing\<close>

lemma dialOne_False: "dialOne up now i p = (False, q) \<longleftrightarrow>
    \<not> up (mb_addr (mem p i)) \<and> q = upd_mem i (member_failed now ''dial failed'') p"
  by (auto simp: dialOne_def)

lemma candidates_failed:
  "candidates (upd_mem i (member_failed now why) p) (i # tried) = filter (\<lambda>j. j \<noteq> i) (candidates p tried)"
  by (auto simp: candidates_def intro!: filter_cong)

text \<open>The loop ends: a round uses up one candidate.\<close>

lemma dialLoop_total:
  "length (candidates p tried) + (if first = None then 0 else 1) < fuel \<Longrightarrow>
     dialLoop fuel up now ra rb client first tried p \<noteq> None"
proof (induction fuel arbitrary: first tried p)
  case (Suc fuel)
  show ?case
  proof (cases first)
    case (Some i)
    have "length (filter (\<lambda>j. j \<noteq> i) (candidates p tried)) < fuel"
      using Suc.prems Some by (simp add: le_less_trans [OF length_filter_le])
    then show ?thesis
      using Some Suc.IH [of "upd_mem i (member_failed now ''dial failed'') p" "i # tried" None]
      by (simp add: dialOne_def candidates_failed)
  next
    case None
    obtain r q where pick: "pool_pick (ra fuel) (rb fuel) client tried p = (r, q)" by fastforce
    note spec = pool_pick_spec [OF pick]
    show ?thesis
    proof (cases r)
      case (Some i)
      have c: "candidates q tried = candidates p tried" by (rule keeps_fields(5) [OF spec(3)])
      have "i \<in> set (candidates p tried)" using spec(2) Some by blast
      then have "length (filter (\<lambda>j. j \<noteq> i) (candidates p tried)) < length (candidates p tried)"
        by (auto intro: length_filter_less)
      then have "length (filter (\<lambda>j. j \<noteq> i) (candidates q tried)) < fuel" using Suc.prems None c by simp
      then show ?thesis
        using None pick Some Suc.IH [of "upd_mem i (member_failed now ''dial failed'') q" "i # tried" None]
        by (simp add: dialOne_def candidates_failed)
    qed (simp add: None pick)
  qed
qed simp

lemma dialFrom_total: "dialFrom up now ra rb client first p \<noteq> None"
proof -
  have "length (candidates p []) \<le> length (pl_members p)" by (simp add: candidates_def)
  then show ?thesis unfolding dialFrom_def by (intro dialLoop_total) simp
qed

definition reachable_member :: "(string \<Rightarrow> bool) \<Rightarrow> pool \<Rightarrow> nat option \<Rightarrow> nat list \<Rightarrow> nat \<Rightarrow> bool" where
  "reachable_member up p first tried i \<longleftrightarrow>
     (first = Some i \<or> i \<in> set (candidates p tried)) \<and> up (mb_addr (mem p i))"

lemma reachable_after_failure:
  assumes "keeps_pool p q" "\<not> up (mb_addr (mem p i))"
  shows "reachable_member up (upd_mem i (member_failed now why) q) None (i # tried) j \<longleftrightarrow>
    j \<noteq> i \<and> reachable_member up p None tried j"
  using keeps_fields(3,5) [OF assms(1)]
  by (auto simp: reachable_member_def candidates_failed)

lemma dialLoop_result:
  assumes "dialLoop fuel up now ra rb client first tried p = Some (r, q)"
  shows "(\<forall>i. r = Some i \<longrightarrow> reachable_member up p first tried i) \<and>
    (r = None \<longrightarrow> \<not> (\<exists>i. reachable_member up p first tried i))"
  using assms
proof (induction fuel arbitrary: first tried p)
  case (Suc fuel)
  obtain r1 q1 where pick: "(case first of Some i \<Rightarrow> (Some i, p)
      | None \<Rightarrow> pool_pick (ra fuel) (rb fuel) client tried p) = (r1, q1)" by fastforce
  have keeps: "keeps_pool p q1" using pick pool_pick_spec(3) by (auto split: option.splits)
  have elig: "\<forall>i. r1 = Some i \<longrightarrow> first = Some i \<or> first = None \<and> i \<in> set (candidates p tried)"
    using pick pool_pick_spec(2) by (auto split: option.splits)
  show ?case
  proof (cases r1)
    case None
    then have "first = None" using pick by (cases first) simp_all
    moreover have "candidates p tried = []"
      using pick None \<open>first = None\<close> pool_pick_spec(1) [of "ra fuel" "rb fuel" client tried p r1 q1] by simp
    moreover have "r = None" using Suc.prems pick None by simp
    ultimately show ?thesis by (simp add: reachable_member_def)
  next
    case (Some i)
    have addr: "mb_addr (mem q1 i) = mb_addr (mem p i)" by (rule keeps_fields(3) [OF keeps])
    show ?thesis
    proof (cases "up (mb_addr (mem p i))")
      case True
      then have "r = Some i" using Suc.prems pick Some addr by (simp add: dialOne_def)
      then show ?thesis using elig Some True by (auto simp: reachable_member_def)
    next
      case False
      let ?q = "upd_mem i (member_failed now ''dial failed'') q1"
      have "dialLoop fuel up now ra rb client None (i # tried) ?q = Some (r, q)"
        using Suc.prems pick Some addr False by (simp add: dialOne_def)
      note IH = Suc.IH [OF this]
      have eq: "reachable_member up ?q None (i # tried) j \<longleftrightarrow> j \<noteq> i \<and> reachable_member up p None tried j" for j
        by (rule reachable_after_failure [of p q1 up i now _ tried j, OF keeps False])
      have "reachable_member up p first tried j \<longleftrightarrow> j \<noteq> i \<and> reachable_member up p None tried j" for j
        using elig Some False by (auto simp: reachable_member_def)
      then show ?thesis using IH eq by simp
    qed
  qed
qed simp

text \<open>Dialing changes health, counters and connection counts, not who the members
  are.\<close>

definition same_members :: "pool \<Rightarrow> pool \<Rightarrow> bool" where
  "same_members p q \<longleftrightarrow> pl_members q = pl_members p \<and> pl_fwd q = pl_fwd p \<and>
     (\<forall>i. mb_addr (mem q i) = mb_addr (mem p i) \<and> mb_weight (mem q i) = mb_weight (mem p i) \<and>
        mb_disabled (mem q i) = mb_disabled (mem p i))"

lemma same_members_trans: "same_members p q \<Longrightarrow> same_members q r \<Longrightarrow> same_members p r"
  by (simp add: same_members_def)

lemma keeps_same: "keeps_pool p q \<Longrightarrow> same_members p q"
  by (simp add: same_members_def keeps_fields) (simp add: keeps_pool_def)

lemma dialOne_same: "same_members p (snd (dialOne up now i p))"
  by (simp add: same_members_def dialOne_def member_failed_def Let_def)

lemma dialLoop_same:
  "dialLoop fuel up now ra rb client first tried p = Some (r, q) \<Longrightarrow> same_members p q"
proof (induction fuel arbitrary: first tried p)
  case (Suc fuel)
  obtain r1 q1 where pick: "(case first of Some i \<Rightarrow> (Some i, p)
      | None \<Rightarrow> pool_pick (ra fuel) (rb fuel) client tried p) = (r1, q1)" by fastforce
  have same: "same_members p q1"
    using pick pool_pick_spec(3) keeps_same by (auto simp: keeps_same split: option.splits)
  show ?case
  proof (cases r1)
    case None
    then show ?thesis using Suc.prems pick same by simp
  next
    case (Some i)
    obtain ok q2 where d: "dialOne up now i q1 = (ok, q2)" by fastforce
    have same2: "same_members p q2" using same_members_trans [OF same] dialOne_same [of q1 up now i] d by simp
    show ?thesis
      using Suc.prems pick Some d same2 Suc.IH [of None "i # tried" q2] same_members_trans [OF same2]
      by (cases ok) auto
  qed
qed simp

end
