(* ===== verification/Edge_Fair.thy ===== *)
theory Edge_Fair
  imports Edge_Balance
begin

text \<open>
  Fairness of the smooth weighted round robin, stability of the source-hash
  choice, the health check's hysteresis, and what a pool built from a
  validated forward looks like.
\<close>

section \<open>Smooth weighted round robin\<close>

lemma srrLoop_cur:
  assumes "distinct is"
  shows "cur (fst (srrLoop is (p, tot, best))) j = cur p j + (if j \<in> set is then wt p j else 0)"
    and "fst (snd (srrLoop is (p, tot, best))) = tot + (\<Sum>i\<in>set is. wt p i)"
proof -
  have "cur (fst (srrLoop is (p, tot, best))) j = cur p j + (if j \<in> set is then wt p j else 0) \<and>
      fst (snd (srrLoop is (p, tot, best))) = tot + (\<Sum>i\<in>set is. wt p i)"
    using assms
  proof (induction "is" arbitrary: p tot best)
    case (Cons i "is")
    let ?p = "upd_mem i (\<lambda>m. m\<lparr>mb_current := mb_current m + mb_weight m\<rparr>) p"
    obtain best' where step: "srrLoop (i # is) (p, tot, best) = srrLoop is (?p, tot + wt p i, best')"
      by (rule srrLoop_Cons)
    have "(\<Sum>k\<in>set is. wt ?p k) = (\<Sum>k\<in>set is. wt p k)" using Cons.prems by (intro sum.cong) auto
    then show ?case using Cons.IH [of ?p "tot + wt p i" best'] Cons.prems unfolding step by auto
  qed simp
  then show "cur (fst (srrLoop is (p, tot, best))) j = cur p j + (if j \<in> set is then wt p j else 0)"
    "fst (snd (srrLoop is (p, tot, best))) = tot + (\<Sum>i\<in>set is. wt p i)" by blast+
qed

lemma srrLoop_max:
  assumes "distinct is" "S \<inter> set is = {}"
    and "case best of None \<Rightarrow> S = {} | Some b \<Rightarrow> b \<in> S \<and> (\<forall>j\<in>S. cur p j \<le> cur p b)"
  shows "\<forall>k. snd (snd (srrLoop is (p, tot, best))) = Some k \<longrightarrow>
    (\<forall>j\<in>S \<union> set is. cur (fst (srrLoop is (p, tot, best))) j \<le> cur (fst (srrLoop is (p, tot, best))) k)"
  using assms
proof (induction "is" arbitrary: p tot best S)
  case (Cons i "is")
  let ?p = "upd_mem i (\<lambda>m. m\<lparr>mb_current := mb_current m + mb_weight m\<rparr>) p"
  define best' where "best' = (case best of None \<Rightarrow> Some i
      | Some b \<Rightarrow> if mb_current (mem ?p i) > mb_current (mem ?p b) then Some i else Some b)"
  have step: "srrLoop (i # is) (p, tot, best) = srrLoop is (?p, tot + wt p i, best')"
    by (simp only: srrLoop.simps Let_def best'_def)
  have i: "i \<notin> S" "i \<notin> set is" using Cons.prems by auto
  have "case best' of None \<Rightarrow> insert i S = {} | Some b \<Rightarrow> b \<in> insert i S \<and> (\<forall>j\<in>insert i S. cur ?p j \<le> cur ?p b)"
  proof (cases best)
    case None
    then show ?thesis using Cons.prems(3) by (simp add: best'_def)
  next
    case (Some b)
    then have b: "b \<in> S" "\<forall>j\<in>S. cur p j \<le> cur p b" using Cons.prems(3) by simp_all
    then have "b \<noteq> i" using i by auto
    then show ?thesis using b Some i by (auto simp: best'_def)
  qed
  moreover have "insert i S \<inter> set is = {}" using Cons.prems i by auto
  ultimately show ?case
    using Cons.IH [where S = "insert i S" and best = best' and p = ?p and tot = "tot + wt p i"] Cons.prems(1) unfolding step by auto
qed (auto split: option.splits)

text \<open>One pick, as arithmetic on the counters.\<close>

lemma smoothRoundRobin_step:
  assumes "distinct cands" "cands \<noteq> []" "smoothRoundRobin cands p = (k, q)"
  shows "k \<in> set cands" "keeps_pool p q"
    and "cur q j = cur p j + (if j \<in> set cands then wt p j else 0) - (if j = k then \<Sum>i\<in>set cands. wt p i else 0)"
    and "j \<in> set cands \<Longrightarrow> cur p j + wt p j \<le> cur p k + wt p k"
proof -
  obtain p1 tot best where l: "srrLoop cands (p, 0, None) = (p1, tot, best)" by (metis prod_cases3)
  have kq: "k = the best" "q = upd_mem k (\<lambda>m. m\<lparr>mb_current := mb_current m - tot\<rparr>) p1"
    using assms(3) l by (auto simp: smoothRoundRobin_def)
  show k: "k \<in> set cands" "keeps_pool p q"
    using smoothRoundRobin_chosen [OF assms(2), of p] assms(3) by simp_all
  have best: "best = Some k" using srrLoop_best [of cands None p 0] assms(2) l kq(1) by auto
  have c: "cur p1 j = cur p j + (if j \<in> set cands then wt p j else 0)" for j
    using srrLoop_cur(1) [OF assms(1), where p = p and tot = 0 and best = None and j = j] l by simp
  have t: "tot = (\<Sum>i\<in>set cands. wt p i)" using srrLoop_cur(2) [OF assms(1), where p = p and tot = 0 and best = None] l by simp
  show "cur q j = cur p j + (if j \<in> set cands then wt p j else 0) - (if j = k then \<Sum>i\<in>set cands. wt p i else 0)"
    using c kq(2) t by simp
  have "cur p1 j \<le> cur p1 k" if "j \<in> set cands"
    using srrLoop_max [OF assms(1), where S = "{}" and p = p and tot = 0 and best = None] l best that by simp
  then show "cur p j + wt p j \<le> cur p k + wt p k" if "j \<in> set cands"
    using that c [of j] c [of k] k(1) by simp
qed

fun srrRun :: "nat \<Rightarrow> nat list \<Rightarrow> pool \<Rightarrow> nat list \<times> pool" where
  "srrRun 0 cands p = ([], p)"
| "srrRun (Suc n) cands p =
     (let (k, q) = smoothRoundRobin cands p; (ks, r) = srrRun n cands q in (k # ks, r))"

definition srr_inv :: "nat list \<Rightarrow> pool \<Rightarrow> bool" where
  "srr_inv cands p \<longleftrightarrow>
     (\<Sum>i\<in>set cands. cur p i) = 0 \<and> (\<forall>i\<in>set cands. 0 < wt p i \<and> - (\<Sum>i\<in>set cands. wt p i) < cur p i)"

lemma srr_inv_step:
  assumes "distinct cands" "cands \<noteq> []" "srr_inv cands p" "smoothRoundRobin cands p = (k, q)"
  shows "srr_inv cands q"
proof -
  let ?S = "set cands" and ?W = "\<Sum>i\<in>set cands. wt p i"
  note step = smoothRoundRobin_step [OF assms(1,2,4)]
  have w: "wt q i = wt p i" for i by (rule keeps_fields(4) [OF step(2)])
  have sum0: "(\<Sum>i\<in>?S. cur p i) = 0" and low: "\<And>i. i \<in> ?S \<Longrightarrow> 0 < wt p i \<and> - ?W < cur p i"
    using assms(3) by (auto simp: srr_inv_def)
  have "(\<Sum>i\<in>?S. cur q i) = (\<Sum>i\<in>?S. cur p i) + ?W - (\<Sum>i\<in>?S. if i = k then ?W else 0)"
    by (simp add: step(3) sum.distrib sum_subtractf cong: sum.cong)
  also have "(\<Sum>i\<in>?S. if i = k then ?W else 0) = ?W" using step(1) by simp
  finally have "(\<Sum>i\<in>?S. cur q i) = 0" using sum0 by simp
  moreover have "- ?W < cur q i" if i: "i \<in> ?S" for i
  proof (cases "i = k")
    case True
    have "0 < cur p k + wt p k"
    proof (rule ccontr)
      assume "\<not> 0 < cur p k + wt p k"
      then have "(\<Sum>i\<in>?S. cur p i + wt p i) \<le> 0" using step(4) by (intro sum_nonpos) fastforce
      moreover have "(\<Sum>i\<in>?S. cur p i + wt p i) = ?W" using sum0 by (simp add: sum.distrib)
      moreover have "0 < ?W" using low step(1) by (intro sum_pos) auto
      ultimately show False by simp
    qed
    then show ?thesis using step(1,3) True by simp
  next
    case False
    then show ?thesis using step(3) [of i] low [OF i] i by simp
  qed
  ultimately show ?thesis using low by (simp add: srr_inv_def w)
qed

lemma srrRun_cur:
  assumes "distinct cands" "cands \<noteq> []" "srr_inv cands p" "srrRun n cands p = (ks, r)"
  shows "srr_inv cands r \<and> keeps_pool p r \<and> length ks = n \<and>
    (\<forall>j\<in>set cands. cur r j = cur p j + int n * wt p j - (\<Sum>i\<in>set cands. wt p i) * int (count_list ks j))"
  using assms(3,4)
proof (induction n arbitrary: p ks)
  case (Suc n)
  obtain k q where kq: "smoothRoundRobin cands p = (k, q)" by fastforce
  obtain ks' where run: "srrRun n cands q = (ks', r)" and ks: "ks = k # ks'"
    using Suc.prems(2) kq by (auto split: prod.splits)
  note step = smoothRoundRobin_step [OF assms(1,2) kq]
  have w: "wt q i = wt p i" for i by (rule keeps_fields(4) [OF step(2)])
  note IH = Suc.IH [OF srr_inv_step [OF assms(1,2) Suc.prems(1) kq] run]
  have "cur r j = cur p j + int (Suc n) * wt p j - (\<Sum>i\<in>set cands. wt p i) * int (count_list ks j)" if "j \<in> set cands" for j
    using IH that step(3) [of j] by (cases "j = k") (auto simp: w ks algebra_simps)
  then show ?case using IH keeps_trans [OF step(2)] ks by auto
qed simp

text \<open>In as many picks as the weights add up to, starting from fresh counters,
  every member is picked exactly as often as its weight says, and the
  counters are fresh again.\<close>

lemma srrRun_fair:
  assumes "distinct cands" "cands \<noteq> []" "\<forall>i\<in>set cands. 0 < wt p i \<and> cur p i = 0"
    and "srrRun (nat (\<Sum>i\<in>set cands. wt p i)) cands p = (ks, r)" "j \<in> set cands"
  shows "int (count_list ks j) = wt p j" "cur r j = 0"
proof -
  let ?S = "set cands" and ?W = "\<Sum>i\<in>set cands. wt p i"
  have W: "0 < ?W" using assms(2,3) by (intro sum_pos) auto
  have inv: "srr_inv cands p" using assms(3) W by (simp add: srr_inv_def)
  note run = srrRun_cur [OF assms(1,2) inv assms(4)]
  have c: "cur r i = ?W * (wt p i - int (count_list ks i))" if "i \<in> ?S" for i
    using run that assms(3) W by (simp add: algebra_simps)
  have "0 \<le> cur r i" if i: "i \<in> ?S" for i
  proof -
    have "wt r = wt p" using run keeps_fields(4) by blast
    then have "- ?W < cur r i" using run i unfolding srr_inv_def by metis
    then have "- ?W < ?W * (wt p i - int (count_list ks i))" unfolding c [OF i] .
    then have "- 1 < wt p i - int (count_list ks i)" using mult_less_cancel_left_pos [OF W, of "- 1"] by simp
    then show ?thesis using c [OF i] W by simp
  qed
  moreover have "(\<Sum>i\<in>?S. cur r i) = 0" using run unfolding srr_inv_def by blast
  ultimately show zero: "cur r j = 0" using assms(5) by (simp add: sum_nonneg_eq_0_iff)
  show "int (count_list ks j) = wt p j" using c [OF assms(5)] zero W by simp
qed

section \<open>Source hash\<close>

text \<open>The choice is the first member with the highest score, so it depends only
  on the members' own scores.\<close>

lemma bestScore_first:
  "\<exists>us vs. b # is = us @ bestScore score is b # vs \<and> (\<forall>u\<in>set us. score u < score (bestScore score is b))"
proof (induction "is" arbitrary: b)
  case (Cons i "is")
  define b2 where "b2 = (if score i > score b then i else b)"
  have step: "bestScore score (i # is) b = bestScore score is b2" by (simp add: b2_def)
  obtain us vs where IH: "b2 # is = us @ bestScore score is b2 # vs" "\<forall>u\<in>set us. score u < score (bestScore score is b2)"
    using Cons.IH [of b2] by blast
  have max: "score b2 \<le> score (bestScore score is b2)" by (rule bestScore_max) simp
  show ?case
  proof (cases us)
    case Nil
    then have "bestScore score is b2 = b2" "is = vs" using IH(1) by (metis append_Nil list.inject)+
    then show ?thesis
      unfolding step by (cases "score i > score b")
        (auto simp: b2_def intro: exI [of _ "[b]"] exI [of _ "[]"])
  next
    case (Cons u us')
    then have u: "u = b2" "is = us' @ bestScore score is b2 # vs" using IH(1) by auto
    have lt: "score b2 < score (bestScore score is b2)" using IH(2) Cons u by simp
    have "score b \<le> score b2" "score i \<le> score b2" by (auto simp: b2_def)
    then have "\<forall>x\<in>set (b # i # us'). score x < score (bestScore score is b2)"
      using lt IH(2) Cons by (auto dest: le_less_trans)
    then show ?thesis
      unfolding step using u(2) by (intro exI [of _ "b # i # us'"] exI [of _ vs]) simp
  qed
qed (auto intro: exI [of _ "[]"])

lemma first_of_score:
  assumes "xs = us @ x # vs" "\<forall>u\<in>set us. score u < (score x :: 'v::linorder)"
  shows "hd (filter (\<lambda>y. score y = score x) xs) = x"
proof -
  have "filter (\<lambda>y. score y = score x) us = []" using assms(2) by (auto simp: filter_empty_conv)
  then show ?thesis by (simp add: assms(1))
qed

lemma bestScore_unique:
  assumes "b # is = us @ x # vs" "\<forall>u\<in>set us. score u < score x" "\<forall>v\<in>set vs. score v \<le> score x"
  shows "bestScore score is b = x"
proof -
  let ?r = "bestScore score is b"
  obtain us' vs' where f: "b # is = us' @ ?r # vs'" "\<forall>u\<in>set us'. score u < score ?r"
    using bestScore_first [of b "is" score] by blast
  have "x \<in> insert b (set is)" using assms(1) by (metis in_set_conv_decomp list.set(2))
  moreover have "?r \<in> set us \<union> insert x (set vs)"
    using bestScore_in [of score "is" b] assms(1) by (metis list.set(2) set_append)
  ultimately have "score x \<le> score ?r" "score ?r \<le> score x" using bestScore_max [of x b "is" score] assms(2,3) by auto
  then have "score x = score ?r" by simp
  then show ?thesis using first_of_score [OF f] first_of_score [OF assms(1,2)] by simp
qed

text \<open>Losing members that were not the choice, or going back to having them,
  does not move the choice.\<close>

lemma bestScore_filter:
  assumes "filter P (b # is) = c # cs" "P (bestScore score is b)"
  shows "bestScore score cs c = bestScore score is b"
proof -
  obtain us vs where f: "b # is = us @ bestScore score is b # vs"
    "\<forall>u\<in>set us. score u < score (bestScore score is b)" using bestScore_first [of b "is" score] by blast
  have "c # cs = filter P us @ bestScore score is b # filter P vs"
    using assms f(1) by (metis filter.simps(2) filter_append)
  moreover have "\<forall>v\<in>set vs. score v \<le> score (bestScore score is b)"
    using f(1) bestScore_max [of _ b "is" score] by (metis Un_iff list.set(2) list.set_intros(2) set_append)
  ultimately show ?thesis using f(2) by (intro bestScore_unique [of c cs "filter P us" _ "filter P vs"]) auto
qed

section \<open>Health checks\<close>

definition observe :: "bool \<Rightarrow> int \<times> string \<Rightarrow> member \<Rightarrow> member" where
  "observe ok = (\<lambda>(now, why). if ok then member_passed now else member_failed now why)"

text \<open>The health of a member after a history of outcomes, latest first.\<close>

fun streak :: "bool \<Rightarrow> bool list \<Rightarrow> nat" where
  "streak v [] = 0"
| "streak v (x # xs) = (if x = v then Suc (streak v xs) else 0)"

fun healthy_after :: "bool list \<Rightarrow> bool" where
  "healthy_after [] = True"
| "healthy_after (ok # h) =
     (if ok then healthy_after h \<or> streak True (ok # h) \<ge> 2
      else healthy_after h \<and> streak False (ok # h) < 3)"

fun observed :: "(bool \<times> int \<times> string) list \<Rightarrow> member \<Rightarrow> member" where
  "observed [] m = m"
| "observed ((ok, e) # h) m = observe ok e (observed h m)"

lemma observed_health:
  assumes "mb_healthy m" "mb_fails m = 0" "mb_passes m = 0"
  shows "mb_healthy (observed h m) = healthy_after (map fst h) \<and>
    mb_passes (observed h m) = int (streak True (map fst h)) \<and>
    (if mb_healthy (observed h m) then mb_fails (observed h m) = int (streak False (map fst h))
     else mb_fails (observed h m) \<ge> 3)"
proof (induction h)
  case (Cons e h)
  obtain ok now why where e: "e = (ok, now, why)" by (metis prod_cases3)
  show ?case
    using Cons.IH
    by (cases ok; cases "mb_healthy (observed h m)")
      (auto simp: e observe_def member_passed_def member_failed_def healthyAfter_def unhealthyAfter_def Let_def)
qed (use assms in simp)

lemma observed_frame:
  "mb_addr (observed h m) = mb_addr m \<and> mb_weight (observed h m) = mb_weight m \<and> mb_active (observed h m) = mb_active m \<and>
   mb_disabled (observed h m) = mb_disabled m"
  by (induction h)
    (auto simp: observe_def member_passed_def member_failed_def Let_def split: prod.splits if_splits)

section \<open>The hash score stays in range\<close>

text \<open>Shifting the hash right by twenty bits leaves room for a weight of at
  most \<open>MaxWeight\<close>: the product never wraps, so it orders members by weight
  times hash.\<close>

lemma hashScore_no_wrap:
  assumes "0 < mb_weight m" "mb_weight m \<le> MaxWeight"
  shows "uint (hashScore client m) = uint (fnv64a (AsSlice client @ mb_addr m)) div 2 ^ 20 * mb_weight m"
proof -
  let ?h = "fnv64a (AsSlice client @ mb_addr m)"
  have d: "uint (?h div 2 ^ 20) = uint ?h div 2 ^ 20" by (simp add: uint_div_distrib)
  have h: "uint ?h < 2 ^ 64" using uint_lt2p [of ?h] by simp
  have w: "uint (of_int (mb_weight m) :: 64 word) = mb_weight m"
    using assms by (simp add: MaxWeight_def unsigned_of_int take_bit_int_eq_self)
  have "uint ?h div 2 ^ 20 \<le> 2 ^ 44" using h by simp
  then have "uint ?h div 2 ^ 20 * mb_weight m \<le> 2 ^ 44 * 100"
    using assms by (intro mult_mono) (simp_all add: MaxWeight_def)
  then have "uint ?h div 2 ^ 20 * mb_weight m < 2 ^ 64" by simp
  moreover have "0 \<le> uint ?h div 2 ^ 20 * mb_weight m" using assms(1) by (simp add: pos_imp_zdiv_nonneg_iff)
  ultimately show ?thesis
    unfolding hashScore_def uint_word_ariths(3) d w by simp
qed

section \<open>A pool built from a validated forward\<close>

text \<open>The hosts, ports, weights and disabled flags a forward's pool is built from.\<close>

definition pool_specs :: "(string \<Rightarrow> string list option) \<Rightarrow> string \<Rightarrow> EdgePortForward \<Rightarrow> (string \<times> int \<times> int \<times> bool) list" where
  "pool_specs lookup nodeIP fwd = (case pf_TargetKind fwd of
     EDGE_TARGET_KIND_TARGETS \<Rightarrow>
       map (\<lambda>t. (et_Host (the t), et_Port (the t), Weight (the t), et_Disabled (the t))) (pf_Targets fwd)
   | EDGE_TARGET_KIND_DNS \<Rightarrow>
       (case lookup (pf_TargetDns fwd) of None \<Rightarrow> [] | Some ips \<Rightarrow> map (\<lambda>ip. (ip, pf_TargetPort fwd, 1, False)) ips)
   | EDGE_TARGET_KIND_NODE_LOCAL \<Rightarrow> [(nodeIP, pf_TargetPort fwd, 1, False)]
   | _ \<Rightarrow> [])"

definition spec_member :: "string \<times> int \<times> int \<times> bool \<Rightarrow> member" where
  "spec_member = (\<lambda>(host, port, weight, disabled).
     (newMember (JoinHostPort host port) host)\<lparr>mb_weight := weight, mb_disabled := disabled\<rparr>)"

lemma addMember_fresh:
  "\<exists>q. addMember [] s (p, out) = (q, out @ [pl_next p]) \<and> pl_next q = Suc (pl_next p) \<and>
     pl_fwd q = pl_fwd p \<and> pl_members q = pl_members p \<and>
     (\<forall>i. mem q i = (if i = pl_next p then spec_member s else mem p i))"
  by (cases s) (auto simp: addMember_def spec_member_def Let_def mem_def upd_mem_def update_conv')

lemma addMembers_fresh:
  "\<exists>q. fold (addMember []) specs (p, out) = (q, out @ [pl_next p..<pl_next p + length specs]) \<and>
     pl_next q = pl_next p + length specs \<and> pl_fwd q = pl_fwd p \<and> pl_members q = pl_members p \<and>
     (\<forall>i<pl_next p. mem q i = mem p i) \<and> (\<forall>k<length specs. mem q (pl_next p + k) = spec_member (specs ! k))"
proof (induction specs arbitrary: p out)
  case (Cons s specs)
  obtain q where q: "addMember [] s (p, out) = (q, out @ [pl_next p])" "pl_next q = Suc (pl_next p)"
    "pl_fwd q = pl_fwd p" "pl_members q = pl_members p" "\<And>i. mem q i = (if i = pl_next p then spec_member s else mem p i)"
    using addMember_fresh by metis
  obtain r where r: "fold (addMember []) specs (q, out @ [pl_next p]) =
      (r, (out @ [pl_next p]) @ [pl_next q..<pl_next q + length specs])"
    "pl_next r = pl_next q + length specs" "pl_fwd r = pl_fwd q" "pl_members r = pl_members q"
    "\<forall>i<pl_next q. mem r i = mem q i" "\<forall>k<length specs. mem r (pl_next q + k) = spec_member (specs ! k)"
    using Cons.IH [of q "out @ [pl_next p]"] by blast
  have "mem r (pl_next p + k) = spec_member ((s # specs) ! k)" if "k < length (s # specs)" for k
    using that r(5,6) q(2,5) by (cases k) auto
  moreover have "out @ [pl_next p..<pl_next p + length (s # specs)] =
      (out @ [pl_next p]) @ [pl_next q..<pl_next q + length specs]"
    using q(2) upt_conv_Cons [of "pl_next p" "Suc (pl_next p + length specs)"] by (simp del: upt_Suc)
  ultimately show ?case using q r by (intro exI [of _ r]) auto
qed simp

lemma newPool_members:
  fixes lookup ident fwd nodeIP
  defines "p \<equiv> newPool lookup ident fwd nodeIP" and "specs \<equiv> pool_specs lookup nodeIP fwd"
  shows "pl_members p = [0..<length specs] \<and> (\<forall>k<length specs. mem p k = spec_member (specs ! k)) \<and> pl_fwd p = fwd"
proof -
  let ?p = "\<lparr>pl_id = ident, pl_fwd = fwd, pl_nodeIP = nodeIP, pl_members = [], pl_stopped = False, pl_heap = [], pl_next = 0\<rparr>"
  obtain q where q: "fold (addMember []) specs (?p, []) = (q, [0..<length specs])" "pl_fwd q = fwd"
    "\<forall>k<length specs. mem q k = spec_member (specs ! k)"
    using addMembers_fresh [of specs ?p "[]"] by auto
  have "resolveMembers lookup ?p [] = fold (addMember []) specs (?p, [])"
    by (simp add: resolveMembers_def specs_def pool_specs_def split: EdgeTargetKind.splits option.splits)
  then have "p = q\<lparr>pl_members := [0..<length specs]\<rparr>" if "pf_TargetKind fwd \<noteq> EDGE_TARGET_KIND_RELAYS"
    using that q(1) by (simp add: p_def newPool_def Let_def)
  moreover have "p = ?p" "specs = []" if "pf_TargetKind fwd = EDGE_TARGET_KIND_RELAYS"
    using that by (simp_all add: p_def newPool_def specs_def pool_specs_def)
  ultimately show ?thesis
    using q(2,3) by (cases "pf_TargetKind fwd = EDGE_TARGET_KIND_RELAYS") (simp_all add: mem_def)
qed

definition fresh_pool :: "pool \<Rightarrow> bool" where
  "fresh_pool p \<longleftrightarrow> distinct (pl_members p) \<and> (\<forall>i\<in>set (pl_members p).
     mb_healthy (mem p i) \<and> mb_active (mem p i) = 0 \<and> cur p i = 0 \<and> 1 \<le> wt p i \<and> wt p i \<le> MaxWeight)"

lemma checkTargets_ok:
  "checkTargets ts seen e = Ok n \<Longrightarrow> t \<in> set ts \<Longrightarrow> CheckTarget t = Ok () \<and> Address (the t) \<notin> set seen"
  by (induction ts seen e rule: checkTargets.induct) (auto simp: Let_def split: sum.splits if_splits)

lemma newPool_fresh:
  assumes "checkTarget fwd base = Ok ()"
  shows "fresh_pool (newPool lookup ident fwd nodeIP)"
proof -
  let ?p = "newPool lookup ident fwd nodeIP" and ?specs = "pool_specs lookup nodeIP fwd"
  have w: "1 \<le> fst (snd (snd s)) \<and> fst (snd (snd s)) \<le> MaxWeight" if s: "s \<in> set ?specs" for s
  proof (cases "pf_TargetKind fwd")
    case EDGE_TARGET_KIND_TARGETS
    then obtain t where t: "t \<in> set (pf_Targets fwd)" "fst (snd (snd s)) = Weight (the t)"
      using s by (auto simp: pool_specs_def)
    then have "CheckTarget t = Ok ()"
      using assms EDGE_TARGET_KIND_TARGETS checkTargets_ok [of "pf_Targets fwd" "[]" 0]
      by (auto simp: checkTarget_def split: sum.splits if_splits)
    then show ?thesis using t(2)
      by (auto simp: CheckTarget_def Weight_def MaxWeight_def split: option.splits if_splits)
  qed (use s in \<open>auto simp: pool_specs_def MaxWeight_def split: option.splits\<close>)
  have m: "pl_members ?p = [0..<length ?specs]" "\<forall>k<length ?specs. mem ?p k = spec_member (?specs ! k)"
    using newPool_members [of lookup ident fwd nodeIP] by blast+
  have "mb_healthy (mem ?p k) \<and> mb_active (mem ?p k) = 0 \<and> cur ?p k = 0 \<and> 1 \<le> wt ?p k \<and> wt ?p k \<le> MaxWeight"
    if k: "k < length ?specs" for k
    using w [OF nth_mem [OF k]] m(2) k by (cases "?specs ! k") (simp add: spec_member_def newMember_def)
  then show ?thesis by (simp add: fresh_pool_def m(1))
qed

end
