(* ===== verification/Go_HostPort.thy ===== *)
theory Go_HostPort
  imports Go_Net Go_Hash
begin

text \<open>
  Splitting of host and port in Go's standard library: \<open>net.SplitHostPort\<close> and
  \<open>netip.ParseAddrPort\<close>, and the big-endian reads of \<open>encoding/binary\<close>.
\<close>

section \<open>Definitions\<close>

text \<open>Split at the last occurrence of a character.\<close>

definition CutLast :: "string \<Rightarrow> char \<Rightarrow> (string \<times> string) option" where
  "CutLast s c = (let (rb, ra, found) = Cut (rev s) c in if found then Some (rev ra, rev rb) else None)"

definition SplitHostPort :: "string \<Rightarrow> (string \<times> string) option" where
  "SplitHostPort s =
     (case CutLast s CHR '':'' of
        None \<Rightarrow> None
      | Some (before, port) \<Rightarrow>
          if HasPrefix s ''['' then
            (let (inner, rest, closed) = Cut (drop 1 s) CHR '']'' in
             if \<not> closed \<or> rest \<noteq> CHR '':'' # port \<or> CHR ''['' \<in> set inner \<or> CHR ''['' \<in> set rest \<or> CHR '']'' \<in> set rest
             then None else Some (inner, port))
          else if CHR '':'' \<in> set before \<or> CHR ''['' \<in> set s \<or> CHR '']'' \<in> set s then None
          else Some (before, port))"

definition ParseUint16 :: "string \<Rightarrow> int option" where
  "ParseUint16 s = (if s \<noteq> [] \<and> list_all is_digit s \<and> digits_val s < 65536 then Some (digits_val s) else None)"

definition Is4 :: "Addr \<Rightarrow> bool" where
  "Is4 a = (case a of Addr4 _ \<Rightarrow> True | _ \<Rightarrow> False)"

definition ParseAddrPort :: "string \<Rightarrow> (Addr \<times> int) option" where
  "ParseAddrPort s =
     (case CutLast s CHR '':'' of
        None \<Rightarrow> None
      | Some (ip, port) \<Rightarrow>
          if ip = [] \<or> port = [] then None
          else let v6 = (hd ip = CHR ''['') in
               if v6 \<and> (length ip < 2 \<or> last ip \<noteq> CHR '']'') then None
               else case (ParseUint16 port, ParseAddr (if v6 then butlast (tl ip) else ip)) of
                      (Some p, Some a) \<Rightarrow> if v6 = Is4 a then None else Some (a, p)
                    | _ \<Rightarrow> None)"

section \<open>Lemmas\<close>

text \<open>Printing over integers, for evaluation.\<close>

definition digit_char :: "int \<Rightarrow> char" where
  "digit_char d = ''0123456789'' ! nat d"

function int_digits :: "int \<Rightarrow> string" where
  "int_digits n = (if n < 10 then [digit_char n] else int_digits (n div 10) @ [digit_char (n mod 10)])"
  by pat_completeness auto
termination by (relation "measure nat") auto

declare int_digits.simps [simp del]

lemma digit_char_char_of: "k < 10 \<Longrightarrow> char_of (48 + k) = digit_char (int k)"
proof -
  have "list_all (\<lambda>k. char_of (48 + k) = ''0123456789'' ! k) [0..<10]" by code_simp
  then show "k < 10 \<Longrightarrow> ?thesis" by (simp add: list_all_iff digit_char_def)
qed

lemma int_digits_dec: "int_digits (int n) = dec_digits n"
proof (induction n rule: dec_digits.induct)
  case (1 n)
  have "digit_char (int n mod 10) = char_of (48 + n mod 10)"
    using digit_char_char_of [of "n mod 10"] by (simp add: zmod_int)
  then show ?case
    using 1 digit_char_char_of [of n]
    by (subst dec_digits.simps, subst int_digits.simps) (auto simp: zdiv_int)
qed

lemma Itoa_code [code]: "Itoa i = (if i < 0 then CHR ''-'' # int_digits (- i) else int_digits i)"
  using int_digits_dec [of "nat i"] int_digits_dec [of "nat (- i)"] by (cases "i < 0") (simp_all add: Itoa_def)

lemma CutLast_append: "c \<notin> set t \<Longrightarrow> CutLast (s @ c # t) c = Some (s, t)"
proof -
  assume "c \<notin> set t"
  moreover have "Cut (u @ c # v) c = (u, v, True)" if "c \<notin> set u" for u v
    using that by (induction u) auto
  ultimately show ?thesis by (simp add: CutLast_def)
qed

lemma Itoa_no_special: "0 \<le> i \<Longrightarrow> \<not> is_digit c \<Longrightarrow> c \<notin> set (Itoa i)"
  using dec_digits_are_digits [of "nat i"] by (auto simp: Itoa_def list_all_iff)

lemma Itoa_no_bracket:
  "0 \<le> i \<Longrightarrow> CHR '':'' \<notin> set (Itoa i) \<and> CHR ''['' \<notin> set (Itoa i) \<and> CHR '']'' \<notin> set (Itoa i)"
  by (simp add: Itoa_no_special is_digit_def char_code_def)

lemma ParseUint16_Itoa: "0 \<le> i \<Longrightarrow> i < 65536 \<Longrightarrow> ParseUint16 (Itoa i) = Some i"
  by (simp add: ParseUint16_def Itoa_def dec_digits_are_digits)

text \<open>Joining and splitting, for a host name or IPv4 address and for an IPv6
  literal.\<close>

lemma SplitHostPort_Join_plain:
  assumes "set h \<inter> set '':[]'' = {}" "0 \<le> port"
  shows "SplitHostPort (JoinHostPort h port) = Some (h, Itoa port)"
proof -
  have p: "CHR '':'' \<notin> set (Itoa port)" "CHR ''['' \<notin> set (Itoa port)" "CHR '']'' \<notin> set (Itoa port)"
    using Itoa_no_bracket [OF assms(2)] by simp_all
  moreover have "\<not> HasPrefix (h @ CHR '':'' # Itoa port) ''[''"
    using assms(1) by (cases h) (auto simp: HasPrefix_iff)
  ultimately show ?thesis
    using assms(1) CutLast_append [OF p(1), of h] by (simp add: SplitHostPort_def JoinHostPort_def)
qed

lemma SplitHostPort_Join_v6:
  assumes "CHR '':'' \<in> set h" "CHR ''['' \<notin> set h" "CHR '']'' \<notin> set h" "0 \<le> port"
  shows "SplitHostPort (JoinHostPort h port) = Some (h, Itoa port)"
proof -
  have p: "CHR '':'' \<notin> set (Itoa port)" "CHR ''['' \<notin> set (Itoa port)" "CHR '']'' \<notin> set (Itoa port)"
    using Itoa_no_bracket [OF assms(4)] by simp_all
  have "Cut (h @ CHR '']'' # CHR '':'' # Itoa port) CHR '']'' = (h, CHR '':'' # Itoa port, True)"
    using assms(3) by (induction h) auto
  moreover have "HasPrefix (CHR ''['' # h @ CHR '']'' # CHR '':'' # Itoa port) ''[''" by (auto simp: HasPrefix_iff)
  ultimately show ?thesis
    using assms p CutLast_append [OF p(1), of "CHR ''['' # h @ '']''"] by (simp add: SplitHostPort_def JoinHostPort_def)
qed

section \<open>Big-endian words\<close>

lemma be_word_snoc: "be_word (s @ [c]) = or (push_bit 8 (be_word s)) (byte_word c)"
  by (simp add: be_word_def)

lemma or_shift_low:
  assumes "b < 256"
  shows "or (push_bit 8 (of_nat a)) (of_nat b) = (of_nat (a * 256 + b) :: 'a::len word)"
proof -
  have "or (push_bit 8 (of_nat a)) (of_nat b) = push_bit 8 (of_nat a) + (of_nat b :: 'a word)"
  proof (rule disjunctive_add [symmetric])
    fix n
    show "\<not> bit (push_bit 8 (of_nat a) :: 'a word) n \<or> \<not> bit (of_nat b :: 'a word) n"
    proof (cases "n < 8")
      case False
      then have "b < 2 ^ n" using assms power_increasing [of 8 n "2::nat"] by simp
      then have "\<not> bit b n" by (simp add: bit_iff_odd)
      then show ?thesis by (simp add: bit_of_nat_iff)
    qed (simp add: bit_push_bit_iff)
  qed
  then show ?thesis by (simp add: push_bit_eq_mult mult.commute)
qed

lemma be_word_be_bytes: "n < 256 ^ k \<Longrightarrow> be_word (be_bytes k n) = of_nat n"
proof (induction k arbitrary: n)
  case (Suc k)
  have "n div 256 < 256 ^ k" using Suc.prems by (simp add: less_mult_imp_div_less mult.commute)
  then show ?case
    using Suc.IH [of "n div 256"] or_shift_low [of "n mod 256" "n div 256"]
    by (simp add: be_word_snoc byte_word_def char_code_def)
qed (simp add: be_word_def)

end
