(* ===== verification/Transport.thy ===== *)
theory Transport
  imports Go_HostPort Prelude
begin

text \<open>
  The wire formats shared by the parts of the system:
  \<open>go/tunnel/protocol/framing.go\<close> (length-prefixed control messages) and the
  signed PROXY header of \<open>go/tunnel/transport/proxyproto.go\<close>.  Protobuf
  encoding is a parameter (\<open>marshal\<close>, \<open>unmarshal\<close>); the PROXY protocol library
  carries the list of type/value pairs.
\<close>

section \<open>Framing\<close>

datatype frame_error =
    MarshalFailed
  | TooLarge
  | ShortHeader
  | ShortBody
  | UnmarshalFailed

definition MaxMessageSize :: int where
  "MaxMessageSize = 2 ^ 20"

text \<open>The bytes written, and the message read with the bytes left.\<close>

definition WriteMessage :: "('m \<Rightarrow> string option) \<Rightarrow> 'm \<Rightarrow> (frame_error, string) result" where
  "WriteMessage marshal msg =
     (case marshal msg of
        None \<Rightarrow> Err MarshalFailed
      | Some data \<Rightarrow>
          if int (length data) > MaxMessageSize then Err TooLarge
          else Ok (be_bytes 4 (length data mod 2 ^ 32) @ data))"

definition ReadMessage :: "(string \<Rightarrow> 'm option) \<Rightarrow> string \<Rightarrow> (frame_error, 'm \<times> string) result" where
  "ReadMessage unmarshal r =
     (if length r < 4 then Err ShortHeader
      else let size = be_word (take 4 r) :: 32 word; rest = drop 4 r in
           if uint size > MaxMessageSize then Err TooLarge
           else if length rest < unat size then Err ShortBody
           else case unmarshal (take (unat size) rest) of
                  None \<Rightarrow> Err UnmarshalFailed
                | Some m \<Rightarrow> Ok (m, drop (unat size) rest))"

text \<open>What a peer that writes several messages sends, and one that reads them all
  receives.\<close>

fun WriteMessages :: "('m \<Rightarrow> string option) \<Rightarrow> 'm list \<Rightarrow> (frame_error, string) result" where
  "WriteMessages marshal [] = Ok []"
| "WriteMessages marshal (m # ms) =
     (case WriteMessage marshal m of
        Inl e \<Rightarrow> Err e
      | Inr s \<Rightarrow> (case WriteMessages marshal ms of Inl e \<Rightarrow> Err e | Inr t \<Rightarrow> Ok (s @ t)))"

fun ReadMessages :: "(string \<Rightarrow> 'm option) \<Rightarrow> nat \<Rightarrow> string \<Rightarrow> (frame_error, 'm list \<times> string) result" where
  "ReadMessages unmarshal 0 r = Ok ([], r)"
| "ReadMessages unmarshal (Suc n) r =
     (case ReadMessage unmarshal r of
        Inl e \<Rightarrow> Err e
      | Inr (m, rest) \<Rightarrow> map_sum id (apfst ((#) m)) (ReadMessages unmarshal n rest))"

lemma length_word32: "int n \<le> MaxMessageSize \<Longrightarrow> unat (of_nat n :: 32 word) = n \<and> uint (of_nat n :: 32 word) = int n"
  by (simp add: MaxMessageSize_def unat_of_nat unsigned_of_nat take_bit_nat_eq_self)

lemma ReadMessage_frame:
  assumes "int (length data) \<le> MaxMessageSize" "unmarshal data = Some m"
  shows "ReadMessage unmarshal (be_bytes 4 (length data mod 2 ^ 32) @ data @ rest) = Ok (m, rest)"
proof -
  let ?n = "length data"
  have small: "?n < 2 ^ 32" using assms(1) by (simp add: MaxMessageSize_def)
  then have "be_word (be_bytes 4 (?n mod 2 ^ 32)) = (of_nat ?n :: 32 word)"
    using be_word_be_bytes [of ?n 4] by simp
  then show ?thesis
    using length_word32 [OF assms(1)] assms by (simp add: ReadMessage_def Let_def)
qed

lemma ReadMessages_WriteMessages:
  assumes "WriteMessages marshal ms = Ok s" "\<And>m data. marshal m = Some data \<Longrightarrow> unmarshal data = Some m"
  shows "ReadMessages unmarshal (length ms) (s @ rest) = Ok (ms, rest)"
  using assms(1)
proof (induction ms arbitrary: s)
  case (Cons m ms)
  obtain a t where t: "WriteMessage marshal m = Ok a" "WriteMessages marshal ms = Ok t" "s = a @ t"
    using Cons.prems by (auto split: sum.splits)
  obtain data where d: "marshal m = Some data" "int (length data) \<le> MaxMessageSize"
      "a = be_bytes 4 (length data mod 2 ^ 32) @ data"
    using t(1) by (auto simp: WriteMessage_def split: option.splits if_splits)
  then show ?case
    using Cons.IH [OF t(2)] t(3) ReadMessage_frame [of data unmarshal m "t @ rest"] d assms(2) by simp
qed simp

section \<open>Signed headers\<close>

type_synonym TLV = "int \<times> string"

definition TLVTunnel :: int where "TLVTunnel = 0xE0"
definition TLVAuth :: int where "TLVAuth = 0xE1"
definition streamAuthWindow :: int where "streamAuthWindow = 60"

datatype tlv_error =
    NoTunnelTLV
  | NoAuthTLV
  | OutsideWindow
  | BadSignature

definition FindTLV :: "TLV list \<Rightarrow> int \<Rightarrow> string option" where
  "FindTLV tlvs t = map_of tlvs t"

definition signed_payload :: "64 word \<Rightarrow> string \<Rightarrow> string \<Rightarrow> string" where
  "signed_payload ts subject client = be_bytes 8 (unat ts) @ subject @ [CHR 0x00] @ client"

definition signStream :: "string \<Rightarrow> string \<Rightarrow> string \<Rightarrow> 64 word \<Rightarrow> string" where
  "signStream key subject client ts = be_bytes 8 (unat ts) @ hmac_sha256 key (signed_payload ts subject client)"

text \<open>\<open>now\<close> is \<open>now.Unix()\<close>, an \<open>int64\<close>.\<close>

definition SignedTLVs :: "string \<Rightarrow> string \<Rightarrow> string \<Rightarrow> 64 word \<Rightarrow> TLV list" where
  "SignedTLVs key subject client now = [(TLVTunnel, subject), (TLVAuth, signStream key subject client now)]"

definition VerifySignedTLVs :: "string \<Rightarrow> TLV list \<Rightarrow> string \<Rightarrow> 64 word \<Rightarrow> (tlv_error, string) result" where
  "VerifySignedTLVs key tlvs client now =
     (case FindTLV tlvs TLVTunnel of
        None \<Rightarrow> Err NoTunnelTLV
      | Some subject \<Rightarrow>
          (case FindTLV tlvs TLVAuth of
             None \<Rightarrow> Err NoAuthTLV
           | Some auth \<Rightarrow>
               if length auth \<noteq> 8 + 32 then Err NoAuthTLV
               else let ts = be_word (take 8 auth) :: 64 word; d = sint (now - ts) in
                    if d > streamAuthWindow \<or> d < - streamAuthWindow then Err OutsideWindow
                    else if auth \<noteq> signStream key subject client ts then Err BadSignature
                    else Ok subject))"

text \<open>\<open>ProxyProtocolListener\<close>'s policy: a header counts only from a trusted
  network; from elsewhere it is refused.\<close>

definition IsTrusted :: "string \<Rightarrow> Prefix list \<Rightarrow> bool" where
  "IsTrusted addr trusted =
     (case ParseAddrPort addr of None \<Rightarrow> False | Some (a, _) \<Rightarrow> list_ex (\<lambda>p. Contains p (Unmap a)) trusted)"

datatype proxy_policy =
    PolicyUSE
  | PolicyREJECT

definition ConnPolicy :: "string \<Rightarrow> Prefix list \<Rightarrow> proxy_policy" where
  "ConnPolicy upstream trusted = (if IsTrusted upstream trusted then PolicyUSE else PolicyREJECT)"

lemma length_signStream [simp]: "length (signStream key subject client ts) = 40"
  by (simp add: signStream_def)

lemma be_word_ts: "be_word (be_bytes 8 (unat (ts :: 64 word))) = ts"
proof -
  have "unat ts < 256 ^ 8" by (rule order_less_le_trans [OF unsigned_less]) simp
  then show ?thesis using be_word_be_bytes [of "unat ts" 8, where 'a = 64] by simp
qed

lemma signStream_ts: "be_word (take 8 (signStream key subject client ts)) = ts"
  by (simp add: signStream_def be_word_ts)

lemma VerifySignedTLVs_Ok_iff:
  "VerifySignedTLVs key tlvs client now = Ok subject \<longleftrightarrow>
     FindTLV tlvs TLVTunnel = Some subject \<and>
     (\<exists>ts. FindTLV tlvs TLVAuth = Some (signStream key subject client ts) \<and> \<bar>sint (now - ts)\<bar> \<le> streamAuthWindow)"
proof (cases "FindTLV tlvs TLVTunnel"; cases "FindTLV tlvs TLVAuth")
  fix s auth
  assume f: "FindTLV tlvs TLVTunnel = Some s" "FindTLV tlvs TLVAuth = Some auth"
  define ts :: "64 word" where "ts = be_word (take 8 auth)"
  define d where "d = sint (now - ts)"
  define g where "g = signStream key s client ts"
  have "VerifySignedTLVs key tlvs client now = Ok subject \<longleftrightarrow>
      length auth = 8 + 32 \<and> \<not> (d > streamAuthWindow \<or> d < - streamAuthWindow) \<and> auth = g \<and> s = subject"
    unfolding VerifySignedTLVs_def f option.case Let_def ts_def [symmetric] d_def [symmetric] g_def [symmetric]
    by (cases "length auth = 8 + 32"; cases "auth = g"; cases "d > streamAuthWindow \<or> d < - streamAuthWindow") simp_all
  moreover have "\<not> (d > streamAuthWindow \<or> d < - streamAuthWindow) \<longleftrightarrow> \<bar>d\<bar> \<le> streamAuthWindow" by arith
  moreover have "t = ts" if "auth = signStream key s client t" for t using that signStream_ts ts_def by metis
  moreover have "length g = 8 + 32" by (simp add: g_def)
  ultimately show ?thesis unfolding f option.inject by (metis d_def g_def)
qed (simp_all add: VerifySignedTLVs_def)

text \<open>The signed bytes determine time, subject and client, as long as the client
  address has no zero byte.\<close>

lemma split_at_last:
  fixes x :: char
  assumes "x \<notin> set b" "x \<notin> set b'" "a @ x # b = a' @ x # b'"
  shows "a = a' \<and> b = b'"
proof -
  have "Some (a, b) = Some (a', b')"
    by (rule trans [OF CutLast_append [OF assms(1), symmetric]]) (simp only: assms(3) CutLast_append [OF assms(2)])
  then show ?thesis by simp
qed

lemma signed_payload_inj:
  assumes "signed_payload ts s c = signed_payload ts' s' c'" "CHR 0x00 \<notin> set c" "CHR 0x00 \<notin> set c'"
  shows "ts = ts' \<and> s = s' \<and> c = c'"
proof -
  have e: "be_bytes 8 (unat ts) = be_bytes 8 (unat ts')" "s @ CHR 0x00 # c = s' @ CHR 0x00 # c'"
    using assms(1) by (simp_all add: signed_payload_def)
  then show ?thesis using split_at_last [OF assms(2,3) e(2)] be_word_ts by metis
qed

end
