(* ===== verification/Edge_Route.thy ===== *)
theory Edge_Route
  imports Edge_Fair Transport Auth_Limiter "HOL-Library.List_Lexorder" "HOL-Library.Char_ord"
begin

text \<open>
  \<open>go/tunnel/edge/route.go\<close>, \<open>edge.go\<close>, \<open>listener.go\<close> and \<open>tunnel.go\<close>: what each
  public port serves and where a connection goes.  Pools are shared by the
  edge, its routes and the HTTP proxies' cached transports, so they live in a
  heap \<open>eg_heap\<close>.  The live tables (\<open>Live\<close>) are the values they answer with;
  \<open>bind\<close> is the error of binding a port, \<open>up\<close> says that a dial succeeds.
\<close>

section \<open>Types\<close>

record RelayTarget =
  rt_ID :: string
  rt_IP :: string
  rt_Sessions :: int
  rt_Draining :: bool

record Live =
  lv_Relays :: "RelayTarget list"
  lv_OwnerOfHost :: "string \<Rightarrow> RelayTarget option"
  lv_OwnerOfPort :: "int \<Rightarrow> (RelayTarget \<times> string) option"

record edge_Config =
  ec_BaseDomain :: string
  ec_ControlSNI :: string
  ec_NodeIP :: string
  ec_BindHost :: string
  ec_ForwardKey :: string
  ec_ConnectionsPerSecond :: rat
  ec_ConnectionsBurst :: int

record poolTunnel =
  pt_id :: string
  pt_pool :: nat
  pt_fwd :: EdgePortForward
  pt_access :: Access

record route =
  ro_domain :: EdgeDomain
  ro_fwd :: EdgePortForward
  ro_pool :: nat
  ro_access :: Access
  ro_tunnel :: "poolTunnel option"

definition isRelay :: "route \<Rightarrow> bool" where
  "isRelay r \<longleftrightarrow> pf_Mode (ro_fwd r) = EDGE_FORWARD_MODE_RELAY"

record routeSet =
  rs_byName :: "(string, route) gomap"
  rs_wildcards :: "(string, route) gomap"
  rs_base :: "route option"
  rs_single :: "route option"

text \<open>A listener's routes are a nil pointer until the first \<open>setRoutes\<close>.  Its HTTP
  proxy, once created, caches for each tunnel ID the tunnel its transport
  dials.\<close>

record listener =
  ls_port :: int
  ls_proto :: EdgeProtocol
  ls_err :: "string option"
  ls_closed :: bool
  ls_routes :: "routeSet option"
  ls_http :: "(string, poolTunnel) gomap option"

record counters =
  cn_accepted :: nat
  cn_rejectedRate :: nat
  cn_rejectedIP :: nat
  cn_noRoute :: nat
  cn_dialFailures :: nat

record Edge =
  eg_cfg :: edge_Config
  eg_limiter :: IPLimiter
  eg_listeners :: "(int, listener) gomap"
  eg_pools :: "(string, nat) gomap"
  eg_version :: int
  eg_closed :: bool
  eg_counters :: counters
  eg_rr :: "64 word"
  eg_heap :: "(nat, pool) gomap"
  eg_next :: nat

datatype edge_error =
    MissingConfig
  | ShortForwardKey

definition New_Edge :: "edge_Config \<Rightarrow> bool \<Rightarrow> int \<Rightarrow> (edge_error, Edge) result" where
  "New_Edge cfg has_deps now =
     (if ec_BaseDomain cfg = [] \<or> \<not> has_deps then Err MissingConfig
      else if length (ec_ForwardKey cfg) < 32 then Err ShortForwardKey
      else let cfg1 = (if ec_ControlSNI cfg = [] then cfg\<lparr>ec_ControlSNI := ''connect.'' @ ec_BaseDomain cfg\<rparr> else cfg);
               cfg2 = (if ec_ConnectionsPerSecond cfg1 = 0
                       then cfg1\<lparr>ec_ConnectionsPerSecond := 20, ec_ConnectionsBurst := 100\<rparr> else cfg1)
           in Ok \<lparr>eg_cfg = cfg2, eg_limiter = NewIPLimiter (ec_ConnectionsPerSecond cfg2) (ec_ConnectionsBurst cfg2) now,
                  eg_listeners = [], eg_pools = [], eg_version = 0, eg_closed = False,
                  eg_counters = \<lparr>cn_accepted = 0, cn_rejectedRate = 0, cn_rejectedIP = 0, cn_noRoute = 0, cn_dialFailures = 0\<rparr>,
                  eg_rr = 0, eg_heap = [], eg_next = 0\<rparr>)"

section \<open>Route sets\<close>

definition addName :: "route \<Rightarrow> string \<Rightarrow> routeSet \<Rightarrow> routeSet" where
  "addName r n0 rs =
     (let n = ToLower n0; (rest, ok) = CutPrefix n ''*'' in
      if ok then rs\<lparr>rs_wildcards := AList.update rest r (rs_wildcards rs)\<rparr>
      else rs\<lparr>rs_byName := AList.update n r (rs_byName rs)\<rparr>)"

definition addRoute :: "route \<Rightarrow> routeSet \<Rightarrow> routeSet" where
  "addRoute r rs0 =
     (let rs = (if pf_Protocol (ro_fwd r) = EDGE_PROTOCOL_TCP then rs0\<lparr>rs_single := Some r\<rparr> else rs0) in
      if ed_Kind (ro_domain r) = EDGE_DOMAIN_KIND_TUNNEL_BASE then rs\<lparr>rs_base := Some r\<rparr>
      else fold (addName r) (ed_Domain (ro_domain r) # ed_Aliases (ro_domain r)) rs)"

definition newRouteSet :: "route list \<Rightarrow> routeSet" where
  "newRouteSet routes = fold addRoute routes \<lparr>rs_byName = [], rs_wildcards = [], rs_base = None, rs_single = None\<rparr>"

section \<open>Choosing a relay\<close>

fun fewestSessions :: "RelayTarget list \<Rightarrow> RelayTarget \<Rightarrow> RelayTarget" where
  "fewestSessions [] best = best"
| "fewestSessions (r # rs) best = fewestSessions rs (if rt_Sessions r < rt_Sessions best then r else best)"

definition readyRelays :: "Live \<Rightarrow> RelayTarget list" where
  "readyRelays live =
     (let relays = lv_Relays live; ready = filter (\<lambda>r. \<not> rt_Draining r) relays
      in sort_key rt_ID (if ready = [] then relays else ready))"

definition relayPick :: "Live \<Rightarrow> bool \<Rightarrow> 64 word \<Rightarrow> RelayTarget option \<times> 64 word" where
  "relayPick live leastLoaded rr =
     (case readyRelays live of
        [] \<Rightarrow> (None, rr)
      | r # rs \<Rightarrow>
          if leastLoaded then (Some (fewestSessions rs r), rr)
          else let rr1 = rr + 1 in (Some ((r # rs) ! unat (rr1 mod of_nat (length (r # rs)))), rr1))"

section \<open>Resolving a host\<close>

record target =
  tg_route :: "route option"
  tg_relay :: "RelayTarget option"
  tg_ok :: bool

definition noTarget :: target where
  "noTarget = \<lparr>tg_route = None, tg_relay = None, tg_ok = False\<rparr>"

definition siteTarget :: "route \<Rightarrow> target" where
  "siteTarget r = \<lparr>tg_route = Some r, tg_relay = None, tg_ok = True\<rparr>"

definition relayTarget :: "route \<Rightarrow> RelayTarget option \<Rightarrow> target" where
  "relayTarget r relay = \<lparr>tg_route = Some r, tg_relay = relay, tg_ok = (relay \<noteq> None)\<rparr>"

text \<open>\<open>host[i:]\<close> for the first dot at a position \<open>i > 0\<close>.\<close>

definition fromFirstDot :: "string \<Rightarrow> string option" where
  "fromFirstDot host =
     (let (before, rest, found) = Cut host CHR ''.'' in if found \<and> before \<noteq> [] then Some (CHR ''.'' # rest) else None)"

definition resolve :: "edge_Config \<Rightarrow> Live \<Rightarrow> routeSet \<Rightarrow> string \<Rightarrow> 64 word \<Rightarrow> target \<times> 64 word" where
  "resolve cfg live rs host0 rr =
     (let host = ToLower (TrimSuffix host0 ''.'');
          wildcard = (case fromFirstDot host of None \<Rightarrow> None | Some suffix \<Rightarrow> map_of (rs_wildcards rs) suffix);
          fallback = (case wildcard of
             Some r \<Rightarrow> (siteTarget r, rr)
           | None \<Rightarrow> (case rs_base rs of
                None \<Rightarrow> (noTarget, rr)
              | Some b \<Rightarrow> map_prod (relayTarget b) id (relayPick live False rr)))
      in case map_of (rs_byName rs) host of
           Some r \<Rightarrow> (siteTarget r, rr)
         | None \<Rightarrow>
             (case rs_base rs of
                Some b \<Rightarrow>
                  if host \<noteq> [] \<and> host = ec_ControlSNI cfg then map_prod (relayTarget b) id (relayPick live True rr)
                  else if host \<noteq> [] \<and> lv_OwnerOfHost live host \<noteq> None then (relayTarget b (lv_OwnerOfHost live host), rr)
                  else fallback
              | None \<Rightarrow> fallback))"

definition accessPolicy :: "EdgeDomain \<Rightarrow> AccessPolicy" where
  "accessPolicy d = nilPolicy\<lparr>AllowIps := ed_AllowIps d, DenyIps := ed_DenyIps d\<rparr>"

end
