(* ===== verification/Edge_Apply.thy ===== *)
theory Edge_Apply
  imports Edge_Route
begin

text \<open>
  \<open>Apply\<close> and \<open>Close\<close> of \<open>go/tunnel/edge/edge.go\<close>: listeners and pools follow the
  edge domains.
\<close>

section \<open>Routes and pools\<close>

definition forwardKey :: "EdgePortForward \<Rightarrow> nat \<Rightarrow> string" where
  "forwardKey f i = (if pf_ForwardId f \<noteq> [] then pf_ForwardId f else ''#'' @ Itoa (int i))"

definition poolKey :: "EdgeDomain \<Rightarrow> nat \<Rightarrow> EdgePortForward \<Rightarrow> string" where
  "poolKey d i f = ed_DomainId d @ ''/'' @ forwardKey f i"

text \<open>The loop's state: the pools of the new configuration, its routes in order,
  and the heap.\<close>

record applying =
  ap_pools :: "(string, nat) gomap"
  ap_routes :: "route list"
  ap_heap :: "(nat, pool) gomap"
  ap_next :: nat

text \<open>The old pool under that key when its forward is unchanged, or a new pool.\<close>

definition poolFor ::
    "(string \<Rightarrow> string list option) \<Rightarrow> string \<Rightarrow> (string, nat) gomap \<Rightarrow> string \<Rightarrow> EdgePortForward \<Rightarrow> applying \<Rightarrow> nat \<times> applying" where
  "poolFor lookup nodeIP old key f s =
     (case map_of old key of
        Some a \<Rightarrow>
          if pl_fwd (the (map_of (ap_heap s) a)) = f then (a, s)
          else (ap_next s, s\<lparr>ap_heap := AList.update (ap_next s) (newPool lookup key f nodeIP) (ap_heap s), ap_next := Suc (ap_next s)\<rparr>)
      | None \<Rightarrow>
          (ap_next s, s\<lparr>ap_heap := AList.update (ap_next s) (newPool lookup key f nodeIP) (ap_heap s), ap_next := Suc (ap_next s)\<rparr>))"

definition routeOf :: "EdgeDomain \<Rightarrow> EdgePortForward \<Rightarrow> string \<Rightarrow> nat \<Rightarrow> Access \<Rightarrow> route" where
  "routeOf d f key a access =
     \<lparr>ro_domain = d, ro_fwd = f, ro_pool = a, ro_access = access,
      ro_tunnel = (if pf_Mode f = EDGE_FORWARD_MODE_TERMINATE
                   then Some \<lparr>pt_id = key, pt_pool = a, pt_fwd = f, pt_access = access\<rparr> else None)\<rparr>"

definition applyForward ::
    "(string \<Rightarrow> string list option) \<Rightarrow> string \<Rightarrow> (string, nat) gomap \<Rightarrow> EdgeDomain \<Rightarrow> Access \<Rightarrow> nat \<times> EdgePortForward \<Rightarrow> applying \<Rightarrow> applying" where
  "applyForward lookup nodeIP old d access = (\<lambda>(i, f) s.
     if \<not> pf_Enabled f then s
     else let key = poolKey d i f; (a, s1) = poolFor lookup nodeIP old key f s
          in s1\<lparr>ap_pools := AList.update key a (ap_pools s1), ap_routes := ap_routes s1 @ [routeOf d f key a access]\<rparr>)"

text \<open>The IP lists alone, so the check of password hashes in \<^const>\<open>ParseAccess\<close> has
  nothing to look at.\<close>

definition domainAccess :: "EdgeDomain \<Rightarrow> Access option" where
  "domainAccess d = (case ParseAccess (\<lambda>_. True) (accessPolicy d) of Inl _ \<Rightarrow> None | Inr a \<Rightarrow> Some a)"

definition applyDomain ::
    "(string \<Rightarrow> string list option) \<Rightarrow> string \<Rightarrow> (string, nat) gomap \<Rightarrow> EdgeDomain \<Rightarrow> applying \<Rightarrow> applying" where
  "applyDomain lookup nodeIP old d s =
     (if \<not> ed_Enabled d then s
      else case domainAccess d of
             None \<Rightarrow> s
           | Some access \<Rightarrow> fold (applyForward lookup nodeIP old d access) (enumerate 0 (ed_PortForwards d)) s)"

definition addPort :: "route \<Rightarrow> int \<Rightarrow> (int, route list) gomap \<Rightarrow> (int, route list) gomap" where
  "addPort r port m = AList.update port ((case map_of m port of None \<Rightarrow> [] | Some rs \<Rightarrow> rs) @ [r]) m"

definition routesByPort :: "route list \<Rightarrow> (int, route list) gomap" where
  "routesByPort routes = fold (\<lambda>r m. fold (addPort r) (forward_ports (ro_fwd r)) m) routes []"

section \<open>Listeners\<close>

definition listen :: "(int \<Rightarrow> string option) \<Rightarrow> int \<Rightarrow> EdgeProtocol \<Rightarrow> listener" where
  "listen bind port proto = \<lparr>ls_port = port, ls_proto = proto, ls_err = bind port, ls_closed = False, ls_routes = None, ls_http = None\<rparr>"

definition setRoutes :: "routeSet \<Rightarrow> listener \<Rightarrow> listener" where
  "setRoutes rs l = l\<lparr>ls_routes := Some rs\<rparr>"

definition stopPools :: "(string, nat) gomap \<Rightarrow> (string, nat) gomap \<Rightarrow> (nat, pool) gomap \<Rightarrow> (nat, pool) gomap" where
  "stopPools old new heap =
     fold (\<lambda>(key, a) h. if map_of new key \<noteq> Some a then AList.update a (pool_stop (the (map_of h a))) h else h) old heap"

definition protoOf :: "route list \<Rightarrow> EdgeProtocol" where
  "protoOf routes = pf_Protocol (ro_fwd (hd routes))"

definition closeListeners :: "(int, route list) gomap \<Rightarrow> (int, listener) gomap \<Rightarrow> (int, listener) gomap" where
  "closeListeners byPort ls =
     filter (\<lambda>(port, l). case map_of byPort port of None \<Rightarrow> False | Some routes \<Rightarrow> protoOf routes = ls_proto l) ls"

definition openListener ::
    "(int \<Rightarrow> string option) \<Rightarrow> int \<times> route list \<Rightarrow> (int, listener) gomap \<Rightarrow> (int, listener) gomap" where
  "openListener bind = (\<lambda>(port, routes) ls.
     let l = (case map_of ls port of Some l \<Rightarrow> l | None \<Rightarrow> listen bind port (protoOf routes))
     in AList.update port (setRoutes (newRouteSet routes) l) ls)"

definition Apply ::
    "(string \<Rightarrow> string list option) \<Rightarrow> (int \<Rightarrow> string option) \<Rightarrow> EdgeDomain list \<Rightarrow> int \<Rightarrow> Edge \<Rightarrow> Edge" where
  "Apply lookup bind domains version e =
     (if eg_closed e then e
      else let s = fold (applyDomain lookup (ec_NodeIP (eg_cfg e)) (eg_pools e)) domains
                     \<lparr>ap_pools = [], ap_routes = [], ap_heap = eg_heap e, ap_next = eg_next e\<rparr>;
               byPort = routesByPort (ap_routes s)
           in e\<lparr>eg_pools := ap_pools s,
                eg_heap := stopPools (eg_pools e) (ap_pools s) (ap_heap s),
                eg_next := ap_next s,
                eg_listeners := fold (openListener bind) byPort (closeListeners byPort (eg_listeners e)),
                eg_version := version\<rparr>)"

definition Close_Edge :: "Edge \<Rightarrow> Edge" where
  "Close_Edge e = e\<lparr>eg_closed := True, eg_listeners := map (\<lambda>(port, l). (port, l\<lparr>ls_closed := True\<rparr>)) (eg_listeners e),
     eg_heap := stopPools (eg_pools e) [] (eg_heap e)\<rparr>"

section \<open>The routes of a configuration\<close>

text \<open>The forwards that are served: enabled, of an enabled domain whose IP lists
  parse.\<close>

definition activeForwards :: "EdgeDomain list \<Rightarrow> (EdgeDomain \<times> Access \<times> nat \<times> EdgePortForward) list" where
  "activeForwards ds = concat (map (\<lambda>d.
     if ed_Enabled d then (case domainAccess d of None \<Rightarrow> []
       | Some acc \<Rightarrow> map (\<lambda>(i, f). (d, acc, i, f)) (filter (\<lambda>(i, f). pf_Enabled f) (enumerate 0 (ed_PortForwards d))))
     else []) ds)"

definition key_of :: "EdgeDomain \<times> Access \<times> nat \<times> EdgePortForward \<Rightarrow> string" where
  "key_of = (\<lambda>(d, acc, i, f). poolKey d i f)"

definition applyOne ::
    "(string \<Rightarrow> string list option) \<Rightarrow> string \<Rightarrow> (string, nat) gomap \<Rightarrow> EdgeDomain \<times> Access \<times> nat \<times> EdgePortForward \<Rightarrow> applying \<Rightarrow> applying" where
  "applyOne lookup nodeIP old = (\<lambda>(d, acc, i, f) s. let (a, s1) = poolFor lookup nodeIP old (poolKey d i f) f s
     in s1\<lparr>ap_pools := AList.update (poolKey d i f) a (ap_pools s1), ap_routes := ap_routes s1 @ [routeOf d f (poolKey d i f) a acc]\<rparr>)"

lemma fold_applyForward:
  "fold (applyForward lookup nodeIP old d acc) xs s =
     fold (applyOne lookup nodeIP old) (map (\<lambda>(i, f). (d, acc, i, f)) (filter (\<lambda>(i, f). pf_Enabled f) xs)) s"
  by (induction xs arbitrary: s) (auto simp: applyForward_def applyOne_def Let_def split: prod.splits)

lemma fold_applyDomain:
  "fold (applyDomain lookup nodeIP old) ds s = fold (applyOne lookup nodeIP old) (activeForwards ds) s"
  by (induction ds arbitrary: s) (auto simp: activeForwards_def applyDomain_def fold_applyForward split: option.splits)

section \<open>Pools of a new pool\<close>

lemma addMember_frame:
  "pl_id (fst (addMember keep sp st)) = pl_id (fst st) \<and> pl_stopped (fst (addMember keep sp st)) = pl_stopped (fst st)"
  by (cases sp; cases st) (auto simp: addMember_def Let_def upd_mem_def split: option.splits)

lemma addMembers_frame:
  "pl_id (fst (fold (addMember keep) specs st)) = pl_id (fst st) \<and>
   pl_stopped (fst (fold (addMember keep) specs st)) = pl_stopped (fst st)"
  by (induction specs arbitrary: st) (simp_all add: addMember_frame)

lemma newPool_frame [simp]:
  "pl_id (newPool lookup key f nodeIP) = key" "\<not> pl_stopped (newPool lookup key f nodeIP)" "pl_fwd (newPool lookup key f nodeIP) = f"
proof -
  let ?p = "\<lparr>pl_id = key, pl_fwd = f, pl_nodeIP = nodeIP, pl_members = [], pl_stopped = False, pl_heap = [], pl_next = 0\<rparr>"
  have "pl_id (fst (resolveMembers lookup ?p [])) = key \<and> \<not> pl_stopped (fst (resolveMembers lookup ?p []))"
    by (auto simp: resolveMembers_def addMembers_frame addMember_frame split: EdgeTargetKind.split option.split)
  then show "pl_id (newPool lookup key f nodeIP) = key" "\<not> pl_stopped (newPool lookup key f nodeIP)"
    by (simp_all add: newPool_def Let_def split_beta)
  show "pl_fwd (newPool lookup key f nodeIP) = f" using newPool_members by blast
qed

section \<open>Keeping and replacing pools\<close>

definition kept :: "(string, nat) gomap \<Rightarrow> (nat, pool) gomap \<Rightarrow> string \<Rightarrow> EdgePortForward \<Rightarrow> nat \<Rightarrow> bool" where
  "kept old heap key f a \<longleftrightarrow> map_of old key = Some a \<and> pl_fwd (the (map_of heap a)) = f"

lemma poolFor_kept:
  "kept old (ap_heap s) key f a \<Longrightarrow> poolFor lookup nodeIP old key f s = (a, s)"
  by (simp add: poolFor_def kept_def)

lemma poolFor_new:
  "\<nexists>a. kept old (ap_heap s) key f a \<Longrightarrow> poolFor lookup nodeIP old key f s =
     (ap_next s, s\<lparr>ap_heap := AList.update (ap_next s) (newPool lookup key f nodeIP) (ap_heap s), ap_next := Suc (ap_next s)\<rparr>)"
  by (auto simp: poolFor_def kept_def split: option.splits)

text \<open>What the loop has done after the forwards \<open>xs\<close>.\<close>

definition pool_made ::
    "(string \<Rightarrow> string list option) \<Rightarrow> string \<Rightarrow> (string, nat) gomap \<Rightarrow> applying \<Rightarrow> applying \<Rightarrow> EdgeDomain \<times> Access \<times> nat \<times> EdgePortForward \<Rightarrow> bool" where
  "pool_made lookup nodeIP old s s' x \<longleftrightarrow> (case x of (d, acc, i, f) \<Rightarrow>
     \<exists>a. map_of (ap_pools s') (key_of x) = Some a \<and>
        (if \<exists>b. kept old (ap_heap s) (key_of x) f b then kept old (ap_heap s) (key_of x) f a
         else ap_next s \<le> a \<and> a < ap_next s' \<and> map_of (ap_heap s') a = Some (newPool lookup (key_of x) f nodeIP)))"

definition route_of ::
    "applying \<Rightarrow> EdgeDomain \<times> Access \<times> nat \<times> EdgePortForward \<Rightarrow> route" where
  "route_of s = (\<lambda>(d, acc, i, f). routeOf d f (poolKey d i f) (the (map_of (ap_pools s) (poolKey d i f))) acc)"

definition applied ::
    "(string \<Rightarrow> string list option) \<Rightarrow> string \<Rightarrow> (string, nat) gomap \<Rightarrow> (EdgeDomain \<times> Access \<times> nat \<times> EdgePortForward) list \<Rightarrow> applying \<Rightarrow> applying \<Rightarrow> bool" where
  "applied lookup nodeIP old xs s s' \<longleftrightarrow>
     (\<forall>a<ap_next s. map_of (ap_heap s') a = map_of (ap_heap s) a) \<and> ap_next s \<le> ap_next s' \<and>
     ap_routes s' = ap_routes s @ map (route_of s') xs \<and>
     (\<forall>k. k \<notin> key_of ` set xs \<longrightarrow> map_of (ap_pools s') k = map_of (ap_pools s) k) \<and>
     (\<forall>x\<in>set xs. pool_made lookup nodeIP old s s' x) \<and>
     (\<forall>a. ap_next s \<le> a \<longrightarrow> (map_of (ap_heap s') a \<noteq> None \<longleftrightarrow> a < ap_next s') \<and>
        (a < ap_next s' \<longrightarrow> (\<exists>x\<in>set xs. map_of (ap_pools s') (key_of x) = Some a)))"

definition apply_pre :: "(string, nat) gomap \<Rightarrow> applying \<Rightarrow> bool" where
  "apply_pre old s \<longleftrightarrow> (\<forall>k a. map_of old k = Some a \<longrightarrow> a < ap_next s) \<and>
     (\<forall>a. map_of (ap_heap s) a \<noteq> None \<longleftrightarrow> a < ap_next s)"

lemma applyOne_step:
  assumes "apply_pre old s"
  shows "applied lookup nodeIP old [x] s (applyOne lookup nodeIP old x s)" "apply_pre old (applyOne lookup nodeIP old x s)"
proof -
  obtain d acc i f where x: "x = (d, acc, i, f)" by (metis prod_cases4)
  have none: "map_of (ap_heap s) a = None" if "ap_next s \<le> a" for a using assms that by (meson apply_pre_def not_less)
  have "applied lookup nodeIP old [x] s (applyOne lookup nodeIP old x s) \<and> apply_pre old (applyOne lookup nodeIP old x s)"
  proof (cases "\<exists>a. kept old (ap_heap s) (poolKey d i f) f a")
    case True
    then obtain a where a: "kept old (ap_heap s) (poolKey d i f) f a" by blast
    then show ?thesis
      using assms none
      by (auto simp: applied_def apply_pre_def applyOne_def x key_of_def poolFor_kept [OF a] pool_made_def route_of_def)
  next
    case False
    then show ?thesis
      using assms none
      by (auto simp: applied_def apply_pre_def applyOne_def x key_of_def poolFor_new pool_made_def route_of_def less_Suc_eq
          dest: spec [of _ "ap_next s"])
  qed
  then show "applied lookup nodeIP old [x] s (applyOne lookup nodeIP old x s)" "apply_pre old (applyOne lookup nodeIP old x s)"
    by blast+
qed

lemma kept_frame:
  assumes "apply_pre old s" "\<forall>a<ap_next s. map_of (ap_heap s') a = map_of (ap_heap s) a"
  shows "kept old (ap_heap s') key f a = kept old (ap_heap s) key f a"
  using assms by (auto simp: kept_def apply_pre_def)

lemma applied_Cons:
  assumes pre: "apply_pre old s" and step: "applied lookup nodeIP old [x] s s1" and rest: "applied lookup nodeIP old xs s1 s2"
    and new: "key_of x \<notin> key_of ` set xs"
  shows "applied lookup nodeIP old (x # xs) s s2"
proof -
  have mono: "ap_next s \<le> ap_next s1" "ap_next s1 \<le> ap_next s2"
    and heap: "\<forall>a<ap_next s. map_of (ap_heap s1) a = map_of (ap_heap s) a" "\<forall>a<ap_next s1. map_of (ap_heap s2) a = map_of (ap_heap s1) a"
    using step rest by (simp_all add: applied_def)
  have px: "map_of (ap_pools s2) (key_of x) = map_of (ap_pools s1) (key_of x)" using rest new by (simp add: applied_def)
  have "route_of s2 x = route_of s1 x" using px by (auto simp: route_of_def key_of_def split: prod.splits)
  then have "ap_routes s2 = ap_routes s @ map (route_of s2) (x # xs)" using step rest by (simp add: applied_def)
  moreover have "pool_made lookup nodeIP old s s2 x"
    using step px heap(2) mono(2) unfolding applied_def pool_made_def
    by (cases x) (auto split: if_splits dest: less_le_trans)
  moreover have "pool_made lookup nodeIP old s s2 y" if "y \<in> set xs" for y
    using rest that kept_frame [OF pre heap(1)] mono(1) unfolding applied_def pool_made_def
    by (cases y) (fastforce split: if_splits)
  moreover have "(map_of (ap_heap s2) a \<noteq> None \<longleftrightarrow> a < ap_next s2) \<and>
      (a < ap_next s2 \<longrightarrow> (\<exists>y\<in>set (x # xs). map_of (ap_pools s2) (key_of y) = Some a))" if "ap_next s \<le> a" for a
  proof (cases "a < ap_next s1")
    case True
    then show ?thesis using step that heap(2) mono(2) px by (auto simp: applied_def)
  next
    case False
    then show ?thesis using rest by (auto simp: applied_def)
  qed
  ultimately show ?thesis
    using step rest heap mono by (simp add: applied_def)
qed

lemma applyOne_fold:
  assumes "apply_pre old s" "distinct (map key_of xs)"
  shows "applied lookup nodeIP old xs s (fold (applyOne lookup nodeIP old) xs s)"
  using assms
proof (induction xs arbitrary: s)
  case Nil
  then show ?case by (auto simp: applied_def apply_pre_def)
next
  case (Cons x xs)
  note step = applyOne_step [OF Cons.prems(1), of lookup nodeIP x]
  have "key_of x \<notin> key_of ` set xs" "distinct (map key_of xs)" using Cons.prems(2) by simp_all
  then show ?case
    using applied_Cons [OF Cons.prems(1) step(1) Cons.IH [OF step(2)]] by simp
qed

section \<open>Pool invariant\<close>

text \<open>Every pool of the table runs under its own key, and every pool that runs is
  in the table: none is leaked, none is stopped while in use.\<close>

definition pools_inv :: "Edge \<Rightarrow> bool" where
  "pools_inv e \<longleftrightarrow>
     (\<forall>k a. map_of (eg_pools e) k = Some a \<longrightarrow> (\<exists>p. map_of (eg_heap e) a = Some p \<and> pl_id p = k \<and> \<not> pl_stopped p)) \<and>
     (\<forall>a. map_of (eg_heap e) a \<noteq> None \<longleftrightarrow> a < eg_next e) \<and>
     (\<forall>a p. map_of (eg_heap e) a = Some p \<longrightarrow> \<not> pl_stopped p \<longrightarrow> (\<exists>k. map_of (eg_pools e) k = Some a)) \<and>
     map_ok (eg_pools e)"

lemma pools_inv_key:
  assumes "pools_inv e" "(k, a) \<in> set (eg_pools e)" "map_of (eg_pools e) j = Some a"
  shows "k = j"
proof -
  have "map_of (eg_pools e) k = Some a" using assms(1,2) by (simp add: pools_inv_def map_of_mem)
  then show ?thesis using assms(1,3) unfolding pools_inv_def by (metis option.inject)
qed

lemma stopPools_get:
  assumes "\<forall>(k, b)\<in>set old. map_of heap b \<noteq> None"
  shows "map_of (stopPools old new heap) a =
     map_option (\<lambda>p. if \<exists>k. (k, a) \<in> set old \<and> map_of new k \<noteq> Some a then pool_stop p else p) (map_of heap a)"
  using assms
proof (induction old arbitrary: heap)
  case (Cons x old)
  obtain k b where x: "x = (k, b)" by fastforce
  show ?case
  proof (cases "map_of new k \<noteq> Some b")
    case True
    let ?heap = "AList.update b (pool_stop (the (map_of heap b))) heap"
    have idem: "pool_stop (pool_stop p) = pool_stop p" for p by (simp add: pool_stop_def)
    have "stopPools (x # old) new heap = stopPools old new ?heap"
      using True by (simp add: stopPools_def x)
    moreover have "\<forall>(k, c)\<in>set old. map_of ?heap c \<noteq> None" using Cons.prems by auto
    moreover have "map_of heap b \<noteq> None" using Cons.prems x by auto
    ultimately show ?thesis
      using True Cons.IH [of ?heap] by (cases "a = b") (auto simp: x idem)
  next
    case False
    then have "stopPools (x # old) new heap = stopPools old new heap" by (simp add: stopPools_def x)
    moreover have "(\<exists>j. (j, a) \<in> set (x # old) \<and> map_of new j \<noteq> Some a) \<longleftrightarrow> (\<exists>j. (j, a) \<in> set old \<and> map_of new j \<noteq> Some a)"
      using False by (auto simp: x)
    ultimately show ?thesis using Cons.IH [of heap] Cons.prems by simp
  qed
qed (simp add: stopPools_def option.map_ident)

lemma update_map_ok: "map_ok m \<Longrightarrow> map_ok (AList.update k v m)"
  by simp

lemma applyOne_map_ok: "map_ok (ap_pools s) \<Longrightarrow> map_ok (ap_pools (applyOne lookup nodeIP old x s))"
  by (cases x) (auto simp: applyOne_def poolFor_def Let_def split: option.splits)

lemma fold_applyOne_map_ok: "map_ok (ap_pools s) \<Longrightarrow> map_ok (ap_pools (fold (applyOne lookup nodeIP old) xs s))"
  by (induction xs arbitrary: s) (simp_all add: applyOne_map_ok)

text \<open>The state the loop of \<open>Apply\<close> starts from, and where it ends.\<close>

definition apply_start :: "Edge \<Rightarrow> applying" where
  "apply_start e = \<lparr>ap_pools = [], ap_routes = [], ap_heap = eg_heap e, ap_next = eg_next e\<rparr>"

definition apply_result :: "(string \<Rightarrow> string list option) \<Rightarrow> EdgeDomain list \<Rightarrow> Edge \<Rightarrow> applying" where
  "apply_result lookup ds e = fold (applyOne lookup (ec_NodeIP (eg_cfg e)) (eg_pools e)) (activeForwards ds) (apply_start e)"

lemma Apply_simps:
  assumes "\<not> eg_closed e"
  shows "eg_pools (Apply lookup bind ds v e) = ap_pools (apply_result lookup ds e)"
    and "eg_heap (Apply lookup bind ds v e) = stopPools (eg_pools e) (ap_pools (apply_result lookup ds e)) (ap_heap (apply_result lookup ds e))"
    and "eg_next (Apply lookup bind ds v e) = ap_next (apply_result lookup ds e)"
    and "eg_listeners (Apply lookup bind ds v e) = fold (openListener bind) (routesByPort (ap_routes (apply_result lookup ds e)))
           (closeListeners (routesByPort (ap_routes (apply_result lookup ds e))) (eg_listeners e))"
    and "eg_version (Apply lookup bind ds v e) = v" "eg_closed (Apply lookup bind ds v e) = False"
    and "eg_cfg (Apply lookup bind ds v e) = eg_cfg e"
  using assms by (simp_all add: Apply_def Let_def fold_applyDomain apply_result_def apply_start_def)

lemma apply_result_applied:
  assumes "pools_inv e" "distinct (map key_of (activeForwards ds))"
  shows "applied lookup (ec_NodeIP (eg_cfg e)) (eg_pools e) (activeForwards ds) (apply_start e) (apply_result lookup ds e)"
    and "apply_pre (eg_pools e) (apply_start e)" "map_ok (ap_pools (apply_result lookup ds e))"
proof -
  show pre: "apply_pre (eg_pools e) (apply_start e)"
    using assms(1) by (fastforce simp: apply_pre_def apply_start_def pools_inv_def)
  show "applied lookup (ec_NodeIP (eg_cfg e)) (eg_pools e) (activeForwards ds) (apply_start e) (apply_result lookup ds e)"
    unfolding apply_result_def by (rule applyOne_fold [OF pre assms(2)])
  show "map_ok (ap_pools (apply_result lookup ds e))"
    unfolding apply_result_def by (rule fold_applyOne_map_ok) (simp add: apply_start_def)
qed

lemma apply_result_old:
  assumes "pools_inv e" "distinct (map key_of (activeForwards ds))"
  shows "\<forall>(k, b)\<in>set (eg_pools e). map_of (ap_heap (apply_result lookup ds e)) b \<noteq> None \<and> b < eg_next e"
proof (clarify)
  fix k b assume "(k, b) \<in> set (eg_pools e)"
  then have "map_of (eg_pools e) k = Some b" using assms(1) by (simp add: pools_inv_def map_of_mem)
  then show "map_of (ap_heap (apply_result lookup ds e)) b \<noteq> None \<and> b < eg_next e"
    using apply_result_applied(1,2) [OF assms] by (auto simp: applied_def apply_pre_def apply_start_def)
qed

text \<open>The pool a forward is served by after \<open>Apply\<close>: the same one when the
  forward did not change, with all its state, else a new one.\<close>

lemma Apply_pool_of:
  assumes "\<not> eg_closed e" "pools_inv e" "distinct (map key_of (activeForwards ds))" "(d, acc, i, f) \<in> set (activeForwards ds)"
  shows "\<exists>a. map_of (eg_pools (Apply lookup bind ds v e)) (poolKey d i f) = Some a \<and>
     (if \<exists>b. kept (eg_pools e) (eg_heap e) (poolKey d i f) f b
      then map_of (eg_pools e) (poolKey d i f) = Some a \<and> map_of (eg_heap (Apply lookup bind ds v e)) a = map_of (eg_heap e) a \<and>
           pl_fwd (the (map_of (eg_heap e) a)) = f
      else eg_next e \<le> a \<and> map_of (eg_heap (Apply lookup bind ds v e)) a = Some (newPool lookup (poolKey d i f) f (ec_NodeIP (eg_cfg e))))"
proof -
  let ?s = "apply_start e" and ?s' = "apply_result lookup ds e" and ?x = "(d, acc, i, f)"
  note fin = apply_result_applied(1) [OF assms(2,3), of lookup] apply_result_applied(2) [OF assms(2,3)]
  have start: "ap_heap ?s = eg_heap e" "ap_next ?s = eg_next e" by (simp_all add: apply_start_def)
  have "pool_made lookup (ec_NodeIP (eg_cfg e)) (eg_pools e) ?s ?s' ?x" using fin(1) assms(4) by (simp add: applied_def)
  then obtain a where a: "map_of (ap_pools ?s') (poolKey d i f) = Some a"
    "if \<exists>b. kept (eg_pools e) (eg_heap e) (poolKey d i f) f b then kept (eg_pools e) (eg_heap e) (poolKey d i f) f a
     else eg_next e \<le> a \<and> a < ap_next ?s' \<and> map_of (ap_heap ?s') a = Some (newPool lookup (poolKey d i f) f (ec_NodeIP (eg_cfg e)))"
    unfolding pool_made_def key_of_def prod.case start by blast
  note old = apply_result_old [OF assms(2,3), of lookup]
  have heap: "map_of (eg_heap (Apply lookup bind ds v e)) a =
      map_option (\<lambda>p. if \<exists>k. (k, a) \<in> set (eg_pools e) \<and> map_of (ap_pools ?s') k \<noteq> Some a then pool_stop p else p) (map_of (ap_heap ?s') a)"
    unfolding Apply_simps(2) [OF assms(1)] by (rule stopPools_get) (use old in blast)
  show ?thesis
  proof (cases "\<exists>b. kept (eg_pools e) (eg_heap e) (poolKey d i f) f b")
    case True
    then have k: "kept (eg_pools e) (eg_heap e) (poolKey d i f) f a" using a(2) by simp
    have other: "k = poolKey d i f" if "(k, a) \<in> set (eg_pools e)" for k
      using k that pools_inv_key [OF assms(2)] by (simp add: kept_def)
    have "a < eg_next e" using k fin(2) by (auto simp: kept_def apply_pre_def apply_start_def)
    then have "map_of (ap_heap ?s') a = map_of (eg_heap e) a" using fin(1) by (simp add: applied_def apply_start_def)
    moreover have "(\<exists>k. (k, a) \<in> set (eg_pools e) \<and> map_of (ap_pools ?s') k \<noteq> Some a) = False" using other a(1) by blast
    ultimately have "map_of (eg_heap (Apply lookup bind ds v e)) a = map_of (eg_heap e) a"
      unfolding heap by (simp only: if_False option.map_ident)
    then show ?thesis using True k a(1) Apply_simps(1) [OF assms(1)] by (auto simp: kept_def)
  next
    case False
    then have "eg_next e \<le> a" "map_of (ap_heap ?s') a = Some (newPool lookup (poolKey d i f) f (ec_NodeIP (eg_cfg e)))"
      using a(2) by simp_all
    moreover have "\<not> (\<exists>k. (k, a) \<in> set (eg_pools e))" using old calculation(1) by fastforce
    ultimately show ?thesis using False a(1) heap Apply_simps(1) [OF assms(1)] by auto
  qed
qed

lemma Apply_pools_dom:
  assumes "\<not> eg_closed e" "pools_inv e" "distinct (map key_of (activeForwards ds))"
  shows "map_of (eg_pools (Apply lookup bind ds v e)) k \<noteq> None \<longleftrightarrow> k \<in> key_of ` set (activeForwards ds)"
proof -
  let ?s' = "apply_result lookup ds e"
  note fin = apply_result_applied(1) [OF assms(2,3), of lookup]
  have "map_of (ap_pools ?s') k = None" if "k \<notin> key_of ` set (activeForwards ds)"
    using fin that by (simp add: applied_def apply_start_def)
  moreover have "map_of (ap_pools ?s') k \<noteq> None" if "k \<in> key_of ` set (activeForwards ds)"
    using fin that by (force simp: applied_def pool_made_def split: prod.splits)
  ultimately show ?thesis unfolding Apply_simps(1) [OF assms(1)] by metis
qed

lemma Apply_pools_inv:
  assumes "\<not> eg_closed e" "pools_inv e" "distinct (map key_of (activeForwards ds))"
  shows "pools_inv (Apply lookup bind ds v e)"
proof -
  let ?s = "apply_start e" and ?s' = "apply_result lookup ds e" and ?e = "Apply lookup bind ds v e"
  note fin = apply_result_applied(1) [OF assms(2,3), of lookup] apply_result_applied(2,3) [OF assms(2,3)]
  have start: "ap_heap ?s = eg_heap e" "ap_next ?s = eg_next e" by (simp_all add: apply_start_def)
  have old: "\<forall>(k, b)\<in>set (eg_pools e). map_of (ap_heap ?s') b \<noteq> None"
    using apply_result_old [OF assms(2,3), of lookup] by blast
  have heap: "map_of (eg_heap ?e) a =
      map_option (\<lambda>p. if \<exists>k. (k, a) \<in> set (eg_pools e) \<and> map_of (ap_pools ?s') k \<noteq> Some a then pool_stop p else p) (map_of (ap_heap ?s') a)" for a
    unfolding Apply_simps(2) [OF assms(1)] by (rule stopPools_get [OF old])
  have runs: "\<exists>p. map_of (eg_heap ?e) a = Some p \<and> pl_id p = k \<and> \<not> pl_stopped p" if k: "map_of (eg_pools ?e) k = Some a" for k a
  proof -
    have "k \<in> key_of ` set (activeForwards ds)" using k Apply_pools_dom [OF assms, of lookup bind v k] by simp
    then obtain d acc i f where x: "(d, acc, i, f) \<in> set (activeForwards ds)" "k = poolKey d i f" by (auto simp: key_of_def)
    show ?thesis
    proof (cases "\<exists>b. kept (eg_pools e) (eg_heap e) k f b")
      case True
      then have "map_of (eg_pools e) k = Some a" "map_of (eg_heap ?e) a = map_of (eg_heap e) a"
        using Apply_pool_of [OF assms x(1), of lookup bind v] k x(2) by auto
      then show ?thesis using assms(2) by (simp add: pools_inv_def)
    next
      case False
      then show ?thesis using Apply_pool_of [OF assms x(1), of lookup bind v] k x(2) by auto
    qed
  qed
  have dom: "map_of (eg_heap ?e) a \<noteq> None \<longleftrightarrow> a < eg_next ?e" for a
  proof (cases "a < eg_next e")
    case True
    then have "map_of (ap_heap ?s') a \<noteq> None" using fin(1,2) by (simp add: applied_def apply_pre_def start)
    moreover have "a < ap_next ?s'" using True fin(1) by (simp add: applied_def start)
    ultimately show ?thesis using heap [of a] by (simp add: Apply_simps(3) [OF assms(1)])
  next
    case False
    then show ?thesis using fin(1) heap [of a] by (simp add: applied_def start Apply_simps(3) [OF assms(1)])
  qed
  have used: "\<exists>k. map_of (eg_pools ?e) k = Some a" if p: "map_of (eg_heap ?e) a = Some p" "\<not> pl_stopped p" for a p
  proof (cases "a < eg_next e")
    case True
    obtain q where q: "map_of (ap_heap ?s') a = Some q"
      "p = (if \<exists>k. (k, a) \<in> set (eg_pools e) \<and> map_of (ap_pools ?s') k \<noteq> Some a then pool_stop q else q)"
      using p(1) heap [of a] by auto
    then have keep: "\<not> (\<exists>k. (k, a) \<in> set (eg_pools e) \<and> map_of (ap_pools ?s') k \<noteq> Some a)" "p = q"
      using p(2) by (auto simp: pool_stop_def split: if_splits)
    have "map_of (eg_heap e) a = Some p" using True q(1) keep(2) fin(1) by (simp add: applied_def start)
    then obtain k where "map_of (eg_pools e) k = Some a" using assms(2) p(2) unfolding pools_inv_def by blast
    then have "map_of (ap_pools ?s') k = Some a" using keep(1) by (meson map_of_SomeD)
    then show ?thesis by (auto simp: Apply_simps(1) [OF assms(1)])
  next
    case False
    moreover have "a < ap_next ?s'" using dom [of a] p(1) by (simp add: Apply_simps(3) [OF assms(1)])
    ultimately show ?thesis
      using fin(1) unfolding applied_def start Apply_simps(1) [OF assms(1)] by (metis not_less)
  qed
  show ?thesis unfolding pools_inv_def using runs dom used fin(3) Apply_simps(1) [OF assms(1)] by metis
qed

end
