(* ===== verification/Edge_Routing.thy ===== *)
theory Edge_Routing
  imports Edge_Apply
begin

text \<open>
  What \<open>Apply\<close> makes of a validated configuration: one listener per served
  port, with the protocol of every route on it, and a route set in which every
  site name leads to its own forward.
\<close>

section \<open>Route sets\<close>

definition route_has :: "route \<Rightarrow> string \<Rightarrow> bool" where
  "route_has r n \<longleftrightarrow> ed_Kind (ro_domain r) \<noteq> EDGE_DOMAIN_KIND_TUNNEL_BASE \<and> n \<in> ToLower ` set (Names_of (ro_domain r))"

lemma CutPrefix_star: "CutPrefix n ''*'' = (if HasPrefix n ''*'' then (drop 1 n, True) else (n, False))"
  by (simp add: CutPrefix_def)

lemma star_split: "HasPrefix n ''*'' \<Longrightarrow> n = ''*'' @ drop 1 n"
  by (auto simp: HasPrefix_iff)

lemma addName_get:
  "map_of (rs_byName (addName r m rs)) n = (if n = ToLower m \<and> \<not> HasPrefix n ''*'' then Some r else map_of (rs_byName rs) n)"
  "map_of (rs_wildcards (addName r m rs)) w = (if ''*'' @ w = ToLower m then Some r else map_of (rs_wildcards rs) w)"
  "rs_base (addName r m rs) = rs_base rs" "rs_single (addName r m rs) = rs_single rs"
proof -
  have star: "drop 1 (ToLower m) = w \<longleftrightarrow> ''*'' @ w = ToLower m" if "HasPrefix (ToLower m) ''*''"
    using star_split [OF that] by (metis append_Cons append_Nil drop_Suc_Cons drop0 One_nat_def)
  moreover have "HasPrefix (ToLower m) ''*''" if "''*'' @ w = ToLower m" using that HasPrefix_append by metis
  ultimately show "map_of (rs_wildcards (addName r m rs)) w = (if ''*'' @ w = ToLower m then Some r else map_of (rs_wildcards rs) w)"
    by (auto simp: addName_def CutPrefix_star Let_def)
qed (auto simp: addName_def CutPrefix_star Let_def)

lemma addNames_get:
  "map_of (rs_byName (fold (addName r) ns rs)) n =
     (if n \<in> ToLower ` set ns \<and> \<not> HasPrefix n ''*'' then Some r else map_of (rs_byName rs) n)"
  "map_of (rs_wildcards (fold (addName r) ns rs)) w =
     (if ''*'' @ w \<in> ToLower ` set ns then Some r else map_of (rs_wildcards rs) w)"
  "rs_base (fold (addName r) ns rs) = rs_base rs" "rs_single (fold (addName r) ns rs) = rs_single rs"
  by (induction ns arbitrary: rs) (auto simp: addName_get)

lemma addRoute_get:
  "map_of (rs_byName (addRoute r rs)) n = (if route_has r n \<and> \<not> HasPrefix n ''*'' then Some r else map_of (rs_byName rs) n)"
  "map_of (rs_wildcards (addRoute r rs)) w = (if route_has r (''*'' @ w) then Some r else map_of (rs_wildcards rs) w)"
  "rs_base (addRoute r rs) = (if ed_Kind (ro_domain r) = EDGE_DOMAIN_KIND_TUNNEL_BASE then Some r else rs_base rs)"
  "rs_single (addRoute r rs) = (if pf_Protocol (ro_fwd r) = EDGE_PROTOCOL_TCP then Some r else rs_single rs)"
  unfolding addRoute_def Let_def by (auto simp: addNames_get addName_get route_has_def Names_of_def)

lemma newRouteSet_snoc: "newRouteSet (rs @ [r]) = addRoute r (newRouteSet rs)"
  by (simp add: newRouteSet_def)

lemma newRouteSet_Nil [simp]: "newRouteSet [] = \<lparr>rs_byName = [], rs_wildcards = [], rs_base = None, rs_single = None\<rparr>"
  by (simp add: newRouteSet_def)

text \<open>Each entry is the last route that qualifies.\<close>

lemma newRouteSet_get:
  "map_of (rs_byName (newRouteSet rs)) n = find (\<lambda>r. route_has r n \<and> \<not> HasPrefix n ''*'') (rev rs)"
  "map_of (rs_wildcards (newRouteSet rs)) w = find (\<lambda>r. route_has r (''*'' @ w)) (rev rs)"
  "rs_base (newRouteSet rs) = find (\<lambda>r. ed_Kind (ro_domain r) = EDGE_DOMAIN_KIND_TUNNEL_BASE) (rev rs)"
  "rs_single (newRouteSet rs) = find (\<lambda>r. pf_Protocol (ro_fwd r) = EDGE_PROTOCOL_TCP) (rev rs)"
  by (induction rs rule: rev_induct) (simp_all add: newRouteSet_snoc addRoute_get)

lemma find_unique:
  assumes "x \<in> set xs" "P x" "\<And>y. y \<in> set xs \<Longrightarrow> P y \<Longrightarrow> y = x"
  shows "find P xs = Some x"
proof (cases "find P xs")
  case None
  then show ?thesis using assms(1,2) by (simp add: find_None_iff_all)
next
  case (Some y)
  then show ?thesis using find_Some_iff_mem [OF Some] assms(3) by simp
qed

section \<open>Ports\<close>

lemma addPorts_get:
  "distinct ps \<Longrightarrow> map_of (fold (addPort r) ps m) p =
     (if p \<in> set ps then Some ((case map_of m p of None \<Rightarrow> [] | Some rs \<Rightarrow> rs) @ [r]) else map_of m p)"
  by (induction ps arbitrary: m) (auto simp: addPort_def)

lemma addPorts_ok: "map_ok m \<Longrightarrow> map_ok (fold (addPort r) ps m)"
  by (induction ps arbitrary: m) (simp_all add: addPort_def)

definition routes_on :: "route list \<Rightarrow> int \<Rightarrow> route list" where
  "routes_on rs port = filter (\<lambda>r. port \<in> set (forward_ports (ro_fwd r))) rs"

lemma routesByPort_ok: "map_ok (routesByPort rs)"
  by (induction rs rule: rev_induct) (simp_all add: routesByPort_def addPorts_ok)

lemma routesByPort_get:
  "map_of (routesByPort rs) p = (if routes_on rs p = [] then None else Some (routes_on rs p))"
proof (induction rs rule: rev_induct)
  case (snoc r rs)
  have "routesByPort (rs @ [r]) = fold (addPort r) (forward_ports (ro_fwd r)) (routesByPort rs)"
    by (simp add: routesByPort_def)
  moreover have "distinct (forward_ports (ro_fwd r))" by (simp add: forward_ports_def)
  ultimately show ?case using snoc by (auto simp: addPorts_get routes_on_def)
qed (simp add: routesByPort_def routes_on_def)

section \<open>Listeners\<close>

lemma openListeners_get:
  "distinct (map fst bp) \<Longrightarrow> map_of (fold (openListener bind) bp ls) p =
     (case map_of bp p of
        None \<Rightarrow> map_of ls p
      | Some routes \<Rightarrow> Some (setRoutes (newRouteSet routes)
          (case map_of ls p of Some l \<Rightarrow> l | None \<Rightarrow> listen bind p (protoOf routes))))"
proof (induction bp arbitrary: ls)
  case (Cons x bp)
  obtain q routes where x: "x = (q, routes)" by fastforce
  show ?case
  proof (cases "p = q")
    case True
    then have "map_of bp p = None" using Cons.prems x by (simp add: map_of_eq_None_iff)
    then show ?thesis using Cons True by (simp add: x openListener_def Let_def cong: option.case_cong)
  next
    case False
    then show ?thesis using Cons by (simp add: x openListener_def Let_def split: option.split)
  qed
qed simp

lemma closeListeners_get:
  "map_ok ls \<Longrightarrow> map_of (closeListeners bp ls) p =
     (case map_of ls p of
        None \<Rightarrow> None
      | Some l \<Rightarrow> (case map_of bp p of None \<Rightarrow> None | Some routes \<Rightarrow> if protoOf routes = ls_proto l then Some l else None))"
  unfolding closeListeners_def by (auto simp: map_of_filter_pair split: option.splits)

definition listener_for :: "(int \<Rightarrow> string option) \<Rightarrow> Edge \<Rightarrow> int \<Rightarrow> route list \<Rightarrow> listener" where
  "listener_for bind e p routes = setRoutes (newRouteSet routes)
     (case map_of (eg_listeners e) p of
        Some l \<Rightarrow> if protoOf routes = ls_proto l then l else listen bind p (protoOf routes)
      | None \<Rightarrow> listen bind p (protoOf routes))"

lemma Apply_listener:
  fixes lookup ds
  assumes "\<not> eg_closed e" "map_ok (eg_listeners e)"
  defines "routes \<equiv> \<lambda>p. routes_on (ap_routes (apply_result lookup ds e)) p"
  shows "map_of (eg_listeners (Apply lookup bind ds v e)) p = (if routes p = [] then None else Some (listener_for bind e p (routes p)))"
  unfolding Apply_simps(4) [OF assms(1)] openListeners_get [OF routesByPort_ok [unfolded map_ok_def]]
    closeListeners_get [OF assms(2)] routesByPort_get routes_def listener_for_def
  by (simp split: option.split)

lemma Apply_routes:
  assumes "pools_inv e" "distinct (map key_of (activeForwards ds))"
  shows "ap_routes (apply_result lookup ds e) = map (route_of (apply_result lookup ds e)) (activeForwards ds)"
  using apply_result_applied(1) [OF assms, of lookup] by (simp add: applied_def apply_start_def)

lemma route_of_simps [simp]:
  "ro_domain (route_of s (d, acc, i, f)) = d" "ro_fwd (route_of s (d, acc, i, f)) = f"
  "ro_access (route_of s (d, acc, i, f)) = acc" "ro_pool (route_of s (d, acc, i, f)) = the (map_of (ap_pools s) (poolKey d i f))"
  by (simp_all add: route_of_def routeOf_def)

section \<open>Validated configurations\<close>

lemma ownOverlap_nth:
  "\<not> ownOverlap as \<Longrightarrow> i < j \<Longrightarrow> j < length as \<Longrightarrow> \<not> overlap (as ! i) (as ! j)"
proof (induction as arbitrary: i j)
  case (Cons a as)
  then show ?case by (cases i; cases j) (auto simp: list_ex_iff)
qed simp

lemma activeForwards_mem:
  "(d, acc, i, f) \<in> set (activeForwards ds) \<longleftrightarrow>
     d \<in> set ds \<and> ed_Enabled d \<and> domainAccess d = Some acc \<and> i < length (ed_PortForwards d) \<and> f = ed_PortForwards d ! i \<and> pf_Enabled f"
  by (auto simp: activeForwards_def in_set_enumerate_eq split: if_splits option.splits) force

text \<open>On one port there is at most one forward of each domain, and all forwards
  have one protocol; a TCP port has one forward.\<close>

lemma port_forwards_unique:
  assumes "conf_ok ds" "(d, acc, i, f) \<in> set (activeForwards ds)" "(d', acc', j, g) \<in> set (activeForwards ds)"
    and "p \<in> set (forward_ports f)" "p \<in> set (forward_ports g)"
  shows "pf_Protocol f = pf_Protocol g"
    and "d = d' \<or> pf_Protocol f = EDGE_PROTOCOL_TCP \<Longrightarrow> (d, acc, i, f) = (d', acc', j, g)"
proof -
  have ov: "overlap f g" "overlap g f" using assms(4,5) by (auto intro: same_port_overlap)
  have mem: "d \<in> set ds" "d' \<in> set ds" "f \<in> set (ed_PortForwards d)" "g \<in> set (ed_PortForwards d')"
    using assms(2,3) by (auto simp: activeForwards_mem)
  have same: "i = j" if "d = d'"
  proof (rule ccontr)
    assume "i \<noteq> j"
    moreover have "\<not> ownOverlap (ed_PortForwards d)" using assms(1) mem(1) by (simp add: conf_ok_def domain_ok_def)
    ultimately show False
      using ownOverlap_nth ov that assms(2,3) by (metis activeForwards_mem linorder_neqE_nat)
  qed
  have comp: "pf_Protocol f = pf_Protocol g \<and> pf_Protocol f \<noteq> EDGE_PROTOCOL_TCP" if "d \<noteq> d'"
    using assms(1) mem ov(1) that unfolding conf_ok_def compatible_def by blast
  show "pf_Protocol f = pf_Protocol g" using same comp assms(2,3) by (cases "d = d'") (auto simp: activeForwards_mem)
  show "(d, acc, i, f) = (d', acc', j, g)" if "d = d' \<or> pf_Protocol f = EDGE_PROTOCOL_TCP"
    using that comp same assms(2,3) by (cases "d = d'") (auto simp: activeForwards_mem)
qed

lemma routes_on_Apply:
  assumes "pools_inv e" "distinct (map key_of (activeForwards ds))"
  shows "r \<in> set (routes_on (ap_routes (apply_result lookup ds e)) p) \<longleftrightarrow>
     (\<exists>d acc i f. (d, acc, i, f) \<in> set (activeForwards ds) \<and> p \<in> set (forward_ports f) \<and> r = route_of (apply_result lookup ds e) (d, acc, i, f))"
  unfolding routes_on_def Apply_routes [OF assms] by (simp add: image_iff) (metis (no_types) prod_cases4 route_of_simps(2))

lemma protoOf_port:
  assumes "conf_ok ds" "pools_inv e" "distinct (map key_of (activeForwards ds))"
    and "(d, acc, i, f) \<in> set (activeForwards ds)" "p \<in> set (forward_ports f)"
  shows "routes_on (ap_routes (apply_result lookup ds e)) p \<noteq> []"
    and "protoOf (routes_on (ap_routes (apply_result lookup ds e)) p) = pf_Protocol f"
proof -
  let ?rs = "routes_on (ap_routes (apply_result lookup ds e)) p"
  have "route_of (apply_result lookup ds e) (d, acc, i, f) \<in> set ?rs" using assms(4,5) routes_on_Apply [OF assms(2,3)] by blast
  then show ne: "?rs \<noteq> []" by auto
  then have "hd ?rs \<in> set ?rs" by simp
  then obtain d' acc' j g where g: "(d', acc', j, g) \<in> set (activeForwards ds)" "p \<in> set (forward_ports g)"
    "hd ?rs = route_of (apply_result lookup ds e) (d', acc', j, g)" using routes_on_Apply [OF assms(2,3)] by blast
  then show "protoOf ?rs = pf_Protocol f"
    using port_forwards_unique(1) [OF assms(1,4) g(1) assms(5) g(2)] by (simp add: protoOf_def)
qed

text \<open>The route a site name leads to on a port the site is served on.\<close>

lemma site_route:
  fixes lookup
  assumes "conf_ok ds" "pools_inv e" "distinct (map key_of (activeForwards ds))"
    and "(d, acc, i, f) \<in> set (activeForwards ds)" "p \<in> set (forward_ports f)"
    and "ed_Kind d \<noteq> EDGE_DOMAIN_KIND_TUNNEL_BASE" "n \<in> set (Names_of d)"
  defines "s \<equiv> apply_result lookup ds e"
  shows "find (\<lambda>r. route_has r n) (rev (routes_on (ap_routes s) p)) = Some (route_of s (d, acc, i, f))"
proof (rule find_unique)
  have low: "ToLower m = m" if "m \<in> set (Names_of d')" "d' \<in> set ds" for m d'
    using assms(1) that by (auto simp: conf_ok_def domain_ok_def)
  have d: "d \<in> set ds" using assms(4) by (simp add: activeForwards_mem)
  show "route_of s (d, acc, i, f) \<in> set (rev (routes_on (ap_routes s) p))"
    using assms(4,5) routes_on_Apply [OF assms(2,3)] by (auto simp: s_def)
  show "route_has (route_of s (d, acc, i, f)) n"
    using assms(6,7) low [OF assms(7) d] by (force simp: route_has_def)
  fix r assume "r \<in> set (rev (routes_on (ap_routes s) p))" and has: "route_has r n"
  then obtain d' acc' j g where g: "(d', acc', j, g) \<in> set (activeForwards ds)" "p \<in> set (forward_ports g)"
    "r = route_of s (d', acc', j, g)" using routes_on_Apply [OF assms(2,3)] by (auto simp: s_def)
  have d': "d' \<in> set ds" using g(1) by (simp add: activeForwards_mem)
  then have "n \<in> set (Names_of d')" using has g(3) low by (auto simp: route_has_def)
  then have "d = d'" using assms(1,7) d d' unfolding conf_ok_def compatible_def by blast
  then show "r = route_of s (d, acc, i, f)" using port_forwards_unique(2) [OF assms(1,4) g(1) assms(5) g(2)] g(3) by simp
qed

end
