(* ===== verification/Http_Proxy.thy ===== *)
theory Http_Proxy
  imports Auth_Access Go_HostPort
begin

text \<open>
  \<open>go/tunnel/httpproxy\<close>: routing of a terminated HTTP request by its Host, the
  access checks before it is proxied, and the cache of transports by tunnel ID.
  The proxy serves any tunnel type \<open>'t\<close> (the relay's tunnels, the edge's
  pools); \<open>'s\<close> is the state a balancing tunnel's \<open>Pick\<close> moves.  A request's
  headers are a map from canonical names; the login service (\<open>oidc.Service\<close>)
  answers through \<open>lg_Authorize\<close>: \<^const>\<open>None\<close> when it has written the response
  itself.
\<close>

section \<open>Requests\<close>

type_synonym header = "(string, string) gomap"

record http_request =
  hr_Host :: string
  hr_RemoteAddr :: string
  hr_TLS :: "string option"
  hr_RequestURI :: string
  hr_Header :: header

text \<open>\<open>base64.StdEncoding\<close>, and the credentials of an Authorization header.\<close>

definition b64_alphabet :: string where
  "b64_alphabet = ''ABCDEFGHIJKLMNOPQRSTUVWXYZabcdefghijklmnopqrstuvwxyz0123456789+/''"

definition b64_val :: "char \<Rightarrow> int option" where
  "b64_val c = map_option fst (find (\<lambda>(_, d). d = c) (zip [0..63] b64_alphabet))"

definition int_byte :: "int \<Rightarrow> char" where
  "int_byte n = char_of (n mod 256)"

fun b64_decode :: "string \<Rightarrow> string option" where
  "b64_decode [] = Some []"
| "b64_decode (a # b # c # d # rest) =
     (case (b64_val a, b64_val b) of
        (Some x, Some y) \<Rightarrow>
          if c = CHR ''='' then
            (if d = CHR ''='' \<and> rest = [] then Some [int_byte (x * 4 + y div 16)] else None)
          else (case b64_val c of
             None \<Rightarrow> None
           | Some z \<Rightarrow>
               if d = CHR ''='' then
                 (if rest = [] then Some [int_byte (x * 4 + y div 16), int_byte (y mod 16 * 16 + z div 4)] else None)
               else (case (b64_val d, b64_decode rest) of
                  (Some w, Some out) \<Rightarrow>
                    Some ([int_byte (x * 4 + y div 16), int_byte (y mod 16 * 16 + z div 4), int_byte (z mod 4 * 64 + w)] @ out)
                | _ \<Rightarrow> None))
      | _ \<Rightarrow> None)"
| "b64_decode _ = None"

definition parseBasicAuth :: "string \<Rightarrow> (string \<times> string) option" where
  "parseBasicAuth auth =
     (if length auth < 6 \<or> ToLower (take 6 auth) \<noteq> ''basic '' then None
      else case b64_decode (filter (\<lambda>c. c \<noteq> CHR 0x0A \<and> c \<noteq> CHR 0x0D) (drop 6 auth)) of
             None \<Rightarrow> None
           | Some s \<Rightarrow> (let (user, pw, ok) = Cut s CHR '':'' in if ok then Some (user, pw) else None))"

definition BasicAuth :: "http_request \<Rightarrow> (string \<times> string) option" where
  "BasicAuth r = (let auth = get_str (hr_Header r) ''Authorization'' in if auth = [] then None else parseBasicAuth auth)"

section \<open>The proxy\<close>

datatype State =
    StateUnknown
  | StateOffline
  | StateActive

datatype page =
    errUnknownHost
  | errUnknownTunnel
  | errAgentOffline
  | errUnavailable
  | errUpstream
  | errMisdirected
  | errIPDenied
  | errUnauthorized
  | errNoLogin

record Login =
  lg_AuthHost :: string
  lg_Authorize :: "http_request \<Rightarrow> OIDCRule \<Rightarrow> string option"

record ('t, 's) http_Config =
  hc_ForwardedHeaders :: bool
  hc_Login :: "Login option"
  hc_Lookup :: "string \<Rightarrow> 't option \<times> State \<times> string"
  hc_ID :: "'t \<Rightarrow> string"
  hc_Access :: "'t \<Rightarrow> Access"
  hc_Pick :: "'t \<Rightarrow> (string \<Rightarrow> 's \<Rightarrow> string option \<times> 's) option"

datatype 't http_result =
    ErrorPage int page
  | AuthPage
  | LoginPage
  | Proxied 't "string option" http_request

definition UserHeader :: string where
  "UserHeader = ''X-L8tunnel-User''"

definition normalizeHost :: "string \<Rightarrow> string" where
  "normalizeHost host0 =
     (let host = (case SplitHostPort host0 of Some (h, _) \<Rightarrow> h | None \<Rightarrow> host0)
      in ToLower (TrimSuffix host ''.''))"

text \<open>\<open>authorize\<close>: an error response, or the request with the relay's own headers,
  and the access state (it remembers verified passwords).  \<open>compare\<close> is
  \<open>bcrypt\<close>'s comparison.\<close>

definition delHeader :: "string \<Rightarrow> http_request \<Rightarrow> http_request" where
  "delHeader k r = r\<lparr>hr_Header := AList.delete k (hr_Header r)\<rparr>"

definition setHeader :: "string \<Rightarrow> string \<Rightarrow> http_request \<Rightarrow> http_request" where
  "setHeader k v r = r\<lparr>hr_Header := AList.update k v (hr_Header r)\<rparr>"

definition checkBasicAuth ::
    "(string \<Rightarrow> string \<Rightarrow> bool) \<Rightarrow> int \<Rightarrow> http_request \<Rightarrow> Access \<Rightarrow> (int \<times> page, http_request) result \<times> Access" where
  "checkBasicAuth compare now r access =
     (if \<not> RequiresBasic access then (Ok r, access)
      else case BasicAuth r of
             None \<Rightarrow> (Err (401, errUnauthorized), access)
           | Some (user, pw) \<Rightarrow>
               (let (ok, access1) = CheckBasic compare now user pw access
                in if ok then (Ok (delHeader ''Authorization'' r), access1) else (Err (401, errUnauthorized), access1)))"

definition checkLogin :: "Login option \<Rightarrow> http_request \<Rightarrow> Access \<Rightarrow> ((int \<times> page) option, http_request) result" where
  "checkLogin login r access =
     (case ac_oidc access of
        None \<Rightarrow> Ok r
      | Some rule \<Rightarrow>
          (case login of
             None \<Rightarrow> Err (Some (503, errNoLogin))
           | Some lg \<Rightarrow>
               (case lg_Authorize lg r rule of
                  None \<Rightarrow> Err None
                | Some user \<Rightarrow> Ok (setHeader UserHeader user r))))"

definition authorize ::
    "Login option \<Rightarrow> (string \<Rightarrow> string \<Rightarrow> bool) \<Rightarrow> int \<Rightarrow> http_request \<Rightarrow> Access \<Rightarrow> ((int \<times> page) option, http_request) result \<times> Access" where
  "authorize login compare now r0 access =
     (let r = delHeader UserHeader r0 in
      case ParseAddrPort (hr_RemoteAddr r) of
        None \<Rightarrow> (Err (Some (403, errIPDenied)), access)
      | Some (ip, _) \<Rightarrow>
          if \<not> AllowsIP access ip then (Err (Some (403, errIPDenied)), access)
          else case checkBasicAuth compare now r access of
                 (Inl p, access1) \<Rightarrow> (Err (Some p), access1)
               | (Inr r1, access1) \<Rightarrow> (checkLogin login r1 access1, access1))"

text \<open>The transport for a tunnel, by ID; a cached one dials the tunnel it was
  created for.\<close>

definition proxyFor :: "('t \<Rightarrow> string) \<Rightarrow> 't \<Rightarrow> (string, 't) gomap \<Rightarrow> 't \<times> (string, 't) gomap" where
  "proxyFor ID tun proxies =
     (case map_of proxies (ID tun) of
        Some tp \<Rightarrow> (tp, proxies)
      | None \<Rightarrow> (tun, AList.update (ID tun) tun proxies))"

definition Forget :: "string \<Rightarrow> (string, 't) gomap \<Rightarrow> (string, 't) gomap" where
  "Forget tunnelID proxies = AList.delete tunnelID proxies"

text \<open>The request as the backend sees it: \<open>httputil.ReverseProxy\<close> drops incoming
  forwarding headers before \<open>Rewrite\<close>, \<open>SetXForwarded\<close> writes new ones.\<close>

definition forwardingHeaders :: "string list" where
  "forwardingHeaders = [''Forwarded'', ''X-Forwarded-For'', ''X-Forwarded-Host'', ''X-Forwarded-Proto'']"

definition SetXForwarded :: "http_request \<Rightarrow> http_request \<Rightarrow> http_request" where
  "SetXForwarded inr out =
     (let out1 = (case SplitHostPort (hr_RemoteAddr inr) of
                    Some (ip, _) \<Rightarrow> setHeader ''X-Forwarded-For'' ip out
                  | None \<Rightarrow> delHeader ''X-Forwarded-For'' out)
      in setHeader ''X-Forwarded-Proto'' (if hr_TLS inr = None then ''http'' else ''https'')
           (setHeader ''X-Forwarded-Host'' (hr_Host inr) out1))"

definition Rewrite :: "bool \<Rightarrow> http_request \<Rightarrow> http_request" where
  "Rewrite forwarded r =
     (let out = fold delHeader forwardingHeaders r in if forwarded then SetXForwarded r out else out)"

definition ServeHTTP ::
    "('t, 's) http_Config \<Rightarrow> (string \<Rightarrow> string \<Rightarrow> bool) \<Rightarrow> int \<Rightarrow> http_request \<Rightarrow> (string, 't) gomap \<times> 's \<Rightarrow>
     't http_result \<times> Access option \<times> (string, 't) gomap \<times> 's" where
  "ServeHTTP cfg compare now r = (\<lambda>(proxies, s).
     case (case hc_Login cfg of Some lg \<Rightarrow> if normalizeHost (hr_Host r) = lg_AuthHost lg then Some lg else None | None \<Rightarrow> None) of
       Some lg \<Rightarrow>
         (case hr_TLS r of
            Some sni \<Rightarrow> if normalizeHost sni \<noteq> lg_AuthHost lg then (ErrorPage 421 errMisdirected, None, proxies, s)
                        else (AuthPage, None, proxies, s)
          | None \<Rightarrow> (AuthPage, None, proxies, s))
     | None \<Rightarrow>
         (let (tun, state, name) = hc_Lookup cfg (normalizeHost (hr_Host r)) in
          if name = [] then (ErrorPage 404 errUnknownHost, None, proxies, s)
          else if (case hr_TLS r of Some sni \<Rightarrow> snd (snd (hc_Lookup cfg (normalizeHost sni))) \<noteq> name | None \<Rightarrow> False)
          then (ErrorPage 421 errMisdirected, None, proxies, s)
          else case state of
                 StateActive \<Rightarrow>
                   (let t = the tun in
                    case authorize (hc_Login cfg) compare now r (hc_Access cfg t) of
                      (Inl (Some (status, p)), acc) \<Rightarrow> (ErrorPage status p, Some acc, proxies, s)
                    | (Inl None, acc) \<Rightarrow> (LoginPage, Some acc, proxies, s)
                    | (Inr r1, acc) \<Rightarrow>
                        (case hc_Pick cfg t of
                           None \<Rightarrow>
                             (let (tp, proxies1) = proxyFor (hc_ID cfg) t proxies
                              in (Proxied tp None (Rewrite (hc_ForwardedHeaders cfg) r1), Some acc, proxies1, s))
                         | Some pick \<Rightarrow>
                             (case pick (hr_RemoteAddr r1) s of
                                (None, s1) \<Rightarrow> (ErrorPage 503 errUnavailable, Some acc, proxies, s1)
                              | (Some backend, s1) \<Rightarrow>
                                  (let (tp, proxies1) = proxyFor (hc_ID cfg) t proxies
                                   in (Proxied tp (Some backend) (Rewrite (hc_ForwardedHeaders cfg) r1), Some acc, proxies1, s1)))))
               | StateOffline \<Rightarrow> (ErrorPage 502 errAgentOffline, None, proxies, s)
               | StateUnknown \<Rightarrow> (ErrorPage 404 errUnknownTunnel, None, proxies, s)))"

section \<open>Redirects\<close>

datatype redirect =
    BadHost
  | RedirectTo string

definition RedirectHandler :: "int \<Rightarrow> http_request \<Rightarrow> redirect" where
  "RedirectHandler httpsPort r =
     (let host = (case SplitHostPort (hr_Host r) of Some (h, _) \<Rightarrow> h | None \<Rightarrow> hr_Host r) in
      if host = [] \<or> list_ex (\<lambda>c. c = CHR ''/'' \<or> c = CHR 0x5C) host then BadHost
      else RedirectTo (''https://'' @ (if httpsPort \<noteq> 443 then JoinHostPort host httpsPort else host) @ hr_RequestURI r))"

section \<open>What a proxied request has passed\<close>

lemma header_simps [simp]:
  "map_of (hr_Header (delHeader k r)) j = (if j = k then None else map_of (hr_Header r) j)"
  "map_of (hr_Header (setHeader k v r)) j = (if j = k then Some v else map_of (hr_Header r) j)"
  "hr_Host (delHeader k r) = hr_Host r" "hr_RemoteAddr (delHeader k r) = hr_RemoteAddr r" "hr_TLS (delHeader k r) = hr_TLS r"
  "hr_Host (setHeader k v r) = hr_Host r" "hr_RemoteAddr (setHeader k v r) = hr_RemoteAddr r" "hr_TLS (setHeader k v r) = hr_TLS r"
  by (simp_all add: delHeader_def setHeader_def)

lemma BasicAuth_delHeader [simp]: "k \<noteq> ''Authorization'' \<Longrightarrow> BasicAuth (delHeader k r) = BasicAuth r"
  by (simp add: BasicAuth_def get_str_def Let_def)

definition basic_passed :: "(string \<Rightarrow> string \<Rightarrow> bool) \<Rightarrow> int \<Rightarrow> http_request \<Rightarrow> Access \<Rightarrow> bool" where
  "basic_passed compare now r access \<longleftrightarrow> (RequiresBasic access \<longrightarrow>
     (\<exists>user pw. BasicAuth r = Some (user, pw) \<and> fst (CheckBasic compare now user pw access)))"

text \<open>The request a login service is asked about: without the headers the proxy
  itself sets or consumes.\<close>

definition cleaned :: "Access \<Rightarrow> http_request \<Rightarrow> http_request" where
  "cleaned access r =
     (if RequiresBasic access then delHeader ''Authorization'' (delHeader UserHeader r) else delHeader UserHeader r)"

definition login_passed :: "Login option \<Rightarrow> http_request \<Rightarrow> Access \<Rightarrow> http_request \<Rightarrow> bool" where
  "login_passed login r access r1 \<longleftrightarrow>
     (case ac_oidc access of
        None \<Rightarrow> r1 = cleaned access r
      | Some rule \<Rightarrow> (\<exists>lg user. login = Some lg \<and> lg_Authorize lg (cleaned access r) rule = Some user \<and>
           r1 = setHeader UserHeader user (cleaned access r)))"

lemma CheckBasic_oidc [simp]: "ac_oidc (snd (CheckBasic compare now user pw a)) = ac_oidc a"
  by (simp add: CheckBasic_def Let_def split: option.splits)

lemma checkBasicAuth_Ok:
  assumes "checkBasicAuth compare now (delHeader UserHeader r) access = (Ok r1, access1)"
  shows "basic_passed compare now r access \<and> r1 = cleaned access r \<and> ac_oidc access1 = ac_oidc access"
proof (cases "RequiresBasic access")
  case False
  then show ?thesis using assms by (simp add: checkBasicAuth_def basic_passed_def cleaned_def)
next
  case True
  have basic: "BasicAuth (delHeader UserHeader r) = BasicAuth r" by (simp add: UserHeader_def)
  show ?thesis
  proof (cases "BasicAuth r")
    case None
    then show ?thesis using assms True basic by (simp add: checkBasicAuth_def)
  next
    case (Some up)
    obtain user pw where up: "up = (user, pw)" by fastforce
    obtain ok a1 where c: "CheckBasic compare now user pw access = (ok, a1)" by fastforce
    have "ok \<and> r1 = delHeader ''Authorization'' (delHeader UserHeader r) \<and> access1 = a1"
      using assms True Some up c basic by (simp add: checkBasicAuth_def split: if_splits)
    then show ?thesis
      using True Some up c CheckBasic_oidc [of compare now user pw access] by (simp add: basic_passed_def cleaned_def)
  qed
qed

lemma authorize_Ok:
  assumes "authorize login compare now r access = (Ok r1, access1)"
  shows "\<exists>ip port. ParseAddrPort (hr_RemoteAddr r) = Some (ip, port) \<and> AllowsIP access ip"
    and "basic_passed compare now r access" "login_passed login r access r1"
proof -
  obtain ip port where ip: "ParseAddrPort (hr_RemoteAddr r) = Some (ip, port)" "AllowsIP access ip"
    using assms by (auto simp: authorize_def Let_def split: option.splits if_splits)
  then show "\<exists>ip port. ParseAddrPort (hr_RemoteAddr r) = Some (ip, port) \<and> AllowsIP access ip" by blast
  obtain res a1 where c: "checkBasicAuth compare now (delHeader UserHeader r) access = (res, a1)" by fastforce
  obtain r2 where r2: "res = Ok r2" "checkLogin login r2 a1 = Ok r1"
    using assms ip c by (cases res) (auto simp: authorize_def Let_def)
  note b = checkBasicAuth_Ok [OF c [unfolded r2(1)]]
  then show "basic_passed compare now r access" by blast
  show "login_passed login r access r1"
    using b r2(2) by (cases "ac_oidc access") (auto simp: checkLogin_def login_passed_def split: option.splits)
qed

lemma Rewrite_get:
  "map_of (hr_Header (Rewrite fwd r)) k =
     (if k \<notin> set forwardingHeaders then map_of (hr_Header r) k
      else if \<not> fwd \<or> k = ''Forwarded'' then None
      else if k = ''X-Forwarded-For'' then map_option fst (SplitHostPort (hr_RemoteAddr r))
      else if k = ''X-Forwarded-Host'' then Some (hr_Host r)
      else Some (if hr_TLS r = None then ''http'' else ''https''))"
  by (cases "SplitHostPort (hr_RemoteAddr r)")
    (auto simp: Rewrite_def SetXForwarded_def forwardingHeaders_def Let_def)

text \<open>The ways a request is proxied.\<close>

lemma ServeHTTP_Proxied:
  assumes "ServeHTTP cfg compare now r (proxies, s) = (Proxied tp b out, acc, proxies1, s1)"
  obtains t name r1 acc1 where "hc_Lookup cfg (normalizeHost (hr_Host r)) = (t, StateActive, name)" "name \<noteq> []"
    "\<forall>sni. hr_TLS r = Some sni \<longrightarrow> snd (snd (hc_Lookup cfg (normalizeHost sni))) = name"
    "authorize (hc_Login cfg) compare now r (hc_Access cfg (the t)) = (Ok r1, acc1)"
    "out = Rewrite (hc_ForwardedHeaders cfg) r1" "(tp, proxies1) = proxyFor (hc_ID cfg) (the t) proxies"
    "case hc_Pick cfg (the t) of None \<Rightarrow> b = None \<and> s1 = s
       | Some pick \<Rightarrow> (\<exists>a. b = Some a \<and> pick (hr_RemoteAddr r1) s = (Some a, s1))"
proof -
  obtain t state name where l: "hc_Lookup cfg (normalizeHost (hr_Host r)) = (t, state, name)" by (metis prod_cases3)
  have st: "state = StateActive"
    using assms l by (auto simp: ServeHTTP_def Let_def split: option.splits if_splits State.splits prod.splits)
  have sni: "name \<noteq> [] \<and> (\<forall>sni. hr_TLS r = Some sni \<longrightarrow> snd (snd (hc_Lookup cfg (normalizeHost sni))) = name)"
    using assms l st by (auto simp: ServeHTTP_def Let_def split: option.splits if_splits prod.splits)
  show thesis
    using assms l st sni that
    by (auto simp: ServeHTTP_def Let_def split: option.splits if_splits prod.splits sum.splits)
qed

end
