(* ===== verification/Edge_Serve.thy ===== *)
theory Edge_Serve
  imports Edge_Routing Http_Proxy
begin

text \<open>
  Serving at the edge: \<open>go/tunnel/edge/listener.go\<close> (accepting and forwarding
  connections) and \<open>tunnel.go\<close> (a TERMINATE forward as an HTTP tunnel).  The peeked server name or Host, the outcome of dials, TLS
  handshakes and header writes, and the random numbers are parameters.
\<close>

section \<open>Connections\<close>

record conn =
  co_Remote :: string
  co_Local :: string

record net_env =
  nv_up :: "string \<Rightarrow> bool"
  nv_tls :: "string \<Rightarrow> bool"
  nv_write :: bool
  nv_now :: int
  nv_ra :: "nat \<Rightarrow> nat"
  nv_rb :: "nat \<Rightarrow> nat"

definition clientIP :: "string \<Rightarrow> Addr" where
  "clientIP addr = (case ParseAddrPort addr of None \<Rightarrow> AddrInvalid | Some (a, _) \<Rightarrow> Unmap a)"

text \<open>What becomes of a connection: closed before it is routed anywhere (with a
  TLS alert or a 404 where the protocol has one), a crash, handed to the HTTP
  server, or joined to an upstream address, with the PROXY header's source and
  TLVs where one is written.\<close>

datatype served =
    RateLimited
  | Closed
  | TLSAlert
  | NotFound404
  | Panicked
  | Terminated
  | DialFailed
  | HeaderFailed
  | Joined string "(string \<times> TLV list) option"

definition count_noRoute :: "Edge \<Rightarrow> Edge" where
  "count_noRoute e = e\<lparr>eg_counters := (eg_counters e)\<lparr>cn_noRoute := cn_noRoute (eg_counters e) + 1\<rparr>\<rparr>"

definition count_rejectedIP :: "Edge \<Rightarrow> Edge" where
  "count_rejectedIP e = e\<lparr>eg_counters := (eg_counters e)\<lparr>cn_rejectedIP := cn_rejectedIP (eg_counters e) + 1\<rparr>\<rparr>"

definition count_dialFailures :: "Edge \<Rightarrow> Edge" where
  "count_dialFailures e = e\<lparr>eg_counters := (eg_counters e)\<lparr>cn_dialFailures := cn_dialFailures (eg_counters e) + 1\<rparr>\<rparr>"

definition admitted :: "target \<Rightarrow> string \<Rightarrow> Edge \<Rightarrow> bool \<times> Edge" where
  "admitted t remote e =
     (case tg_route t of
        None \<Rightarrow> (False, count_noRoute e)
      | Some r \<Rightarrow>
          if \<not> tg_ok t then (False, count_noRoute e)
          else if \<not> AllowsIP (ro_access r) (clientIP remote) then (False, count_rejectedIP e)
          else (True, e))"

text \<open>Dial a pool of the heap.\<close>

definition dialPool :: "net_env \<Rightarrow> Addr \<Rightarrow> nat \<Rightarrow> (nat, pool) gomap \<Rightarrow> string option \<times> (nat, pool) gomap" where
  "dialPool env client a heap =
     (let p = the (map_of heap a) in
      case pool_dial (nv_up env) (nv_now env) (nv_ra env) (nv_rb env) client p of
        Some (Some i, p1) \<Rightarrow> (Some (mb_addr (mem p1 i)), AList.update a p1 heap)
      | Some (None, p1) \<Rightarrow> (None, AList.update a p1 heap)
      | None \<Rightarrow> (None, heap))"

definition joinWith :: "net_env \<Rightarrow> string \<Rightarrow> bool \<Rightarrow> string \<Rightarrow> TLV list \<Rightarrow> served" where
  "joinWith env up proxyHeader remote tlvs =
     (if proxyHeader \<and> \<not> nv_write env then HeaderFailed
      else Joined up (if proxyHeader then Some (remote, tlvs) else None))"

definition forward :: "net_env \<Rightarrow> conn \<Rightarrow> target \<Rightarrow> Edge \<Rightarrow> served \<times> Edge" where
  "forward env c t e =
     (let r = the (tg_route t) in
      if isRelay r then
        (let up = JoinHostPort (rt_IP (the (tg_relay t))) (pf_TargetPort (ro_fwd r)) in
         if nv_up env up then (joinWith env up True (co_Remote c) [], e)
         else (DialFailed, count_dialFailures e))
      else
        (case dialPool env (clientIP (co_Remote c)) (ro_pool r) (eg_heap e) of
           (Some up, h) \<Rightarrow> (joinWith env up (pf_ProxyProtocol (ro_fwd r)) (co_Remote c) [], e\<lparr>eg_heap := h\<rparr>)
         | (None, h) \<Rightarrow> (DialFailed, count_dialFailures (e\<lparr>eg_heap := h\<rparr>))))"

definition stream :: "net_env \<Rightarrow> Live \<Rightarrow> int \<Rightarrow> conn \<Rightarrow> route \<Rightarrow> Edge \<Rightarrow> served \<times> Edge" where
  "stream env live port c r e =
     (case lv_OwnerOfPort live port of
        None \<Rightarrow> (Closed, count_noRoute e)
      | Some (relay, name) \<Rightarrow>
          if \<not> AllowsIP (ro_access r) (clientIP (co_Remote c)) then (Closed, count_noRoute e)
          else let up = JoinHostPort (rt_IP relay) (pf_TargetPort (ro_fwd r)) in
               if \<not> nv_up env up then (DialFailed, count_dialFailures e)
               else (joinWith env up True (co_Remote c)
                      (SignedTLVs (ec_ForwardKey (eg_cfg e)) name (co_Remote c) (of_int (nv_now env div 10 ^ 9))), e))"

definition serveTLS :: "net_env \<Rightarrow> Live \<Rightarrow> listener \<Rightarrow> string option \<Rightarrow> conn \<Rightarrow> Edge \<Rightarrow> served \<times> Edge" where
  "serveTLS env live l hello c e =
     (case hello of
        None \<Rightarrow> (Closed, e)
      | Some serverName \<Rightarrow>
          (case ls_routes l of
             None \<Rightarrow> (Panicked, e)
           | Some rs \<Rightarrow>
               (let (t, rr) = resolve (eg_cfg e) live rs serverName (eg_rr e);
                    (ok, e1) = admitted t (co_Remote c) (e\<lparr>eg_rr := rr\<rparr>)
                in if \<not> ok then (TLSAlert, e1)
                   else if pf_Mode (ro_fwd (the (tg_route t))) = EDGE_FORWARD_MODE_TERMINATE then (Terminated, e1)
                   else forward env c t e1)))"

definition serveHTTP_port :: "net_env \<Rightarrow> Live \<Rightarrow> listener \<Rightarrow> string option \<Rightarrow> conn \<Rightarrow> Edge \<Rightarrow> served \<times> Edge" where
  "serveHTTP_port env live l host c e =
     (case host of
        None \<Rightarrow> (Closed, e)
      | Some h \<Rightarrow>
          (case ls_routes l of
             None \<Rightarrow> (Panicked, e)
           | Some rs \<Rightarrow>
               (let (t, rr) = resolve (eg_cfg e) live rs h (eg_rr e);
                    (ok, e1) = admitted t (co_Remote c) (e\<lparr>eg_rr := rr\<rparr>)
                in if \<not> ok then (NotFound404, e1) else forward env c t e1)))"

definition serveTCP :: "net_env \<Rightarrow> Live \<Rightarrow> listener \<Rightarrow> conn \<Rightarrow> Edge \<Rightarrow> served \<times> Edge" where
  "serveTCP env live l c e =
     (case ls_routes l of
        None \<Rightarrow> (Panicked, e)
      | Some rs \<Rightarrow>
          (case rs_single rs of
             None \<Rightarrow> (Closed, e)
           | Some r \<Rightarrow>
               if isRelay r \<and> pf_ListenPortEnd (ro_fwd r) \<noteq> 0 then stream env live (ls_port l) c r e
               else let (t, e1) = (if isRelay r
                          then let (relay, rr) = relayPick live False (eg_rr e) in (relayTarget r relay, e\<lparr>eg_rr := rr\<rparr>)
                          else (siteTarget r, e));
                        (ok, e2) = admitted t (co_Remote c) e1
                    in if \<not> ok then (Closed, e2) else forward env c t e2))"

definition serve :: "net_env \<Rightarrow> Live \<Rightarrow> listener \<Rightarrow> string option \<Rightarrow> conn \<Rightarrow> Edge \<Rightarrow> served \<times> Edge" where
  "serve env live l peeked c e =
     (case ls_proto l of
        EDGE_PROTOCOL_TLS \<Rightarrow> serveTLS env live l peeked c e
      | EDGE_PROTOCOL_HTTP \<Rightarrow> serveHTTP_port env live l peeked c e
      | _ \<Rightarrow> serveTCP env live l c e)"

definition accept :: "net_env \<Rightarrow> Live \<Rightarrow> listener \<Rightarrow> string option \<Rightarrow> conn \<Rightarrow> Edge \<Rightarrow> served \<times> Edge" where
  "accept env live l peeked c e =
     (let (ok, lim) = Allow (clientIP (co_Remote c)) (nv_now env) (eg_limiter e); e1 = e\<lparr>eg_limiter := lim\<rparr>; k = eg_counters e1 in
      if \<not> ok then (RateLimited, e1\<lparr>eg_counters := k\<lparr>cn_rejectedRate := cn_rejectedRate k + 1\<rparr>\<rparr>)
      else serve env live l peeked c (e1\<lparr>eg_counters := k\<lparr>cn_accepted := cn_accepted k + 1\<rparr>\<rparr>))"

section \<open>HTTP over a terminated connection\<close>

text \<open>\<open>lookupHTTP\<close>; the round robin over relays it may move does not matter to the
  answer.\<close>

definition lookupHTTP :: "edge_Config \<Rightarrow> Live \<Rightarrow> listener \<Rightarrow> 64 word \<Rightarrow> string \<Rightarrow> poolTunnel option \<times> State \<times> string" where
  "lookupHTTP cfg live l rr host =
     (let t = fst (resolve cfg live (the (ls_routes l)) host rr) in
      case tg_route t of
        None \<Rightarrow> (None, StateUnknown, [])
      | Some r \<Rightarrow>
          (case ro_tunnel r of
             None \<Rightarrow> (None, StateUnknown, [])
           | Some tun \<Rightarrow> if tg_ok t then (Some tun, StateActive, ed_Domain (ro_domain r)) else (None, StateUnknown, [])))"

definition Pick :: "net_env \<Rightarrow> poolTunnel \<Rightarrow> string \<Rightarrow> (nat, pool) gomap \<Rightarrow> string option \<times> (nat, pool) gomap" where
  "Pick env t clientAddr heap =
     (let (i, p1) = pool_pick (nv_ra env 0) (nv_rb env 0) (clientIP clientAddr) [] (the (map_of heap (pt_pool t)))
      in (map_option (\<lambda>i. mb_addr (mem p1 i)) i, AList.update (pt_pool t) p1 heap))"

definition OpenStreamTo :: "net_env \<Rightarrow> poolTunnel \<Rightarrow> string \<Rightarrow> (nat, pool) gomap \<Rightarrow> string option \<times> (nat, pool) gomap" where
  "OpenStreamTo env t backend heap =
     (case dialAddr (nv_up env) (nv_now env) (nv_ra env) (nv_rb env) backend (the (map_of heap (pt_pool t))) of
        Some (Some i, p1) \<Rightarrow>
          if pf_BackendScheme (pt_fwd t) = EDGE_BACKEND_SCHEME_HTTP \<or> nv_tls env (mb_addr (mem p1 i))
          then (Some (mb_addr (mem p1 i)), AList.update (pt_pool t) p1 heap)
          else (None, AList.update (pt_pool t)
                  (upd_mem i (member_failed (nv_now env) ''TLS'') (snd (closeConn (i, False) p1))) heap)
      | Some (None, p1) \<Rightarrow> (None, AList.update (pt_pool t) p1 heap)
      | None \<Rightarrow> (None, heap))"

definition edge_http :: "net_env \<Rightarrow> Live \<Rightarrow> listener \<Rightarrow> Edge \<Rightarrow> (poolTunnel, (nat, pool) gomap) http_Config" where
  "edge_http env live l e =
     \<lparr>hc_ForwardedHeaders = True, hc_Login = None, hc_Lookup = lookupHTTP (eg_cfg e) live l (eg_rr e), hc_ID = pt_id,
      hc_Access = pt_access, hc_Pick = (\<lambda>t. Some (Pick env t))\<rparr>"

text \<open>A request on a new backend connection of a terminated connection to \<open>port\<close>:
  the response, and the backend address dialed.\<close>

definition edgeRequest ::
    "net_env \<Rightarrow> Live \<Rightarrow> int \<Rightarrow> http_request \<Rightarrow> Edge \<Rightarrow> poolTunnel http_result \<times> string option \<times> Edge" where
  "edgeRequest env live port r e =
     (let l = the (map_of (eg_listeners e) port);
          proxies = (case ls_http l of None \<Rightarrow> [] | Some ps \<Rightarrow> ps);
          (res, _, proxies1, heap) = ServeHTTP (edge_http env live l e) (\<lambda>_ _. False) (nv_now env) r (proxies, eg_heap e);
          e1 = e\<lparr>eg_heap := heap, eg_listeners := AList.update port (l\<lparr>ls_http := Some proxies1\<rparr>) (eg_listeners e)\<rparr>
      in case res of
           Proxied tp (Some backend) _ \<Rightarrow>
             (let (up, heap1) = OpenStreamTo env tp backend heap in (res, up, e1\<lparr>eg_heap := heap1\<rparr>))
         | _ \<Rightarrow> (res, None, e1))"

section \<open>Where connections go\<close>

definition backend_of :: "pool \<Rightarrow> string \<Rightarrow> bool" where
  "backend_of p addr \<longleftrightarrow> (\<exists>i\<in>set (pl_members p). mb_addr (mem p i) = addr \<and> mb_healthy (mem p i) \<and> \<not> mb_disabled (mem p i))"

lemma pool_dial_spec:
  obtains r q where "pool_dial up now ra rb client p = Some (r, q)"
    "\<forall>i. r = Some i \<longrightarrow> backend_of p (mb_addr (mem q i)) \<and> up (mb_addr (mem q i))"
    "r = None \<longrightarrow> \<not> (\<exists>addr. backend_of p addr \<and> up addr)"
proof -
  obtain r q where d: "pool_dial up now ra rb client p = Some (r, q)"
    using dialFrom_total [of up now ra rb client None p] unfolding pool_dial_def by fastforce
  then have l: "dialLoop (length (pl_members p) + 2) up now ra rb client None [] p = Some (r, q)"
    by (simp add: pool_dial_def dialFrom_def)
  have reach: "(\<exists>i. reachable_member up p None [] i \<and> addr = mb_addr (mem p i)) \<longleftrightarrow> backend_of p addr \<and> up addr" for addr
    by (auto simp: reachable_member_def candidates_def backend_of_def)
  have "mb_addr (mem q i) = mb_addr (mem p i)" for i using dialLoop_same [OF l] by (simp add: same_members_def)
  then show thesis using that [OF d] dialLoop_result [OF l] reach by metis
qed

lemma dialPool_spec:
  assumes "dialPool env client a heap = (up, h)"
  shows "\<forall>x. up = Some x \<longrightarrow> backend_of (the (map_of heap a)) x \<and> nv_up env x"
    and "up = None \<longrightarrow> \<not> (\<exists>x. backend_of (the (map_of heap a)) x \<and> nv_up env x)"
proof -
  let ?p = "the (map_of heap a)"
  obtain r q where d: "pool_dial (nv_up env) (nv_now env) (nv_ra env) (nv_rb env) client ?p = Some (r, q)"
    "\<forall>i. r = Some i \<longrightarrow> backend_of ?p (mb_addr (mem q i)) \<and> nv_up env (mb_addr (mem q i))"
    "r = None \<longrightarrow> \<not> (\<exists>addr. backend_of ?p addr \<and> nv_up env addr)"
    by (rule pool_dial_spec)
  then show "\<forall>x. up = Some x \<longrightarrow> backend_of ?p x \<and> nv_up env x" "up = None \<longrightarrow> \<not> (\<exists>x. backend_of ?p x \<and> nv_up env x)"
    using assms by (cases r; auto simp: dialPool_def Let_def)+
qed

lemma admitted_True:
  "admitted t remote e = (True, e1) \<longleftrightarrow>
     (\<exists>r. tg_route t = Some r \<and> tg_ok t \<and> AllowsIP (ro_access r) (clientIP remote)) \<and> e1 = e"
  by (auto simp: admitted_def split: option.splits)

lemma resolve_in_set:
  assumes "resolve cfg live rs host rr = (t, rr')" "tg_route t = Some r"
  shows "r \<in> ran (map_of (rs_byName rs)) \<union> ran (map_of (rs_wildcards rs)) \<union> set_option (rs_base rs)"
  using assms
  by (auto simp: resolve_def Let_def siteTarget_def relayTarget_def noTarget_def map_prod_def intro: ranI
      split: option.splits if_splits prod.splits)

text \<open>A name that is an exact site name decides the route alone.\<close>

lemma resolve_exact:
  "map_of (rs_byName rs) (ToLower (TrimSuffix host ''.'')) = Some r \<Longrightarrow> resolve cfg live rs host rr = (siteTarget r, rr)"
  by (simp add: resolve_def Let_def)

definition route_on :: "routeSet \<Rightarrow> route \<Rightarrow> bool" where
  "route_on rs r \<longleftrightarrow> r \<in> ran (map_of (rs_byName rs)) \<union> ran (map_of (rs_wildcards rs)) \<union> set_option (rs_base rs) \<union> set_option (rs_single rs)"

text \<open>Whatever the protocol, a connection that is served belongs to a route of
  its listener whose domain admits the client's address.\<close>

definition goes_on :: "served \<Rightarrow> bool" where
  "goes_on s \<longleftrightarrow> s = Terminated \<or> s = DialFailed \<or> s = HeaderFailed \<or> (\<exists>up h. s = Joined up h)"

lemma not_goes_on [simp]: "\<not> goes_on Closed" "\<not> goes_on TLSAlert" "\<not> goes_on NotFound404" "\<not> goes_on Panicked" "\<not> goes_on RateLimited"
  by (simp_all add: goes_on_def)

lemma resolved_admitted:
  assumes "resolve cfg live rs h rr = (t, rr')" "admitted t remote e = (True, e1)"
  shows "\<exists>r. route_on rs r \<and> AllowsIP (ro_access r) (clientIP remote) \<and> tg_route t = Some r"
  using assms(2) resolve_in_set [OF assms(1)] by (auto simp: admitted_True route_on_def)

lemma serveTLS_admitted:
  assumes "serveTLS env live l hello c e = (s, e')" "goes_on s"
  shows "\<exists>rs r. ls_routes l = Some rs \<and> route_on rs r \<and> AllowsIP (ro_access r) (clientIP (co_Remote c))"
proof -
  obtain h rs where h: "hello = Some h" "ls_routes l = Some rs"
    using assms by (auto simp: serveTLS_def split: option.splits)
  obtain t rr where t: "resolve (eg_cfg e) live rs h (eg_rr e) = (t, rr)" by fastforce
  obtain ok e1 where a: "admitted t (co_Remote c) (e\<lparr>eg_rr := rr\<rparr>) = (ok, e1)" by fastforce
  have "ok" using assms h t a by (cases ok) (auto simp: serveTLS_def)
  then show ?thesis using resolved_admitted [OF t, of "co_Remote c" "e\<lparr>eg_rr := rr\<rparr>" e1] a h(2) by auto
qed

lemma serveHTTP_admitted:
  assumes "serveHTTP_port env live l host c e = (s, e')" "goes_on s"
  shows "\<exists>rs r. ls_routes l = Some rs \<and> route_on rs r \<and> AllowsIP (ro_access r) (clientIP (co_Remote c))"
proof -
  obtain h rs where h: "host = Some h" "ls_routes l = Some rs"
    using assms by (auto simp: serveHTTP_port_def split: option.splits)
  obtain t rr where t: "resolve (eg_cfg e) live rs h (eg_rr e) = (t, rr)" by fastforce
  obtain ok e1 where a: "admitted t (co_Remote c) (e\<lparr>eg_rr := rr\<rparr>) = (ok, e1)" by fastforce
  have "ok" using assms h t a by (cases ok) (auto simp: serveHTTP_port_def)
  then show ?thesis using resolved_admitted [OF t, of "co_Remote c" "e\<lparr>eg_rr := rr\<rparr>" e1] a h(2) by auto
qed

lemma stream_admitted:
  "stream env live port c r e = (s, e') \<Longrightarrow> goes_on s \<Longrightarrow> AllowsIP (ro_access r) (clientIP (co_Remote c))"
  by (auto simp: stream_def Let_def split: option.splits if_splits prod.splits)

lemma serveTCP_admitted:
  assumes "serveTCP env live l c e = (s, e')" "goes_on s"
  shows "\<exists>rs r. ls_routes l = Some rs \<and> route_on rs r \<and> AllowsIP (ro_access r) (clientIP (co_Remote c))"
proof -
  obtain rs r where h: "ls_routes l = Some rs" "rs_single rs = Some r"
    using assms by (auto simp: serveTCP_def split: option.splits)
  have on: "route_on rs r" using h(2) by (simp add: route_on_def)
  show ?thesis
  proof (cases "isRelay r \<and> pf_ListenPortEnd (ro_fwd r) \<noteq> 0")
    case True
    then have "stream env live (ls_port l) c r e = (s, e')" using assms(1) h by (simp add: serveTCP_def)
    then show ?thesis using stream_admitted assms(2) h(1) on by blast
  next
    case False
    define te where "te = (if isRelay r then let (relay, rr) = relayPick live False (eg_rr e) in (relayTarget r relay, e\<lparr>eg_rr := rr\<rparr>)
      else (siteTarget r, e))"
    obtain t e1 where te1: "te = (t, e1)" by fastforce
    have route: "tg_route t = Some r"
      using te1 by (auto simp: te_def siteTarget_def relayTarget_def split: if_splits prod.splits)
    obtain ok e2 where a: "admitted t (co_Remote c) e1 = (ok, e2)" by fastforce
    have "serveTCP env live l c e = (if \<not> ok then (Closed, e2) else forward env c t e2)"
      unfolding serveTCP_def h option.case if_not_P [OF False] te_def [symmetric] unfolding te1 Let_def prod.case a by simp
    then have "ok" using assms by (cases ok) auto
    then show ?thesis using a route h(1) on by (auto simp: admitted_True)
  qed
qed

lemma serve_admitted:
  assumes "serve env live l peeked c e = (s, e')" "goes_on s"
  shows "\<exists>rs r. ls_routes l = Some rs \<and> route_on rs r \<and> AllowsIP (ro_access r) (clientIP (co_Remote c))"
  using assms serveTLS_admitted serveHTTP_admitted serveTCP_admitted
  by (cases "ls_proto l") (fastforce simp: serve_def)+

end
