(* ===== verification/Cluster_Conf.thy ===== *)
theory Cluster_Conf
  imports Registry_Rules Auth_Access
begin

text \<open>
  \<open>go/tunnel/config/cluster.go\<close>: the settings every process of the cluster
  shares, their defaults and checks.  Reading the YAML file is left out; a
  loaded file is the record \<open>ClusterFile\<close>.
\<close>

section \<open>The file\<close>

record ClusterFile =
  cf_BaseDomain :: string
  cf_ControlSNI :: string
  cf_AuthHost :: string
  cf_ReservedNames :: "string list"
  cf_TCPPortRange :: string
  cf_Public_HTTPS :: int
  cf_Public_HTTP :: int
  cf_Public_Gateway :: int
  cf_Relay_TLS :: int
  cf_Relay_HTTP :: int
  cf_Relay_Stream :: int
  cf_Relay_Gateway :: int
  cf_Relay_Ops :: int
  cf_TrustedProxies :: "string list"
  cf_SecretDir :: string
  cf_Edge_Ops :: int
  cf_AgentCA_Cert :: string
  cf_AgentCA_Key :: string

datatype cluster_error =
    BadBaseDomain
  | BadReservedName string
  | BadPortRange
  | BadTrustedProxies
  | BadPort string
  | BadPublicHTTP
  | BadPublicGateway

definition defaultTCPPortRange :: string where "defaultTCPPortRange = ''22000-22999''"
definition DefaultClusterSecretDir :: string where "DefaultClusterSecretDir = ''/etc/l8tunnel/cluster-secret''"
definition DefaultRelayTLSPort :: int where "DefaultRelayTLSPort = 8443"
definition DefaultRelayHTTPPort :: int where "DefaultRelayHTTPPort = 8080"
definition DefaultRelayStreamPort :: int where "DefaultRelayStreamPort = 8444"
definition DefaultRelayOpsPort :: int where "DefaultRelayOpsPort = 9100"
definition DefaultEdgeOpsPort :: int where "DefaultEdgeOpsPort = 9180"

definition setDefault :: "int \<Rightarrow> int \<Rightarrow> int" where
  "setDefault p v = (if p = 0 then v else p)"

definition valid_port :: "int \<Rightarrow> bool" where
  "valid_port p \<longleftrightarrow> 1 \<le> p \<and> p \<le> 65535"

text \<open>The names and defaults, before the checks that depend on them.\<close>

definition with_names :: "ClusterFile \<Rightarrow> ClusterFile" where
  "with_names f =
     (let base = ToLower (TrimSuffix (cf_BaseDomain f) ''.'') in
      f\<lparr>cf_BaseDomain := base,
        cf_ControlSNI := ToLower (if cf_ControlSNI f = [] then ''connect.'' @ base else cf_ControlSNI f),
        cf_AuthHost := ToLower (cf_AuthHost f)\<rparr>)"

definition with_ports :: "ClusterFile \<Rightarrow> ClusterFile" where
  "with_ports f = f\<lparr>
     cf_Public_HTTPS := setDefault (cf_Public_HTTPS f) 443,
     cf_Public_HTTP := setDefault (cf_Public_HTTP f) 80,
     cf_Relay_TLS := setDefault (cf_Relay_TLS f) DefaultRelayTLSPort,
     cf_Relay_HTTP := setDefault (cf_Relay_HTTP f) DefaultRelayHTTPPort,
     cf_Relay_Stream := setDefault (cf_Relay_Stream f) DefaultRelayStreamPort,
     cf_Relay_Gateway := setDefault (cf_Relay_Gateway f) 2222,
     cf_Relay_Ops := setDefault (cf_Relay_Ops f) DefaultRelayOpsPort,
     cf_Edge_Ops := setDefault (cf_Edge_Ops f) DefaultEdgeOpsPort\<rparr>"

text \<open>The ports checked in a loop over a map: which of several bad ones is
  reported is not determined there; the model reports the first of the list.\<close>

definition checked_ports :: "ClusterFile \<Rightarrow> (string \<times> int) list" where
  "checked_ports f = [(''public.https'', cf_Public_HTTPS f), (''relay.tls'', cf_Relay_TLS f), (''relay.http'', cf_Relay_HTTP f),
     (''relay.stream'', cf_Relay_Stream f), (''relay.gateway'', cf_Relay_Gateway f), (''relay.ops'', cf_Relay_Ops f)]"

definition normalize :: "ClusterFile \<Rightarrow> (cluster_error, ClusterFile) result" where
  "normalize f0 =
     (let f = with_names f0 in
      if NormalizeDomain (cf_BaseDomain f) = None then Err BadBaseDomain
      else case find (\<lambda>n. \<not> ValidName n) (cf_ReservedNames f) of
        Some n \<Rightarrow> Err (BadReservedName n)
      | None \<Rightarrow>
          (let f1 = f\<lparr>cf_TCPPortRange := (if cf_TCPPortRange f = [] then defaultTCPPortRange else cf_TCPPortRange f)\<rparr> in
           if ParsePortRange (cf_TCPPortRange f1) = None then Err BadPortRange
           else let f2 = f1\<lparr>cf_SecretDir := (if cf_SecretDir f1 = [] then DefaultClusterSecretDir else cf_SecretDir f1)\<rparr> in
             if ParsePrefixes (cf_TrustedProxies f2) = None then Err BadTrustedProxies
             else let f3 = with_ports f2 in
               (case find (\<lambda>(_, p). \<not> valid_port p) (checked_ports f3) of
                  Some (name, _) \<Rightarrow> Err (BadPort name)
                | None \<Rightarrow>
                    if cf_Public_HTTP f3 \<noteq> - 1 \<and> \<not> valid_port (cf_Public_HTTP f3) then Err BadPublicHTTP
                    else if cf_Public_Gateway f3 < 0 \<or> cf_Public_Gateway f3 > 65535 then Err BadPublicGateway
                    else Ok f3)))"

definition Rules_of :: "ClusterFile \<Rightarrow> Rules" where
  "Rules_of f =
     (let (lo, hi) = (case ParsePortRange (cf_TCPPortRange f) of Some r \<Rightarrow> r | None \<Rightarrow> (0, 0)) in
      \<lparr>BaseDomain = cf_BaseDomain f, ControlSNI = cf_ControlSNI f, AuthHost = cf_AuthHost f,
       ReservedNames = cf_ReservedNames f, PortMin = lo, PortMax = hi\<rparr>)"

definition TrustedPrefixes :: "ClusterFile \<Rightarrow> Prefix list" where
  "TrustedPrefixes f = (case ParsePrefixes (cf_TrustedProxies f) of Some ps \<Rightarrow> ps | None \<Rightarrow> [])"

section \<open>What a loaded configuration satisfies\<close>

definition cluster_ok :: "ClusterFile \<Rightarrow> bool" where
  "cluster_ok f \<longleftrightarrow>
     NormalizeDomain (cf_BaseDomain f) \<noteq> None \<and> (\<forall>n\<in>set (cf_ReservedNames f). ValidName n) \<and>
     (\<exists>lo hi. ParsePortRange (cf_TCPPortRange f) = Some (lo, hi)) \<and> ParsePrefixes (cf_TrustedProxies f) \<noteq> None \<and>
     (\<forall>p\<in>set (checked_ports f). valid_port (snd p)) \<and>
     (cf_Public_HTTP f = - 1 \<or> valid_port (cf_Public_HTTP f)) \<and> 0 \<le> cf_Public_Gateway f \<and> cf_Public_Gateway f \<le> 65535 \<and>
     cf_ControlSNI f \<noteq> [] \<and> ToLower (cf_BaseDomain f) = cf_BaseDomain f"

lemma normalize_ok:
  assumes "normalize f0 = Ok f"
  shows "cluster_ok f"
proof -
  define g where "g = with_names f0"
  define f1 where "f1 = g\<lparr>cf_TCPPortRange := (if cf_TCPPortRange g = [] then defaultTCPPortRange else cf_TCPPortRange g)\<rparr>"
  define f2 where "f2 = f1\<lparr>cf_SecretDir := (if cf_SecretDir f1 = [] then DefaultClusterSecretDir else cf_SecretDir f1)\<rparr>"
  define f3 where "f3 = with_ports f2"
  have n: "NormalizeDomain (cf_BaseDomain g) \<noteq> None" "find (\<lambda>n. \<not> ValidName n) (cf_ReservedNames g) = None"
    and r: "ParsePortRange (cf_TCPPortRange f1) \<noteq> None" "ParsePrefixes (cf_TrustedProxies f2) \<noteq> None"
    and p: "find (\<lambda>(_, p). \<not> valid_port p) (checked_ports f3) = None"
      "cf_Public_HTTP f3 = - 1 \<or> valid_port (cf_Public_HTTP f3)" "\<not> (cf_Public_Gateway f3 < 0 \<or> cf_Public_Gateway f3 > 65535)" "f = f3"
    using assms unfolding normalize_def Let_def g_def [symmetric] f1_def [symmetric] f2_def [symmetric] f3_def [symmetric]
    by (auto split: if_splits option.splits)
  have g: "cf_ControlSNI g \<noteq> []" "ToLower (cf_BaseDomain g) = cf_BaseDomain g" by (simp_all add: g_def with_names_def Let_def)
  have same: "cf_BaseDomain f3 = cf_BaseDomain g" "cf_ReservedNames f3 = cf_ReservedNames g" "cf_ControlSNI f3 = cf_ControlSNI g"
    "cf_TCPPortRange f3 = cf_TCPPortRange f1" "cf_TrustedProxies f3 = cf_TrustedProxies f2"
    by (simp_all add: f3_def with_ports_def f2_def f1_def)
  show ?thesis
    unfolding cluster_ok_def p(4) same
    using n r p g by (auto simp: find_None_iff_all)
qed

lemma Rules_of_ports:
  assumes "cluster_ok f"
  shows "1 \<le> PortMin (Rules_of f) \<and> PortMin (Rules_of f) \<le> PortMax (Rules_of f) \<and> PortMax (Rules_of f) \<le> 65535"
  using assms ParsePortRange_bounds by (fastforce simp: cluster_ok_def Rules_of_def)

end
