(* ===== verification/Edge_Domains.thy ===== *)
theory Edge_Domains
  imports Edge_Conf Cluster_Conf
begin

text \<open>
  \<open>go/tun/edge/domains\<close>: what the management plane does with an edge domain
  before it stores it (\<open>EdgeDomainServiceCallback.go\<close>), the built-in tunnel
  base row (\<open>tunnelbase.go\<close>), and the certificate summary of
  \<open>go/tunnel/edgeconf/certs.go\<close>.  The fetched files, their X.509 contents
  (\<open>leaf\<close>), the new IDs and the clock are parameters.
\<close>

section \<open>Certificates\<close>

record leaf =
  lf_CommonName :: string
  lf_DNSNames :: "string list"
  lf_Issuer :: string
  lf_NotBefore :: int
  lf_NotAfter :: int
  lf_Fingerprint :: string

record CertSummary =
  cs_Subject :: string
  cs_SANs :: "string list"
  cs_Issuer :: string
  cs_NotAfter :: int
  cs_Fingerprint :: string
  cs_Status :: EdgeCertStatus

definition ExpiringWithin :: int where
  "ExpiringWithin = 30 * 24 * 3600"

text \<open>\<open>x509.VerifyHostname\<close> for a host name that is not an address: a name of the
  certificate equals it, or differs from it only by a first label \<open>*\<close>.\<close>

definition matchHostnames :: "string \<Rightarrow> string \<Rightarrow> bool" where
  "matchHostnames pattern host =
     (let ps = Split (ToLower pattern) CHR ''.''; hs = Split (ToLower (TrimSuffix host ''.'')) CHR ''.'' in
      pattern \<noteq> [] \<and> host \<noteq> [] \<and> length ps = length hs \<and>
      list_all (\<lambda>(i, p, h). (i = 0 \<and> p = ''*'') \<or> p = h) (enumerate 0 (zip ps hs)))"

definition VerifyHostname :: "leaf \<Rightarrow> string \<Rightarrow> bool" where
  "VerifyHostname lf name = list_ex (\<lambda>san. matchHostnames san name) (lf_DNSNames lf)"

definition EqualFold :: "string \<Rightarrow> string \<Rightarrow> bool" where
  "EqualFold a b \<longleftrightarrow> ToLower a = ToLower b"

definition covers :: "leaf \<Rightarrow> string \<Rightarrow> bool" where
  "covers lf name =
     (if HasPrefix name ''*.'' then list_ex (\<lambda>san. EqualFold san name) (lf_DNSNames lf)
      else VerifyHostname lf name)"

text \<open>\<open>SummarizeCert\<close> on a parsed pair (\<^const>\<open>None\<close>: the files are not a valid
  certificate and key); times are seconds.\<close>

definition SummarizeCert :: "leaf option \<Rightarrow> string list \<Rightarrow> int \<Rightarrow> CertSummary option" where
  "SummarizeCert pair names now =
     (case pair of
        None \<Rightarrow> None
      | Some lf \<Rightarrow>
          (let s = \<lparr>cs_Subject = lf_CommonName lf, cs_SANs = lf_DNSNames lf, cs_Issuer = lf_Issuer lf,
                    cs_NotAfter = lf_NotAfter lf, cs_Fingerprint = lf_Fingerprint lf, cs_Status = EDGE_CERT_STATUS_VALID\<rparr>
           in Some (if list_ex (\<lambda>n. \<not> covers lf n) names then s\<lparr>cs_Status := EDGE_CERT_STATUS_MISMATCH\<rparr>
                    else if now > lf_NotAfter lf then s\<lparr>cs_Status := EDGE_CERT_STATUS_EXPIRED\<rparr>
                    else if now < lf_NotBefore lf then s\<lparr>cs_Status := EDGE_CERT_STATUS_MISMATCH\<rparr>
                    else if lf_NotAfter lf - now < ExpiringWithin then s\<lparr>cs_Status := EDGE_CERT_STATUS_EXPIRING\<rparr>
                    else s)))"

definition setSummary :: "EdgeDomain \<Rightarrow> CertSummary option \<Rightarrow> EdgeDomain" where
  "setSummary d s0 =
     (case s0 of
        None \<Rightarrow> d\<lparr>ed_CertSubject := [], ed_CertSans := [], ed_CertIssuer := [], ed_CertNotAfter := 0, ed_CertFingerprint := [],
                  ed_CertStatus := EDGE_CERT_STATUS_MISSING\<rparr>
      | Some s \<Rightarrow> d\<lparr>ed_CertSubject := cs_Subject s, ed_CertSans := cs_SANs s, ed_CertIssuer := cs_Issuer s,
                    ed_CertNotAfter := cs_NotAfter s, ed_CertFingerprint := cs_Fingerprint s, ed_CertStatus := cs_Status s\<rparr>)"

definition copySummary :: "EdgeDomain \<Rightarrow> EdgeDomain \<Rightarrow> EdgeDomain" where
  "copySummary d from' =
     d\<lparr>ed_CertSubject := ed_CertSubject from', ed_CertSans := ed_CertSans from', ed_CertIssuer := ed_CertIssuer from',
       ed_CertNotAfter := ed_CertNotAfter from', ed_CertFingerprint := ed_CertFingerprint from', ed_CertStatus := ed_CertStatus from'\<rparr>"

datatype domain_error =
    NoSuchDomain
  | KindChanges
  | CoversTunnelNames string
  | OneFileOnly
  | FetchFailed
  | BadPair
  | BadCertificate
  | Invalid EdgeError

text \<open>\<open>fetch\<close> reads an uploaded file, \<open>parse\<close> is \<open>tls.X509KeyPair\<close> with
  \<open>x509.ParseCertificate\<close>.\<close>

definition checkCertificate ::
    "(string \<Rightarrow> string option) \<Rightarrow> (string \<Rightarrow> string \<Rightarrow> leaf option) \<Rightarrow> int \<Rightarrow> EdgeDomain \<Rightarrow> EdgeDomain option \<Rightarrow>
     (domain_error, EdgeDomain) result" where
  "checkCertificate fetch parse now d existing =
     (let unchanged = (case existing of None \<Rightarrow> False
        | Some ex \<Rightarrow> ed_CertStoragePath d = ed_CertStoragePath ex \<and> ed_KeyStoragePath d = ed_KeyStoragePath ex \<and>
                     ed_CertFingerprint ex \<noteq> [])
      in if ed_CertStoragePath d = [] \<and> ed_KeyStoragePath d = [] then Ok (setSummary d None)
         else if ed_CertStoragePath d = [] \<or> ed_KeyStoragePath d = [] then Err OneFileOnly
         else if unchanged then Ok (copySummary d (the existing))
         else case (fetch (ed_CertStoragePath d), fetch (ed_KeyStoragePath d)) of
                (Some certPEM, Some keyPEM) \<Rightarrow>
                  (case SummarizeCert (parse certPEM keyPEM) (Names_of d) now of
                     None \<Rightarrow> Err BadPair
                   | Some s \<Rightarrow>
                       if cs_Status s = EDGE_CERT_STATUS_MISMATCH \<or> cs_Status s = EDGE_CERT_STATUS_EXPIRED
                       then Err BadCertificate else Ok (setSummary d (Some s)))
              | _ \<Rightarrow> Err FetchFailed)"

section \<open>Port forwards\<close>

definition targetKindFromTargets :: "EdgePortForward \<Rightarrow> EdgePortForward" where
  "targetKindFromTargets f =
     (if pf_TargetKind f \<in> {EDGE_TARGET_KIND_UNSPECIFIED, EDGE_TARGET_KIND_NODE_LOCAL, EDGE_TARGET_KIND_TARGETS}
      then f\<lparr>pf_TargetKind := (if pf_Targets f \<noteq> [] then EDGE_TARGET_KIND_TARGETS else EDGE_TARGET_KIND_NODE_LOCAL)\<rparr>
      else f)"

text \<open>\<open>ids\<close> are the generated IDs, one for each forward.\<close>

definition defaultForward :: "string \<Rightarrow> EdgePortForward \<Rightarrow> EdgePortForward" where
  "defaultForward newID f0 =
     (let f = targetKindFromTargets f0 in
      if pf_ForwardId f \<noteq> [] then f
      else f\<lparr>pf_ForwardId := newID, pf_Enabled := True,
             pf_Mode := (if pf_Mode f = EDGE_FORWARD_MODE_UNSPECIFIED then EDGE_FORWARD_MODE_PASSTHROUGH else pf_Mode f)\<rparr>)"

definition defaultNewForwards :: "(nat \<Rightarrow> string) \<Rightarrow> EdgeDomain \<Rightarrow> EdgeDomain" where
  "defaultNewForwards ids d =
     d\<lparr>ed_PortForwards := map (\<lambda>(i, f). defaultForward (ids i) f) (enumerate 0 (ed_PortForwards d))\<rparr>"

section \<open>The tunnel base\<close>

definition relayForward :: "string \<Rightarrow> int \<Rightarrow> int \<Rightarrow> EdgeProtocol \<Rightarrow> int \<Rightarrow> EdgePortForward" where
  "relayForward ident port end' proto target =
     \<lparr>pf_ForwardId = ident, pf_ListenPort = int32 port, pf_ListenPortEnd = int32 end', pf_Protocol = proto,
      pf_Mode = EDGE_FORWARD_MODE_RELAY, pf_TargetKind = EDGE_TARGET_KIND_RELAYS, pf_Targets = [], pf_TargetDns = [],
      pf_TargetPort = int32 target, pf_BackendScheme = EDGE_BACKEND_SCHEME_UNSPECIFIED, pf_SkipVerify = False,
      pf_ProxyProtocol = False, pf_Lb = EDGE_LB_ALGORITHM_ROUND_ROBIN, pf_HealthType = EDGE_HEALTH_TYPE_TCP,
      pf_HealthPath = [], pf_HealthInterval = 0, pf_Enabled = True, pf_Note = []\<rparr>"

definition TunnelBaseForwards :: "ClusterFile \<Rightarrow> EdgePortForward list" where
  "TunnelBaseForwards c =
     (let (lo, hi) = (case ParsePortRange (cf_TCPPortRange c) of Some r \<Rightarrow> r | None \<Rightarrow> (0, 0)) in
      [relayForward ''https'' (cf_Public_HTTPS c) 0 EDGE_PROTOCOL_TLS (cf_Relay_TLS c)] @
      (if cf_Public_HTTP c > 0 then [relayForward ''http'' (cf_Public_HTTP c) 0 EDGE_PROTOCOL_HTTP (cf_Relay_HTTP c)] else []) @
      [relayForward ''tcp-range'' lo (if lo = hi then 0 else hi) EDGE_PROTOCOL_TCP (cf_Relay_Stream c)] @
      (if cf_Public_Gateway c > 0 then [relayForward ''ssh-gateway'' (cf_Public_Gateway c) 0 EDGE_PROTOCOL_TCP (cf_Relay_Gateway c)]
       else []))"

text \<open>What \<open>EnsureTunnelBase\<close> writes: nothing, the stored row with its forwards
  brought in line (\<open>PUT\<close>), or a new row (\<open>POST\<close>).\<close>

datatype ensured =
    Unchanged
  | Put EdgeDomain
  | Post EdgeDomain

definition emptyDomain :: EdgeDomain where
  "emptyDomain = \<lparr>ed_DomainId = [], ed_Domain = [], ed_Aliases = [], ed_Kind = EDGE_DOMAIN_KIND_UNSPECIFIED, ed_Enabled = False,
     ed_AllowIps = [], ed_DenyIps = [], ed_CertStoragePath = [], ed_CertFileName = [], ed_CertFileSize = 0,
     ed_KeyStoragePath = [], ed_KeyFileName = [], ed_KeyFileSize = 0, ed_CertSubject = [], ed_CertSans = [],
     ed_CertIssuer = [], ed_CertNotAfter = 0, ed_CertFingerprint = [], ed_CertStatus = EDGE_CERT_STATUS_UNSPECIFIED,
     ed_PortForwards = [], ed_ConfigVersion = 0, ed_Note = []\<rparr>"

definition EnsureTunnelBase :: "ClusterFile \<Rightarrow> EdgeDomain list \<Rightarrow> ensured" where
  "EnsureTunnelBase c all =
     (let want = TunnelBaseForwards c in
      case find (\<lambda>d. ed_Kind d = EDGE_DOMAIN_KIND_TUNNEL_BASE) all of
        Some d \<Rightarrow> if ed_PortForwards d = want then Unchanged else Put (d\<lparr>ed_PortForwards := want\<rparr>)
      | None \<Rightarrow> Post (emptyDomain\<lparr>ed_Domain := cf_BaseDomain c, ed_Aliases := [''*.'' @ cf_BaseDomain c],
                  ed_Kind := EDGE_DOMAIN_KIND_TUNNEL_BASE, ed_Enabled := True, ed_CertStatus := EDGE_CERT_STATUS_MISSING,
                  ed_PortForwards := want, ed_Note := ''Built in: the relays' ports. Upload the tunnel certificate here.''\<rparr>))"

definition bootstrapBase :: "ClusterFile \<Rightarrow> EdgeDomain" where
  "bootstrapBase c = emptyDomain\<lparr>ed_DomainId := ''bootstrap'', ed_Domain := cf_BaseDomain c, ed_Aliases := [''*.'' @ cf_BaseDomain c],
     ed_Kind := EDGE_DOMAIN_KIND_TUNNEL_BASE, ed_Enabled := True, ed_PortForwards := TunnelBaseForwards c\<rparr>"

definition protectTunnelBase :: "ClusterFile \<Rightarrow> EdgeDomain \<Rightarrow> EdgeDomain option \<Rightarrow> (domain_error, EdgeDomain) result" where
  "protectTunnelBase c d existing =
     (let isBase = (ed_Kind d = EDGE_DOMAIN_KIND_TUNNEL_BASE);
          wasBase = (case existing of None \<Rightarrow> False | Some ex \<Rightarrow> ed_Kind ex = EDGE_DOMAIN_KIND_TUNNEL_BASE)
      in if existing \<noteq> None \<and> wasBase \<noteq> isBase then Err KindChanges
         else if \<not> isBase then Ok d
         else Ok (d\<lparr>ed_Domain := cf_BaseDomain c, ed_Aliases := [''*.'' @ cf_BaseDomain c], ed_PortForwards := TunnelBaseForwards c\<rparr>))"

section \<open>Storing a domain\<close>

datatype Action =
    POST
  | PUT
  | PATCH
  | DELETE

text \<open>\<open>proto.Merge\<close>: a set scalar of the patch wins, a scalar at its zero value
  leaves the stored one; then the repeated fields the patch sets are replaced
  (an empty list in the patch reads as not set).  \<open>cert_sans\<close> is the repeated
  field that stays merged.\<close>

definition mstr :: "string \<Rightarrow> string \<Rightarrow> string" where
  "mstr old new = (if new = [] then old else new)"

definition mint :: "int \<Rightarrow> int \<Rightarrow> int" where
  "mint old new = (if new = 0 then old else new)"

definition mlist :: "'a list \<Rightarrow> 'a list \<Rightarrow> 'a list" where
  "mlist old new = (if new = [] then old else new)"

definition mergePatch :: "EdgeDomain \<Rightarrow> EdgeDomain \<Rightarrow> EdgeDomain" where
  "mergePatch ex patch =
     \<lparr>ed_DomainId = mstr (ed_DomainId ex) (ed_DomainId patch), ed_Domain = mstr (ed_Domain ex) (ed_Domain patch),
      ed_Aliases = mlist (ed_Aliases ex) (ed_Aliases patch),
      ed_Kind = (if ed_Kind patch = EDGE_DOMAIN_KIND_UNSPECIFIED then ed_Kind ex else ed_Kind patch),
      ed_Enabled = (ed_Enabled ex \<or> ed_Enabled patch),
      ed_AllowIps = mlist (ed_AllowIps ex) (ed_AllowIps patch), ed_DenyIps = mlist (ed_DenyIps ex) (ed_DenyIps patch),
      ed_CertStoragePath = mstr (ed_CertStoragePath ex) (ed_CertStoragePath patch),
      ed_CertFileName = mstr (ed_CertFileName ex) (ed_CertFileName patch), ed_CertFileSize = mint (ed_CertFileSize ex) (ed_CertFileSize patch),
      ed_KeyStoragePath = mstr (ed_KeyStoragePath ex) (ed_KeyStoragePath patch),
      ed_KeyFileName = mstr (ed_KeyFileName ex) (ed_KeyFileName patch), ed_KeyFileSize = mint (ed_KeyFileSize ex) (ed_KeyFileSize patch),
      ed_CertSubject = mstr (ed_CertSubject ex) (ed_CertSubject patch), ed_CertSans = ed_CertSans ex @ ed_CertSans patch,
      ed_CertIssuer = mstr (ed_CertIssuer ex) (ed_CertIssuer patch), ed_CertNotAfter = mint (ed_CertNotAfter ex) (ed_CertNotAfter patch),
      ed_CertFingerprint = mstr (ed_CertFingerprint ex) (ed_CertFingerprint patch),
      ed_CertStatus = (if ed_CertStatus patch = EDGE_CERT_STATUS_UNSPECIFIED then ed_CertStatus ex else ed_CertStatus patch),
      ed_PortForwards = mlist (ed_PortForwards ex) (ed_PortForwards patch),
      ed_ConfigVersion = mint (ed_ConfigVersion ex) (ed_ConfigVersion patch), ed_Note = mstr (ed_Note ex) (ed_Note patch)\<rparr>"

definition coversTunnelNames :: "string \<Rightarrow> EdgeDomain \<Rightarrow> string option" where
  "coversTunnelNames base d =
     find (\<lambda>n. HasPrefix n ''*.'' \<and> (n = ''*.'' @ base \<or> HasSuffix n (''.'' @ base))) (Names_of d)"

record domain_env =
  de_cluster :: ClusterFile
  de_fetch :: "string \<Rightarrow> string option"
  de_parse :: "string \<Rightarrow> string \<Rightarrow> leaf option"
  de_now :: int
  de_ids :: "nat \<Rightarrow> string"

definition validate :: "domain_env \<Rightarrow> Action \<Rightarrow> EdgeDomain \<Rightarrow> EdgeDomain list \<Rightarrow> (domain_error, EdgeDomain) result" where
  "validate env action d0 all =
     (let existing = find (\<lambda>o'. ed_DomainId o' = ed_DomainId d0) (rev all); c = de_cluster env; base = cf_BaseDomain c in
      if action \<noteq> POST \<and> existing = None then Err NoSuchDomain
      else let d1 = (if action = PATCH then mergePatch (the existing) d0 else d0);
               d2 = (if ed_Kind d1 = EDGE_DOMAIN_KIND_UNSPECIFIED then d1\<lparr>ed_Kind := EDGE_DOMAIN_KIND_SITE\<rparr> else d1)
           in case protectTunnelBase c d2 existing of
                Inl e \<Rightarrow> Err e
              | Inr d3 \<Rightarrow>
           (case NormalizeNames d3 of
                Inl e \<Rightarrow> Err (Invalid e)
              | Inr d4 \<Rightarrow>
           (case (if ed_Kind d4 = EDGE_DOMAIN_KIND_SITE then coversTunnelNames base d4 else None) of
                Some n \<Rightarrow> Err (CoversTunnelNames n)
              | None \<Rightarrow>
           (let d5 = (if ed_Kind d4 = EDGE_DOMAIN_KIND_SITE then defaultNewForwards (de_ids env) d4 else d4) in
            case checkCertificate (de_fetch env) (de_parse env) (de_now env div 10 ^ 9) d5 existing of
                Inl e \<Rightarrow> Err e
              | Inr d6 \<Rightarrow>
           (case ValidateDomain d6 all base of
                Inl e \<Rightarrow> Err (Invalid e)
              | Inr d7 \<Rightarrow> Ok (d7\<lparr>ed_ConfigVersion := de_now env\<rparr>))))))"

section \<open>What is stored is consistent\<close>

lemma validate_OkE:
  assumes "validate env action d0 all = Ok d"
  obtains d3 d4 d5 d6 d7 where "NormalizeNames d3 = Ok d4" "ed_Kind d4 = EDGE_DOMAIN_KIND_SITE \<longrightarrow> coversTunnelNames (cf_BaseDomain (de_cluster env)) d4 = None"
    "d5 = (if ed_Kind d4 = EDGE_DOMAIN_KIND_SITE then defaultNewForwards (de_ids env) d4 else d4)"
    "checkCertificate (de_fetch env) (de_parse env) (de_now env div 10 ^ 9) d5 (find (\<lambda>o'. ed_DomainId o' = ed_DomainId d0) (rev all)) = Ok d6"
    "ValidateDomain d6 all (cf_BaseDomain (de_cluster env)) = Ok d7" "d = d7\<lparr>ed_ConfigVersion := de_now env\<rparr>"
  using assms unfolding validate_def Let_def
  by (auto split: if_splits sum.splits option.splits)

lemma checkForward_version [simp]: "checkForward (d\<lparr>ed_ConfigVersion := v\<rparr>) pf = checkForward d pf"
proof -
  have m: "checkMode (d\<lparr>ed_ConfigVersion := v\<rparr>) pf = checkMode d pf" by (simp add: checkMode_def cong: EdgeForwardMode.case_cong)
  have k: "ed_Kind (d\<lparr>ed_ConfigVersion := v\<rparr>) = ed_Kind d" by simp
  show ?thesis unfolding checkForward_def m k ..
qed

lemma domain_ok_version [simp]: "domain_ok (d\<lparr>ed_ConfigVersion := v\<rparr>) = domain_ok d"
  by (simp add: domain_ok_def Names_of_def)

lemma compatible_version [simp]: "compatible (d\<lparr>ed_ConfigVersion := v\<rparr>) o' = compatible d o'"
  by (simp add: compatible_def Names_of_def)

lemma conf_ok_version:
  assumes "conf_ok (storeDomain d ds)"
  shows "conf_ok (storeDomain (d\<lparr>ed_ConfigVersion := v\<rparr>) ds)"
proof -
  let ?d = "d\<lparr>ed_ConfigVersion := v\<rparr>" and ?os = "filter (\<lambda>o'. ed_DomainId o' \<noteq> ed_DomainId d) ds"
  have "compatible d o'" if "o' \<in> set ?os" for o'
  proof -
    have "d \<noteq> o'" using that by auto
    then show ?thesis using assms that by (simp add: conf_ok_def storeDomain_def)
  qed
  then have "compatible ?d o' \<and> compatible o' ?d" if "o' \<in> set ?os" for o' using that by (simp add: compatible_sym)
  then show ?thesis
    using assms by (auto simp: conf_ok_def storeDomain_def)
qed

lemma validate_conf_ok:
  assumes "conf_ok all" "validate env action d0 all = Ok d"
  shows "conf_ok (storeDomain d all)"
proof -
  obtain d6 d7 where v: "ValidateDomain d6 all (cf_BaseDomain (de_cluster env)) = Ok d7" "d = d7\<lparr>ed_ConfigVersion := de_now env\<rparr>"
    by (rule validate_OkE [OF assms(2)])
  show ?thesis unfolding v(2) by (rule conf_ok_version [OF storeDomain_ok [OF assms(1) v(1)]])
qed

text \<open>A certificate is accepted on upload only if it covers every name and is
  valid now.\<close>

lemma SummarizeCert_usable:
  assumes "SummarizeCert (Some lf) names now = Some s" "cs_Status s = EDGE_CERT_STATUS_VALID \<or> cs_Status s = EDGE_CERT_STATUS_EXPIRING"
  shows "\<forall>n\<in>set names. covers lf n" "lf_NotBefore lf \<le> now" "now \<le> lf_NotAfter lf"
  using assms by (auto simp: SummarizeCert_def Let_def list_ex_iff split: if_splits)

lemma checkCertificate_usable:
  assumes "checkCertificate fetch parse now d None = Ok d'" "ed_CertStatus d' = EDGE_CERT_STATUS_VALID \<or> ed_CertStatus d' = EDGE_CERT_STATUS_EXPIRING"
  shows "\<exists>certPEM keyPEM lf. fetch (ed_CertStoragePath d) = Some certPEM \<and> fetch (ed_KeyStoragePath d) = Some keyPEM \<and>
    parse certPEM keyPEM = Some lf \<and> (\<forall>n\<in>set (Names_of d). covers lf n) \<and> lf_NotBefore lf \<le> now \<and> now \<le> lf_NotAfter lf"
proof -
  obtain cert key s where f: "fetch (ed_CertStoragePath d) = Some cert" "fetch (ed_KeyStoragePath d) = Some key"
    "SummarizeCert (parse cert key) (Names_of d) now = Some s" "ed_CertStatus d' = cs_Status s"
    using assms by (auto simp: checkCertificate_def Let_def setSummary_def split: if_splits option.splits)
  moreover obtain lf where "parse cert key = Some lf" using f(3) by (cases "parse cert key") (simp_all add: SummarizeCert_def)
  ultimately show ?thesis using SummarizeCert_usable [of lf "Names_of d" now s] assms(2) by auto
qed

section \<open>The built-in row\<close>

text \<open>Ports of the built-in row that do not overlap.\<close>

definition base_ports_disjoint :: "ClusterFile \<Rightarrow> bool" where
  "base_ports_disjoint c \<longleftrightarrow> \<not> ownOverlap (TunnelBaseForwards c)"

lemma relayForward_valid:
  assumes "ed_Kind d = EDGE_DOMAIN_KIND_TUNNEL_BASE" "valid_port port" "valid_port target" "proto \<noteq> EDGE_PROTOCOL_UNSPECIFIED"
    and "end' = 0 \<or> port < end' \<and> end' \<le> 65535 \<and> proto = EDGE_PROTOCOL_TCP"
  shows "checkForward d (relayForward ident port end' proto target) = Ok ()"
proof -
  have "int32 port = port" "int32 end' = end'" using assms(2,5) by (auto simp: valid_port_def)
  then show ?thesis
    using assms by (auto simp: checkForward_def relayForward_def checkMode_def checkTarget_def valid_port_def)
qed

lemma TunnelBaseForwards_valid:
  assumes "cluster_ok c" "ed_Kind d = EDGE_DOMAIN_KIND_TUNNEL_BASE" "pf \<in> set (TunnelBaseForwards c)"
  shows "checkForward d pf = Ok ()"
proof -
  obtain lo hi where r: "ParsePortRange (cf_TCPPortRange c) = Some (lo, hi)" using assms(1) by (auto simp: cluster_ok_def)
  have b: "1 \<le> lo \<and> lo \<le> hi \<and> hi \<le> 65535" by (rule ParsePortRange_bounds [OF r])
  have p: "valid_port (cf_Public_HTTPS c)" "valid_port (cf_Relay_TLS c)" "valid_port (cf_Relay_HTTP c)"
    "valid_port (cf_Relay_Stream c)" "valid_port (cf_Relay_Gateway c)"
    "cf_Public_HTTP c = - 1 \<or> valid_port (cf_Public_HTTP c)" "0 \<le> cf_Public_Gateway c" "cf_Public_Gateway c \<le> 65535"
    using assms(1) by (simp_all add: cluster_ok_def checked_ports_def)
  have g: "cf_Public_Gateway c > 0 \<Longrightarrow> valid_port (cf_Public_Gateway c)" using p(8) by (simp add: valid_port_def)
  have lo: "valid_port lo" using b by (simp add: valid_port_def)
  have h: "cf_Public_HTTP c > 0 \<Longrightarrow> valid_port (cf_Public_HTTP c)" using p(6) by auto
  show ?thesis
    using assms(3) p g h lo b r
    by (auto simp: TunnelBaseForwards_def intro!: relayForward_valid [OF assms(2)] split: if_splits)
qed

lemma host_name_chars: "host_name d \<Longrightarrow> c \<in> set d \<Longrightarrow> alnum c \<or> c = CHR ''-'' \<or> c = CHR ''.''"
proof -
  assume d: "host_name d" and c: "c \<in> set d"
  have "d = Join (Split d CHR ''.'') ''.''" by simp
  moreover have "c \<in> set (Join ws ''.'') \<Longrightarrow> c = CHR ''.'' \<or> (\<exists>w\<in>set ws. c \<in> set w)" for ws :: "string list"
  proof (induction ws)
    case (Cons w ws)
    then show ?case by (cases ws) (auto simp: Join_Cons)
  qed simp
  ultimately show ?thesis using d c IsDNSLabel_chars by (metis host_name_def list_all_iff)
qed

lemma TrimSpace_id: "\<forall>c\<in>set s. \<not> is_space c \<Longrightarrow> TrimSpace s = s"
proof -
  have "\<forall>c\<in>set t. \<not> is_space c \<Longrightarrow> dropWhile is_space t = t" for t :: string by (cases t) simp_all
  from this [of s] this [of "rev s"] show "\<forall>c\<in>set s. \<not> is_space c \<Longrightarrow> ?thesis" by (simp add: TrimSpace_def)
qed

lemma host_char_not_space: "alnum c \<or> c = CHR ''-'' \<or> c = CHR ''.'' \<or> c = CHR ''*'' \<Longrightarrow> \<not> is_space c"
  by (auto simp: alnum_def is_lower_def is_digit_def is_space_def char_code_def)

lemma NormalizeName_host:
  assumes "host_name b"
  shows "NormalizeName b = Some b" "NormalizeName (''*.'' @ b) = Some (''*.'' @ b)" "TrimSpace b = b"
proof -
  show t: "TrimSpace b = b" using host_name_chars [OF assms] host_char_not_space by (blast intro: TrimSpace_id)
  have "\<forall>c\<in>set (''*.'' @ b). \<not> is_space c" using host_name_chars [OF assms] host_char_not_space by auto
  then have t2: "TrimSpace (''*.'' @ b) = ''*.'' @ b" by (rule TrimSpace_id)
  have "CutPrefix b ''*.'' = (b, False)" using host_name_no_star [OF assms] by (simp add: CutPrefix_def)
  then show "NormalizeName b = Some b" using t NormalizeDomain_of_host_name [OF assms] by (simp add: NormalizeName_def)
  show "NormalizeName (''*.'' @ b) = Some (''*.'' @ b)"
    unfolding NormalizeName_def t2 CutPrefix_append using NormalizeDomain_of_host_name [OF assms] by simp
qed

lemma bootstrapBase_valid:
  assumes "cluster_ok c" "host_name (cf_BaseDomain c)" "base_ports_disjoint c"
  shows "ValidateDomain (bootstrapBase c) [] (cf_BaseDomain c) = Ok (bootstrapBase c)"
proof -
  let ?d = "bootstrapBase c" and ?b = "cf_BaseDomain c"
  note n = NormalizeName_host [OF assms(2)]
  have norm: "NormalizeNames ?d = Ok ?d"
    using n host_name_no_star [OF assms(2)] by (simp add: NormalizeNames_def bootstrapBase_def)
  have dup: "firstDuplicate (Names_of ?d) [] = None"
    by (simp add: firstDuplicate_None Names_of_def bootstrapBase_def)
  have fw: "checkForwards ?d (ed_PortForwards ?d) = Ok ()"
    using TunnelBaseForwards_valid [OF assms(1), of ?d] by (simp add: checkForwards_Ok bootstrapBase_def)
  have "checkPortConflicts ?d [] = Ok ()"
    using assms(3) by (simp add: checkPortConflicts_Ok base_ports_disjoint_def bootstrapBase_def)
  moreover have "checkKind ?d ?b = Ok ()" "checkIPLists ?d = Ok ()"
    by (simp_all add: checkKind_def checkIPLists_def bootstrapBase_def emptyDomain_def)
  ultimately show ?thesis using norm dup fw by (simp add: ValidateDomain_def)
qed

end
