(* ===== verification/Edge_Properties.thy ===== *)
theory Edge_Properties
  imports Edge_Serve Edge_Domains
begin

text \<open>
  The properties of the edge and of the HTTP proxy, with witnesses on a small
  configuration: two sites that share port 443.
\<close>

section \<open>Examples\<close>

definition ex_target :: "string \<Rightarrow> int \<Rightarrow> EdgeTarget option" where
  "ex_target host weight = Some \<lparr>et_Host = host, et_Port = 8080, et_Weight = weight, et_Disabled = False\<rparr>"

definition ex_forward :: "EdgeForwardMode \<Rightarrow> EdgeTarget option list \<Rightarrow> EdgePortForward" where
  "ex_forward mode targets = (relayForward ''f'' 443 0 EDGE_PROTOCOL_TLS 0)
     \<lparr>pf_Mode := mode, pf_TargetKind := EDGE_TARGET_KIND_TARGETS, pf_Targets := targets, pf_BackendScheme := EDGE_BACKEND_SCHEME_HTTP\<rparr>"

definition ex_site :: "string \<Rightarrow> string \<Rightarrow> EdgePortForward \<Rightarrow> EdgeDomain" where
  "ex_site ident name f = emptyDomain\<lparr>ed_DomainId := ident, ed_Domain := name, ed_Kind := EDGE_DOMAIN_KIND_SITE, ed_Enabled := True,
     ed_CertStatus := EDGE_CERT_STATUS_VALID, ed_PortForwards := [f]\<rparr>"

definition ex_one :: EdgeDomain where
  "ex_one = ex_site ''1'' ''a.org'' (ex_forward EDGE_FORWARD_MODE_PASSTHROUGH [ex_target ''10.0.0.1'' 2, ex_target ''10.0.0.2'' 1])"

definition ex_two :: EdgeDomain where
  "ex_two = ex_site ''2'' ''b.org'' (ex_forward EDGE_FORWARD_MODE_PASSTHROUGH [ex_target ''10.0.0.3'' 1])"

definition ex_edge :: Edge where
  "ex_edge = \<lparr>eg_cfg = \<lparr>ec_BaseDomain = ''t.org'', ec_ControlSNI = ''connect.t.org'', ec_NodeIP = ''10.0.0.9'', ec_BindHost = [],
      ec_ForwardKey = replicate 32 CHR ''k'', ec_ConnectionsPerSecond = 20, ec_ConnectionsBurst = 100\<rparr>,
     eg_limiter = NewIPLimiter 20 100 0, eg_listeners = [], eg_pools = [], eg_version = 0, eg_closed = False,
     eg_counters = \<lparr>cn_accepted = 0, cn_rejectedRate = 0, cn_rejectedIP = 0, cn_noRoute = 0, cn_dialFailures = 0\<rparr>,
     eg_rr = 0, eg_heap = [], eg_next = 0\<rparr>"

definition ex_env :: net_env where
  "ex_env = \<lparr>nv_up = (\<lambda>_. True), nv_tls = (\<lambda>_. True), nv_write = True, nv_now = 0, nv_ra = (\<lambda>_. 0), nv_rb = (\<lambda>_. 0)\<rparr>"

definition ex_live :: Live where
  "ex_live = \<lparr>lv_Relays = [\<lparr>rt_ID = ''r1'', rt_IP = ''10.1.0.1'', rt_Sessions = 1, rt_Draining = False\<rparr>],
     lv_OwnerOfHost = (\<lambda>_. None), lv_OwnerOfPort = (\<lambda>p. if p = 22000 then Some (\<lparr>rt_ID = ''r1'', rt_IP = ''10.1.0.1'', rt_Sessions = 1, rt_Draining = False\<rparr>, ''web'') else None)\<rparr>"

definition ex_conn :: conn where
  "ex_conn = \<lparr>co_Remote = ''192.0.2.7:5000'', co_Local = ''10.0.0.9:443''\<rparr>"

definition ex_applied :: Edge where
  "ex_applied = Apply (\<lambda>_. None) (\<lambda>_. None) [ex_one, ex_two] 1 ex_edge"


section \<open>The stored configuration\<close>

lemma ex_conf_ok: "conf_ok [ex_one]"
  by code_simp

definition ex_cluster :: ClusterFile where
  "ex_cluster = \<lparr>cf_BaseDomain = ''T.org.'', cf_ControlSNI = [], cf_AuthHost = [], cf_ReservedNames = [''www''], cf_TCPPortRange = [],
     cf_Public_HTTPS = 0, cf_Public_HTTP = 0, cf_Public_Gateway = 2222, cf_Relay_TLS = 0, cf_Relay_HTTP = 0, cf_Relay_Stream = 0,
     cf_Relay_Gateway = 0, cf_Relay_Ops = 0, cf_TrustedProxies = [''10.0.0.0/8''], cf_SecretDir = [], cf_Edge_Ops = 0,
     cf_AgentCA_Cert = [], cf_AgentCA_Key = []\<rparr>"

definition ex_domain_env :: domain_env where
  "ex_domain_env = \<lparr>de_cluster = (case normalize ex_cluster of Inr f \<Rightarrow> f | Inl _ \<Rightarrow> ex_cluster),
     de_fetch = Some,
     de_parse = (\<lambda>_ _. Some \<lparr>lf_CommonName = ''c.org'', lf_DNSNames = [''c.org''], lf_Issuer = ''CA'', lf_NotBefore = 0,
        lf_NotAfter = 10000000, lf_Fingerprint = ''f1''\<rparr>),
     de_now = 0, de_ids = (\<lambda>i. ''g'' @ Itoa (int i))\<rparr>"

text \<open>
  C16. Whatever the management plane stores keeps the set of edge domains
  consistent: distinct IDs, no name served by two domains, one tunnel base,
  no port with two protocols, no TCP port shared, every forward valid.
\<close>

theorem stored_domains_consistent:
  assumes "conf_ok all" "validate env action d0 all = Ok d"
  shows "conf_ok (storeDomain d all)"
  by (rule validate_conf_ok [OF assms])

theorem stored_domains_consistent_witness:
  "\<exists>d. validate ex_domain_env POST ex_two [ex_one] = Ok d \<and> conf_ok (storeDomain d [ex_one])"
proof -
  have "is_ok (validate ex_domain_env POST ex_two [ex_one])" by code_simp
  then obtain d where d: "validate ex_domain_env POST ex_two [ex_one] = Ok d" by (auto simp: is_ok_iff)
  then show ?thesis using stored_domains_consistent [OF ex_conf_ok d] by blast
qed

text \<open>
  The built-in domain of the cluster passes validation whenever its
  ports do not overlap: every forward derived from a loaded cluster.yaml is
  well formed.
\<close>

theorem tunnel_base_row_valid:
  assumes "normalize f0 = Ok c" "host_name (cf_BaseDomain c)" "base_ports_disjoint c"
  shows "ValidateDomain (bootstrapBase c) [] (cf_BaseDomain c) = Ok (bootstrapBase c)"
  by (rule bootstrapBase_valid [OF normalize_ok [OF assms(1)] assms(2,3)])

theorem tunnel_base_row_valid_witness:
  "\<exists>c. normalize ex_cluster = Ok c \<and> ValidateDomain (bootstrapBase c) [] ''t.org'' = Ok (bootstrapBase c)"
proof -
  have ok: "is_ok (normalize ex_cluster)" by code_simp
  then obtain c where c: "normalize ex_cluster = Ok c" by (auto simp: is_ok_iff)
  have "case normalize ex_cluster of Inl _ \<Rightarrow> False | Inr c \<Rightarrow> cf_BaseDomain c = ''t.org'' \<and> base_ports_disjoint c" by code_simp
  then have b: "cf_BaseDomain c = ''t.org''" "base_ports_disjoint c" using c by simp_all
  have "host_name ''t.org''" by code_simp
  then show ?thesis using tunnel_base_row_valid [OF c] b c by simp
qed

section \<open>Applying a configuration\<close>

definition edge_inv :: "Edge \<Rightarrow> bool" where
  "edge_inv e \<longleftrightarrow> \<not> eg_closed e \<and> pools_inv e \<and> map_ok (eg_listeners e)"




lemma ex_edge_inv: "edge_inv ex_edge"
  by (simp add: edge_inv_def ex_edge_def pools_inv_def)

lemma ex_keys: "distinct (map key_of (activeForwards [ex_one, ex_two]))"
  by code_simp



section \<open>Routing\<close>

lemma listener_for_simps [simp]:
  "ls_routes (listener_for bind e p routes) = Some (newRouteSet routes)" "ls_proto (listener_for bind e p routes) = protoOf routes"
  by (simp_all add: listener_for_def setRoutes_def listen_def split: option.split)

lemma site_listener:
  assumes "edge_inv e" "conf_ok ds" "distinct (map key_of (activeForwards ds))"
    and "(d, acc, i, f) \<in> set (activeForwards ds)" "p \<in> set (forward_ports f)"
    and "ed_Kind d \<noteq> EDGE_DOMAIN_KIND_TUNNEL_BASE" "n \<in> set (Names_of d)" "\<not> HasPrefix n ''*''"
  obtains l rs r a where "map_of (eg_listeners (Apply lookup bind ds v e)) p = Some l" "ls_proto l = pf_Protocol f" "ls_routes l = Some rs"
    "map_of (rs_byName rs) n = Some r" "ro_domain r = d" "ro_fwd r = f" "ro_access r = acc" "ro_pool r = a"
    "map_of (eg_pools (Apply lookup bind ds v e)) (poolKey d i f) = Some a"
proof -
  have e: "\<not> eg_closed e" "pools_inv e" "map_ok (eg_listeners e)" using assms(1) by (simp_all add: edge_inv_def)
  let ?s = "apply_result lookup ds e" and ?x = "(d, acc, i, f)"
  let ?routes = "routes_on (ap_routes ?s) p"
  have ne: "?routes \<noteq> []" "protoOf ?routes = pf_Protocol f"
    by (rule protoOf_port [OF assms(2) e(2) assms(3,4,5)])+
  have l: "map_of (eg_listeners (Apply lookup bind ds v e)) p = Some (listener_for bind e p ?routes)"
    using Apply_listener [OF e(1,3)] ne(1) by simp
  have r: "map_of (rs_byName (newRouteSet ?routes)) n = Some (route_of ?s ?x)"
    unfolding newRouteSet_get(1) using site_route [OF assms(2) e(2) assms(3-7), of lookup] assms(8) by simp
  obtain a where a: "map_of (eg_pools (Apply lookup bind ds v e)) (poolKey d i f) = Some a"
    using Apply_pool_of [OF e(1,2) assms(3,4)] by blast
  then have "ro_pool (route_of ?s ?x) = a" using Apply_simps(1) [OF e(1)] by simp
  then show thesis using that [OF l _ _ r] ne(2) a by simp
qed

text \<open>
  C15. After a consistent configuration is applied, a TLS connection that
  names a site on a port the site is served on reaches a healthy backend of
  that site's own forward when one answers, and fails only when none does.
\<close>

theorem site_reaches_own_backends:
  assumes "edge_inv e" "conf_ok ds" "distinct (map key_of (activeForwards ds))"
    and "(d, acc, i, f) \<in> set (activeForwards ds)" "port \<in> set (forward_ports f)"
    and "ed_Kind d \<noteq> EDGE_DOMAIN_KIND_TUNNEL_BASE" "n \<in> set (Names_of d)" "\<not> HasPrefix n ''*''"
    and "pf_Protocol f = EDGE_PROTOCOL_TLS" "pf_Mode f = EDGE_FORWARD_MODE_PASSTHROUGH"
    and "ToLower (TrimSuffix host ''.'') = n" "AllowsIP acc (clientIP (co_Remote c))" "nv_write env"
    and "eg_listeners e1 = eg_listeners (Apply lookup bind ds v e)" "eg_pools e1 = eg_pools (Apply lookup bind ds v e)"
  shows "\<exists>l a. map_of (eg_listeners e1) port = Some l \<and> map_of (eg_pools e1) (poolKey d i f) = Some a \<and>
    (let p = the (map_of (eg_heap e1) a) in
     case fst (serve env live l (Some host) c e1) of
       Joined up _ \<Rightarrow> backend_of p up \<and> nv_up env up
     | DialFailed \<Rightarrow> \<not> (\<exists>up. backend_of p up \<and> nv_up env up)
     | _ \<Rightarrow> False)"
proof -
  obtain l rs r a where l: "map_of (eg_listeners (Apply lookup bind ds v e)) port = Some l" "ls_proto l = pf_Protocol f" "ls_routes l = Some rs"
    "map_of (rs_byName rs) n = Some r" "ro_domain r = d" "ro_fwd r = f" "ro_access r = acc" "ro_pool r = a"
    "map_of (eg_pools (Apply lookup bind ds v e)) (poolKey d i f) = Some a"
    by (rule site_listener [OF assms(1-8)])
  have res: "resolve (eg_cfg e1) live rs host (eg_rr e1) = (siteTarget r, eg_rr e1)"
    by (rule resolve_exact) (simp add: assms(11) l(4))
  have adm: "admitted (siteTarget r) (co_Remote c) (e1\<lparr>eg_rr := eg_rr e1\<rparr>) = (True, e1\<lparr>eg_rr := eg_rr e1\<rparr>)"
    using assms(12) l(7) by (simp add: admitted_def siteTarget_def)
  have s: "serve env live l (Some host) c e1 = forward env c (siteTarget r) (e1\<lparr>eg_rr := eg_rr e1\<rparr>)"
    using l assms(9,10) res adm by (simp add: serve_def serveTLS_def siteTarget_def)
  have nr: "\<not> isRelay r" using l(6) assms(10) by (simp add: isRelay_def)
  obtain up h where d: "dialPool env (clientIP (co_Remote c)) a (eg_heap e1) = (up, h)" by fastforce
  note spec = dialPool_spec [OF d]
  show ?thesis
    using l(1,8,9) assms(13-15) s nr d spec
    by (cases up) (auto simp: forward_def siteTarget_def joinWith_def)
qed

theorem site_reaches_own_backends_witness:
  "\<exists>l a. map_of (eg_listeners ex_applied) 443 = Some l \<and> map_of (eg_pools ex_applied) ''2/f'' = Some a \<and>
    fst (serve ex_env ex_live l (Some ''B.org.'') ex_conn ex_applied) = Joined ''10.0.0.3:8080'' None \<and>
    backend_of (the (map_of (eg_heap ex_applied) a)) ''10.0.0.3:8080''"
proof -
  let ?f = "hd (ed_PortForwards ex_two)"
  have act: "(ex_two, the (domainAccess ex_two), 0, ?f) \<in> set (activeForwards [ex_one, ex_two])" by code_simp
  have conf: "conf_ok [ex_one, ex_two]" by code_simp
  have p: "443 \<in> set (forward_ports ?f)" "ed_Kind ex_two \<noteq> EDGE_DOMAIN_KIND_TUNNEL_BASE" "''b.org'' \<in> set (Names_of ex_two)"
    "\<not> HasPrefix ''b.org'' ''*''" "pf_Protocol ?f = EDGE_PROTOCOL_TLS" "pf_Mode ?f = EDGE_FORWARD_MODE_PASSTHROUGH"
    "ToLower (TrimSuffix ''B.org.'' ''.'') = ''b.org''" "AllowsIP (the (domainAccess ex_two)) (clientIP (co_Remote ex_conn))" "nv_write ex_env"
    "poolKey ex_two 0 ?f = ''2/f''"
    by code_simp+
  have ev: "fst (serve ex_env ex_live (the (map_of (eg_listeners ex_applied) 443)) (Some ''B.org.'') ex_conn ex_applied) = Joined ''10.0.0.3:8080'' None"
    by code_simp
  show ?thesis
    using site_reaches_own_backends [OF ex_edge_inv conf ex_keys act p(1-9), of ex_applied "\<lambda>_. None" "\<lambda>_. None" 1 ex_live]
      ev p(10) by (auto simp: ex_applied_def [symmetric] Let_def)
qed

end
