(* ===== verification/Edge_Findings.thy ===== *)
theory Edge_Findings
  imports Edge_Properties
begin

text \<open>
  More properties of the edge, the HTTP proxy and the wire formats, and the
  places where the edge does not do what it means to.
\<close>

section \<open>Admission\<close>



section \<open>Balancing\<close>

text \<open>
  C20. Round robin is exact: on a pool just built from a validated forward,
  as many picks as the enabled targets' weights add up to choose each target
  exactly as often as its weight, and leave the counters as they were.
\<close>

theorem round_robin_fair:
  fixes lookup ident nodeIP
  assumes "checkTarget fwd base = Ok ()"
  defines "p \<equiv> newPool lookup ident fwd nodeIP"
  assumes "candidates p [] \<noteq> []" "j \<in> set (candidates p [])"
    and "srrRun (nat (\<Sum>i\<in>set (candidates p []). wt p i)) (candidates p []) p = (ks, q)"
  shows "int (count_list ks j) = mb_weight (mem p j) \<and> mb_current (mem q j) = mb_current (mem p j)"
proof -
  have fresh: "fresh_pool p" unfolding p_def by (rule newPool_fresh [OF assms(1)])
  have d: "distinct (candidates p [])" using fresh by (simp add: candidates_def fresh_pool_def)
  have w: "\<forall>i\<in>set (candidates p []). 0 < wt p i \<and> cur p i = 0"
    using fresh by (fastforce simp: fresh_pool_def candidates_def)
  show ?thesis using srrRun_fair [OF d assms(3) w assms(5,4)] w assms(4) by simp
qed

definition ex_pool :: pool where
  "ex_pool = newPool (\<lambda>_. None) ''1/f'' (hd (ed_PortForwards ex_one)) ''10.0.0.9''"

theorem round_robin_fair_witness:
  "candidates ex_pool [] = [0, 1] \<and>
   count_list (fst (srrRun 3 (candidates ex_pool []) ex_pool)) 0 = 2 \<and>
   count_list (fst (srrRun 3 (candidates ex_pool []) ex_pool)) 1 = 1"
proof -
  have ev: "checkTarget (hd (ed_PortForwards ex_one)) False = Ok ()" "candidates ex_pool [] = [0, 1]"
    "wt ex_pool 0 = 2" "wt ex_pool 1 = 1" by code_simp+
  have sum: "nat (\<Sum>i\<in>set (candidates ex_pool []). wt ex_pool i) = 3" using ev(2-4) by simp
  obtain ks q where r: "srrRun 3 (candidates ex_pool []) ex_pool = (ks, q)" by fastforce
  have "int (count_list ks j) = wt ex_pool j" if "j \<in> set (candidates ex_pool [])" for j
    using round_robin_fair [OF ev(1), of "\<lambda>_. None" "''1/f''" "''10.0.0.9''" j ks q] that ev(2) sum r
    unfolding ex_pool_def [symmetric] by simp
  from this [of 0] this [of 1] show ?thesis using r ev(2-4) by simp
qed

text \<open>
  C19. Dialing a pool always ends, whatever backends fail while it runs: it
  connects to a healthy, enabled backend that answers whenever there is one,
  and reports failure only when there is none.
\<close>

theorem pool_dial_complete:
  "\<exists>r q. pool_dial up now ra rb client p = Some (r, q) \<and>
     (case r of
        Some i \<Rightarrow> backend_of p (mb_addr (mem q i)) \<and> up (mb_addr (mem q i))
      | None \<Rightarrow> (\<forall>addr. \<not> (backend_of p addr \<and> up addr)))"
proof -
  obtain r q where "pool_dial up now ra rb client p = Some (r, q)"
    "\<forall>i. r = Some i \<longrightarrow> backend_of p (mb_addr (mem q i)) \<and> up (mb_addr (mem q i))"
    "r = None \<longrightarrow> \<not> (\<exists>addr. backend_of p addr \<and> up addr)"
    by (rule pool_dial_spec)
  then show ?thesis by (intro exI [of _ r] exI [of _ q]) (auto split: option.split)
qed

text \<open>
  Source hash is stable: when other backends fail, are disabled by
  trying or come back, a client is given the same backend as before, as long
  as that one is still eligible.
\<close>

theorem source_hash_stable:
  assumes "pf_Lb (pl_fwd p) = EDGE_LB_ALGORITHM_SOURCE_HASH" "same_members p q"
    and "fst (pool_pick ra rb client tried p) = Some i"
    and "candidates q tried' = filter P (candidates p tried)" "P i"
  shows "fst (pool_pick ra' rb' client tried' q) = Some i"
proof -
  let ?score = "\<lambda>j. hashScore client (mem p j)"
  obtain c cs where c: "candidates p tried = c # cs" "i = bestScore ?score cs c"
    using assms(1,3) by (auto simp: pool_pick_def Let_def split: list.splits)
  have "i \<in> set (candidates q tried')" using assms(4,5) c bestScore_in [of ?score cs c] by auto
  then obtain d ds where d: "candidates q tried' = d # ds" by (cases "candidates q tried'") auto
  have "bestScore ?score ds d = i"
    using bestScore_filter [of P c cs d ds ?score] assms(4,5) c d by simp
  moreover have "hashScore client (mem q j) = ?score j" for j
    using assms(2) by (simp add: hashScore_def same_members_def)
  ultimately show ?thesis
    using assms(1,2) d by (simp add: pool_pick_def same_members_def Let_def)
qed

definition ex_hash_pool :: pool where
  "ex_hash_pool = newPool (\<lambda>_. None) ''1/f'' ((hd (ed_PortForwards ex_one))\<lparr>pf_Lb := EDGE_LB_ALGORITHM_SOURCE_HASH\<rparr>) ''10.0.0.9''"

theorem source_hash_stable_witness:
  "\<exists>i. fst (pool_pick 0 0 (Addr4 7) [] ex_hash_pool) = Some i \<and> fst (pool_pick 0 0 (Addr4 7) [1 - i] ex_hash_pool) = Some i"
proof -
  have ev: "candidates ex_hash_pool [] = [0, 1]" "pf_Lb (pl_fwd ex_hash_pool) = EDGE_LB_ALGORITHM_SOURCE_HASH"
    "candidates ex_hash_pool [0] = [1]" "candidates ex_hash_pool [1] = [0]" by code_simp+
  obtain i q where i: "pool_pick 0 0 (Addr4 7) [] ex_hash_pool = (Some i, q)"
    using pool_pick_spec(1) [of 0 0 "Addr4 7" "[]" ex_hash_pool] ev(1) by (metis list.distinct(1) option.exhaust surj_pair)
  have mem: "i = 0 \<or> i = 1" using pool_pick_spec(2) [OF i] ev(1) by simp
  have "same_members ex_hash_pool ex_hash_pool" by (simp add: same_members_def)
  moreover have "candidates ex_hash_pool [1 - i] = filter (\<lambda>j. j = i) (candidates ex_hash_pool [])"
    using mem ev by auto
  ultimately have "fst (pool_pick 0 0 (Addr4 7) [1 - i] ex_hash_pool) = Some i"
    using source_hash_stable [OF ev(2), of ex_hash_pool 0 0 "Addr4 7" "[]" i "[1 - i]" "\<lambda>j. j = i" 0 0] i by simp
  then show ?thesis using i by auto
qed

section \<open>HTTP\<close>





section \<open>Wire formats\<close>

text \<open>
  A stream the edge forwards for a tunnel port carries a header that the
  relay accepts, within the allowed clock skew, as a stream for exactly the
  tunnel that holds the port and from exactly the client that connected.
\<close>

theorem edge_stream_verifies:
  assumes "stream env live port c r e = (Joined up (Some (src, tlvs)), e')"
    and "\<bar>sint (now - of_int (nv_now env div 10 ^ 9))\<bar> \<le> streamAuthWindow"
  shows "\<exists>relay name. lv_OwnerOfPort live port = Some (relay, name) \<and> src = co_Remote c \<and>
    up = JoinHostPort (rt_IP relay) (pf_TargetPort (ro_fwd r)) \<and>
    VerifySignedTLVs (ec_ForwardKey (eg_cfg e)) tlvs (co_Remote c) now = Ok name"
proof -
  obtain relay name where o: "lv_OwnerOfPort live port = Some (relay, name)"
    using assms(1) by (cases "lv_OwnerOfPort live port") (auto simp: stream_def)
  let ?tlvs = "SignedTLVs (ec_ForwardKey (eg_cfg e)) name (co_Remote c) (of_int (nv_now env div 10 ^ 9))"
  have j: "src = co_Remote c" "tlvs = ?tlvs" "up = JoinHostPort (rt_IP relay) (pf_TargetPort (ro_fwd r))"
    using assms(1) o by (auto simp: stream_def Let_def joinWith_def split: if_splits)
  have f: "FindTLV ?tlvs TLVTunnel = Some name"
    "FindTLV ?tlvs TLVAuth = Some (signStream (ec_ForwardKey (eg_cfg e)) name (co_Remote c) (of_int (nv_now env div 10 ^ 9)))"
    by (simp_all add: FindTLV_def SignedTLVs_def TLVTunnel_def TLVAuth_def)
  have "VerifySignedTLVs (ec_ForwardKey (eg_cfg e)) tlvs (co_Remote c) now = Ok name"
    unfolding VerifySignedTLVs_Ok_iff j(2) using f assms(2) by blast
  then show ?thesis using o j by blast
qed

definition ex_range_route :: route where
  "ex_range_route = routeOf ex_one (relayForward ''tcp-range'' 22000 22999 EDGE_PROTOCOL_TCP 8444) ''k'' 0 (the (domainAccess ex_one))"

theorem edge_stream_verifies_witness:
  "\<exists>up tlvs. fst (stream ex_env ex_live 22000 ex_conn ex_range_route ex_edge) = Joined up (Some (co_Remote ex_conn, tlvs)) \<and>
     VerifySignedTLVs (ec_ForwardKey (eg_cfg ex_edge)) tlvs (co_Remote ex_conn) 30 = Ok ''web''"
proof -
  let ?tlvs = "SignedTLVs (ec_ForwardKey (eg_cfg ex_edge)) ''web'' (co_Remote ex_conn) (of_int (nv_now ex_env div 10 ^ 9))"
  have allow: "AllowsIP (ro_access ex_range_route) (clientIP (co_Remote ex_conn))" by code_simp
  have "stream ex_env ex_live 22000 ex_conn ex_range_route ex_edge =
      (Joined (JoinHostPort ''10.1.0.1'' (pf_TargetPort (ro_fwd ex_range_route))) (Some (co_Remote ex_conn, ?tlvs)), ex_edge)"
    using allow by (simp add: stream_def ex_live_def Let_def ex_env_def joinWith_def)
  moreover have "\<bar>sint ((30 :: 64 word) - of_int (nv_now ex_env div 10 ^ 9))\<bar> \<le> streamAuthWindow" by code_simp
  moreover have "lv_OwnerOfPort ex_live 22000 = Some (\<lparr>rt_ID = ''r1'', rt_IP = ''10.1.0.1'', rt_Sessions = 1, rt_Draining = False\<rparr>, ''web'')"
    by (simp add: ex_live_def)
  ultimately show ?thesis using edge_stream_verifies by fastforce
qed

text \<open>
  A header that verifies was signed for the tunnel and client it is used
  for: unless the MAC has a collision, an intercepted header can be replayed
  neither for another tunnel nor for another client, nor after a minute.
\<close>

theorem signed_header_binds:
  assumes "VerifySignedTLVs key tlvs client now = Ok subject"
    and "FindTLV tlvs TLVAuth = Some (signStream key subject' client' ts)"
    and "hmac_sha256 key (signed_payload ts subject client) = hmac_sha256 key (signed_payload ts subject' client') \<longrightarrow>
         signed_payload ts subject client = signed_payload ts subject' client'"
    and "CHR 0x00 \<notin> set client" "CHR 0x00 \<notin> set client'"
  shows "subject = subject' \<and> client = client' \<and> \<bar>sint (now - ts)\<bar> \<le> streamAuthWindow"
proof -
  obtain t where t: "FindTLV tlvs TLVAuth = Some (signStream key subject client t)" "\<bar>sint (now - t)\<bar> \<le> streamAuthWindow"
    using assms(1) by (auto simp: VerifySignedTLVs_Ok_iff)
  then have eq: "signStream key subject client t = signStream key subject' client' ts" using assms(2) by simp
  then have "t = ts" using signStream_ts by metis
  then show ?thesis using eq assms(3-5) t(2) signed_payload_inj [of ts subject client ts subject' client'] by (simp add: signStream_def)
qed

theorem signed_header_binds_witness:
  "VerifySignedTLVs ''k'' (SignedTLVs ''k'' ''web'' ''c'' 0) ''c'' 0 = Ok ''web'' \<and> (\<bar>sint ((0 :: 64 word) - 0)\<bar> \<le> streamAuthWindow)"
proof -
  have f: "FindTLV (SignedTLVs ''k'' ''web'' ''c'' 0) TLVAuth = Some (signStream ''k'' ''web'' ''c'' 0)"
    by (simp add: FindTLV_def SignedTLVs_def TLVTunnel_def TLVAuth_def)
  moreover have "FindTLV (SignedTLVs ''k'' ''web'' ''c'' 0) TLVTunnel = Some ''web''" by (simp add: FindTLV_def SignedTLVs_def)
  ultimately have v: "VerifySignedTLVs ''k'' (SignedTLVs ''k'' ''web'' ''c'' 0) ''c'' 0 = Ok ''web''"
    unfolding VerifySignedTLVs_Ok_iff by (intro conjI exI [of _ 0]) (simp_all add: streamAuthWindow_def)
  show ?thesis using signed_header_binds [OF v f] v by simp
qed

text \<open>
  Control messages survive framing: what one side writes, message by
  message, the other side reads back in order, and nothing after it is
  consumed.
\<close>

theorem framing_roundtrip:
  assumes "WriteMessages marshal ms = Ok bytes" "\<And>m data. marshal m = Some data \<Longrightarrow> unmarshal data = Some m"
  shows "ReadMessages unmarshal (length ms) (bytes @ rest) = Ok (ms, rest)"
  by (rule ReadMessages_WriteMessages [OF assms])

theorem framing_roundtrip_witness:
  "\<exists>bytes. WriteMessages Some [''hello'', [], ''bye''] = Ok bytes \<and> ReadMessages Some 3 (bytes @ ''x'') = Ok ([''hello'', [], ''bye''], ''x'')"
proof -
  have "is_ok (WriteMessages Some [''hello'', [], ''bye''])" by (simp add: WriteMessage_def MaxMessageSize_def is_ok_iff)
  then obtain bytes where b: "WriteMessages Some [''hello'', [], ''bye''] = Ok bytes" by (auto simp: is_ok_iff)
  show ?thesis using framing_roundtrip [OF b, of Some "''x''"] b by (simp add: numeral_3_eq_3)
qed

section \<open>Where the edge differs from what it means to do\<close>









end
