(* ===== verification/Live_View.thy ===== *)
theory Live_View
  imports Claims_Sweep Edge_Serve Cluster_Conf
begin

text \<open>
  \<open>go/tun/common/liveview.go\<close>, the cached copy of the registry's live tables
  that relays and the edge route by, and \<open>go/tun/edgenode/live.go\<close>, which
  answers the edge's questions from it.  A fetch runs in the background: the
  view says that one is running, and \<open>fetch\<close> is the step in which it ends with
  the tables it read, or with nothing when the registry did not answer.  A
  lookup that waits is given what it waited for: \<^const>\<open>None\<close> when the wait timed
  out, else the fetch's answer and the time it ended.  The zero time is
  \<^const>\<open>None\<close>; times are nanoseconds.
\<close>

section \<open>State\<close>

definition liveRefetchMin :: int where
  "liveRefetchMin = 10 ^ 9"

record LiveView =
  vw_ttl :: int
  vw_byName :: "(string, TunLiveTunnel) gomap"
  vw_byPort :: "(int, TunLiveTunnel) gomap"
  vw_relays :: "(string, TunRelay) gomap"
  vw_fetched :: "int option"
  vw_tried :: "int option"
  vw_fetching :: bool

type_synonym tables = "TunLiveTunnel list \<times> TunRelay list"
type_synonym waited = "(tables option \<times> int) option"

definition NewLiveView :: "int \<Rightarrow> LiveView" where
  "NewLiveView ttl = \<lparr>vw_ttl = ttl, vw_byName = [], vw_byPort = [], vw_relays = [], vw_fetched = None, vw_tried = None, vw_fetching = False\<rparr>"

text \<open>\<open>time.Since(t) < d\<close>; the zero time is longer ago than any duration used.\<close>

definition since_less :: "int \<Rightarrow> int option \<Rightarrow> int \<Rightarrow> bool" where
  "since_less now t d = (case t of None \<Rightarrow> False | Some s \<Rightarrow> now - s < d)"

section \<open>Fetching\<close>

definition listed :: "TunLiveTunnel \<Rightarrow> bool" where
  "listed t \<longleftrightarrow> tl_Name t \<noteq> [] \<and> \<not> tl_Simulated t \<and> tl_State t = TUN_LIVE_STATE_ACTIVE"

definition indexTunnel ::
    "TunLiveTunnel \<Rightarrow> (string, TunLiveTunnel) gomap \<times> (int, TunLiveTunnel) gomap \<Rightarrow>
     (string, TunLiveTunnel) gomap \<times> (int, TunLiveTunnel) gomap" where
  "indexTunnel t = (\<lambda>(byName, byPort).
     if \<not> listed t then (byName, byPort)
     else (fold (\<lambda>d. AList.update d t) (tl_Domains t) (AList.update (tl_Name t) t byName),
           if tl_PublicPort t \<noteq> 0 then AList.update (tl_PublicPort t) t byPort else byPort))"

definition indexRelay :: "TunRelay \<Rightarrow> (string, TunRelay) gomap \<Rightarrow> (string, TunRelay) gomap" where
  "indexRelay r byRelay =
     (if rl_RelayId r \<noteq> [] \<and> \<not> rl_Simulated r then AList.update (rl_RelayId r) r byRelay else byRelay)"

definition fetch :: "tables option \<Rightarrow> int \<Rightarrow> LiveView \<Rightarrow> LiveView" where
  "fetch answer now v =
     (case answer of
        None \<Rightarrow> v\<lparr>vw_fetching := False\<rparr>
      | Some (tunnels, relays) \<Rightarrow>
          (let (byName, byPort) = fold indexTunnel tunnels ([], [])
           in v\<lparr>vw_fetching := False, vw_byName := byName, vw_byPort := byPort, vw_relays := fold indexRelay relays [],
                vw_fetched := Some now\<rparr>))"

definition ensure :: "int \<Rightarrow> bool \<Rightarrow> int \<Rightarrow> waited \<Rightarrow> LiveView \<Rightarrow> LiveView" where
  "ensure age miss now w v =
     (if since_less now (vw_fetched v) age then v
      else let v1 = (if \<not> vw_fetching v \<and> \<not> since_less now (vw_tried v) liveRefetchMin
                     then v\<lparr>vw_fetching := True, vw_tried := Some now\<rparr> else v)
           in if \<not> vw_fetching v1 \<or> (\<not> miss \<and> vw_fetched v1 \<noteq> None) then v1
              else case w of None \<Rightarrow> v1 | Some (answer, ended) \<Rightarrow> fetch answer ended v1)"

definition Invalidate :: "LiveView \<Rightarrow> LiveView" where
  "Invalidate v = v\<lparr>vw_fetched := None, vw_tried := None\<rparr>"

section \<open>Lookups\<close>

definition view_owner :: "LiveView \<Rightarrow> TunLiveTunnel option \<Rightarrow> (TunLiveTunnel \<times> TunRelay) option" where
  "view_owner v t0 =
     (case t0 of
        None \<Rightarrow> None
      | Some t \<Rightarrow>
          (case map_of (vw_relays v) (tl_RelayId t) of
             None \<Rightarrow> None
           | Some r \<Rightarrow> if rl_State r = TUN_RELAY_STATE_DOWN \<or> rl_PodIp r = [] then None else Some (t, r)))"

definition viewKey :: "Rules \<Rightarrow> string \<Rightarrow> string" where
  "viewKey rules host0 = (let host = ToLower host0; name = TunnelName rules host in if name \<noteq> [] then name else host)"

text \<open>The first of the key and its wildcards that the index has.\<close>

definition lookupKey :: "LiveView \<Rightarrow> string \<Rightarrow> TunLiveTunnel option" where
  "lookupKey v key =
     (case find (\<lambda>k. map_of (vw_byName v) k \<noteq> None) (key # WildcardsOf key) of
        None \<Rightarrow> None | Some k \<Rightarrow> map_of (vw_byName v) k)"

definition view_Tunnel ::
    "Rules \<Rightarrow> string \<Rightarrow> string \<Rightarrow> int \<Rightarrow> waited \<Rightarrow> waited \<Rightarrow> LiveView \<Rightarrow> (TunLiveTunnel \<times> TunRelay) option \<times> LiveView" where
  "view_Tunnel rules host stale now w1 w2 v =
     (let key = viewKey rules host;
          v1 = ensure (vw_ttl v) False now w1 v;
          found = view_owner v1 (lookupKey v1 key)
      in if (case found of None \<Rightarrow> True | Some (t, _) \<Rightarrow> stale \<noteq> [] \<and> tl_RelayId t = stale)
         then let v2 = ensure liveRefetchMin True now w2 v1 in (view_owner v2 (lookupKey v2 key), v2)
         else (found, v1))"

definition TunnelByPort ::
    "int \<Rightarrow> int \<Rightarrow> waited \<Rightarrow> waited \<Rightarrow> LiveView \<Rightarrow> (TunLiveTunnel \<times> TunRelay) option \<times> LiveView" where
  "TunnelByPort port now w1 w2 v =
     (let v1 = ensure (vw_ttl v) False now w1 v; found = view_owner v1 (map_of (vw_byPort v1) port)
      in if found = None
         then let v2 = ensure liveRefetchMin True now w2 v1 in (view_owner v2 (map_of (vw_byPort v2) port), v2)
         else (found, v1))"

definition view_Relays :: "int \<Rightarrow> waited \<Rightarrow> LiveView \<Rightarrow> TunRelay list \<times> LiveView" where
  "view_Relays now w v =
     (let v1 = ensure (vw_ttl v) False now w v
      in (filter (\<lambda>r. rl_State r \<noteq> TUN_RELAY_STATE_DOWN) (map snd (vw_relays v1)), v1))"

section \<open>The edge's questions\<close>

definition live_target :: "TunRelay \<Rightarrow> RelayTarget" where
  "live_target r = \<lparr>rt_ID = rl_RelayId r, rt_IP = rl_PodIp r, rt_Sessions = rl_Sessions r,
     rt_Draining = (rl_State r = TUN_RELAY_STATE_DRAINING)\<rparr>"

definition live_Relays :: "int \<Rightarrow> waited \<Rightarrow> LiveView \<Rightarrow> RelayTarget list" where
  "live_Relays now w v = map live_target (filter (\<lambda>r. rl_PodIp r \<noteq> []) (fst (view_Relays now w v)))"

definition OwnerOfHost :: "Rules \<Rightarrow> int \<Rightarrow> waited \<Rightarrow> waited \<Rightarrow> LiveView \<Rightarrow> string \<Rightarrow> RelayTarget option" where
  "OwnerOfHost rules now w1 w2 v host = map_option (\<lambda>(_, r). live_target r) (fst (view_Tunnel rules host [] now w1 w2 v))"

definition OwnerOfPort :: "int \<Rightarrow> waited \<Rightarrow> waited \<Rightarrow> LiveView \<Rightarrow> int \<Rightarrow> (RelayTarget \<times> string) option" where
  "OwnerOfPort now w1 w2 v port =
     map_option (\<lambda>(t, r). (live_target r, tl_Name t)) (fst (TunnelByPort (int32 port) now w1 w2 v))"

text \<open>The answers at one moment, as the edge takes them.\<close>

definition edgeLive :: "Rules \<Rightarrow> int \<Rightarrow> waited \<Rightarrow> waited \<Rightarrow> LiveView \<Rightarrow> Live" where
  "edgeLive rules now w1 w2 v =
     \<lparr>lv_Relays = live_Relays now w1 v, lv_OwnerOfHost = OwnerOfHost rules now w1 w2 v, lv_OwnerOfPort = OwnerOfPort now w1 w2 v\<rparr>"

section \<open>What a fetched copy holds\<close>

lemma indexTunnel_port:
  "map_of (snd (indexTunnel t (bn, bp))) p = (if listed t \<and> tl_PublicPort t = p \<and> p \<noteq> 0 then Some t else map_of bp p)"
  by (auto simp: indexTunnel_def)

lemma indexTunnels_port_some:
  "map_of (snd (fold indexTunnel ts (bn, bp))) p = Some t \<Longrightarrow>
     (t \<in> set ts \<and> listed t \<and> tl_PublicPort t = p \<and> p \<noteq> 0) \<or> map_of bp p = Some t"
proof (induction ts arbitrary: bn bp)
  case (Cons u us)
  obtain bn1 bp1 where i: "indexTunnel u (bn, bp) = (bn1, bp1)" by fastforce
  then have "map_of bp1 p = (if listed u \<and> tl_PublicPort u = p \<and> p \<noteq> 0 then Some u else map_of bp p)"
    using indexTunnel_port [of u bn bp p] by simp
  then show ?case using Cons.IH [of bn1 bp1] Cons.prems i by (auto split: if_splits)
qed simp

lemma indexTunnels_port_none:
  "map_of (snd (fold indexTunnel ts (bn, bp))) p = None \<Longrightarrow>
     map_of bp p = None \<and> (\<forall>t\<in>set ts. \<not> (listed t \<and> tl_PublicPort t = p \<and> p \<noteq> 0))"
proof (induction ts arbitrary: bn bp)
  case (Cons u us)
  obtain bn1 bp1 where i: "indexTunnel u (bn, bp) = (bn1, bp1)" by fastforce
  then have "map_of bp1 p = (if listed u \<and> tl_PublicPort u = p \<and> p \<noteq> 0 then Some u else map_of bp p)"
    using indexTunnel_port [of u bn bp p] by simp
  then show ?case using Cons.IH [of bn1 bp1] Cons.prems i by (auto split: if_splits)
qed simp

lemma indexRelays_some:
  "map_of (fold indexRelay rs m) i = Some r \<Longrightarrow>
     (r \<in> set rs \<and> rl_RelayId r = i \<and> i \<noteq> [] \<and> \<not> rl_Simulated r) \<or> map_of m i = Some r"
proof (induction rs arbitrary: m)
  case (Cons u us)
  have "map_of (indexRelay u m) i = Some r \<Longrightarrow>
      (u = r \<and> rl_RelayId r = i \<and> i \<noteq> [] \<and> \<not> rl_Simulated r) \<or> map_of m i = Some r"
    by (auto simp: indexRelay_def split: if_splits)
  then show ?case using Cons.IH [of "indexRelay u m"] Cons.prems by auto
qed simp

text \<open>A copy read from the registry: the tables of a state of the engine.\<close>

definition tables_of :: "Engine \<Rightarrow> tables" where
  "tables_of e = (let (tunnels, _, relays) = Snapshot e in (tunnels, relays))"

definition copy_of :: "Engine \<Rightarrow> LiveView \<Rightarrow> bool" where
  "copy_of e v \<longleftrightarrow> (vw_byName v, vw_byPort v) = fold indexTunnel (fst (tables_of e)) ([], []) \<and>
     vw_relays v = fold indexRelay (snd (tables_of e)) []"

lemma fetch_copy: "copy_of e (fetch (Some (tables_of e)) now v)"
  by (simp add: copy_of_def fetch_def split: prod.splits)

lemma copy_of_maps:
  assumes "copy_of e v"
  shows "vw_byPort v = snd (fold indexTunnel (map snd (eng_tunnels e)) ([], []))"
    "vw_relays v = fold indexRelay (map snd (eng_relays e)) []"
  using assms unfolding copy_of_def tables_of_def Snapshot_def by (simp_all, metis snd_conv)

lemma copy_port_tunnel:
  assumes "eng_excl e" "copy_of e v"
  shows "map_of (vw_byPort v) p = Some t \<longleftrightarrow> tun e (tl_Name t) = Some t \<and> listed t \<and> tl_PublicPort t = p \<and> p \<noteq> 0"
proof
  have inv: "eng_inv e" using assms(1) by (simp add: eng_excl_def)
  have mem: "t \<in> snd ` set (eng_tunnels e) \<longleftrightarrow> tun e (tl_Name t) = Some t" for t
    using inv map_of_ran_set [of "eng_tunnels e" t] by (auto simp: eng_inv_def eng_wf_def)
  have some: "map_of (vw_byPort v) q = Some s \<Longrightarrow> tun e (tl_Name s) = Some s \<and> listed s \<and> tl_PublicPort s = q \<and> q \<noteq> 0" for q s
    using indexTunnels_port_some [of "map snd (eng_tunnels e)" "[]" "[]" q s] mem by (simp add: copy_of_maps(1) [OF assms(2)])
  show "tun e (tl_Name t) = Some t \<and> listed t \<and> tl_PublicPort t = p \<and> p \<noteq> 0" if "map_of (vw_byPort v) p = Some t"
    using some [OF that] .
  show "map_of (vw_byPort v) p = Some t" if t: "tun e (tl_Name t) = Some t \<and> listed t \<and> tl_PublicPort t = p \<and> p \<noteq> 0"
  proof -
    have "t \<in> set (map snd (eng_tunnels e))" using t mem by simp
    then have "map_of (vw_byPort v) p \<noteq> None"
      using indexTunnels_port_none [of "map snd (eng_tunnels e)" "[]" "[]" p] t unfolding copy_of_maps(1) [OF assms(2)] by blast
    then obtain s where s: "map_of (vw_byPort v) p = Some s" by blast
    have "port_owner e p = Some (tl_Name s)" "port_owner e p = Some (tl_Name t)"
      using some [OF s] t excl_port [OF assms(1)] by metis+
    then have "s = t" using some [OF s] t by simp
    then show ?thesis using s by simp
  qed
qed

lemma copy_relay:
  assumes "eng_inv e" "copy_of e v" "map_of (vw_relays v) i = Some r"
  shows "map_of (eng_relays e) i = Some r \<and> \<not> rl_Simulated r"
proof -
  have r: "r \<in> snd ` set (eng_relays e)" "rl_RelayId r = i" "\<not> rl_Simulated r"
    using indexRelays_some [of "map snd (eng_relays e)" "[]" i r] assms(3) by (auto simp: copy_of_maps(2) [OF assms(2)])
  then show ?thesis
    using assms(1) map_of_ran_set [of "eng_relays e" r] by (auto simp: eng_inv_def eng_wf_def)
qed

text \<open>A lookup answers from the copy it has, or from one it waited for.\<close>

lemma ensure_copy:
  assumes "copy_of e v" "w \<in> {None, Some (None, t), Some (Some (tables_of e), t)}"
  shows "copy_of e (ensure age miss now w v)"
proof -
  have keep: "copy_of e (v\<lparr>vw_fetching := b, vw_tried := u\<rparr>)" "copy_of e (v\<lparr>vw_fetching := b\<rparr>)" for b u
    using assms(1) by (simp_all add: copy_of_def)
  then have "copy_of e (fetch None t v)" "copy_of e (fetch None t (v\<lparr>vw_fetching := b, vw_tried := u\<rparr>))" for b u
    using assms(1) by (simp_all add: fetch_def copy_of_def)
  then show ?thesis
    using assms keep fetch_copy by (auto simp: ensure_def Let_def)
qed

lemma TunnelByPort_copy:
  assumes "copy_of e v" "w1 \<in> {None, Some (None, t), Some (Some (tables_of e), t)}" "w2 \<in> {None, Some (None, t), Some (Some (tables_of e), t)}"
    and "TunnelByPort port now w1 w2 v = (res, v')"
  shows "copy_of e v' \<and> res = view_owner v' (map_of (vw_byPort v') port)"
  using assms(4) ensure_copy [OF assms(1,2)] ensure_copy [OF ensure_copy [OF assms(1,2)] assms(3)]
  by (auto simp: TunnelByPort_def Let_def split: if_splits)

lemma view_owner_Some:
  "view_owner v t0 = Some (t, r) \<longleftrightarrow>
     t0 = Some t \<and> map_of (vw_relays v) (tl_RelayId t) = Some r \<and> rl_State r \<noteq> TUN_RELAY_STATE_DOWN \<and> rl_PodIp r \<noteq> []"
  by (auto simp: view_owner_def split: option.splits if_splits)

text \<open>The port's tunnel in the registry, and its relay.\<close>

lemma OwnerOfPort_registry:
  assumes "eng_excl e" "copy_of e v" "w1 \<in> {None, Some (None, t), Some (Some (tables_of e), t)}" "w2 \<in> {None, Some (None, t), Some (Some (tables_of e), t)}"
    and "OwnerOfPort now w1 w2 v port = Some (relay, name)" "1 \<le> port" "port \<le> 65535"
  shows "\<exists>tl r. tun e name = Some tl \<and> listed tl \<and> tl_PublicPort tl = port \<and>
    map_of (eng_relays e) (tl_RelayId tl) = Some r \<and> rl_State r \<noteq> TUN_RELAY_STATE_DOWN \<and> relay = live_target r"
proof -
  have port: "int32 port = port" using assms(6,7) by (simp add: int32_def)
  obtain tl r v' where l: "TunnelByPort port now w1 w2 v = (Some (tl, r), v')" "relay = live_target r" "name = tl_Name tl"
    using assms(5) port by (cases "TunnelByPort port now w1 w2 v") (auto simp: OwnerOfPort_def)
  have c: "copy_of e v'" "view_owner v' (map_of (vw_byPort v') port) = Some (tl, r)"
    using TunnelByPort_copy [OF assms(2-4) l(1)] by simp_all
  then show ?thesis
    using copy_port_tunnel [OF assms(1) c(1), of port tl] copy_relay [OF _ c(1)] assms(1) l
    by (auto simp: view_owner_Some eng_excl_def)
qed

section \<open>A registry that does not answer\<close>

text \<open>A failed fetch leaves what lookups see unchanged.\<close>

lemma fetch_None [simp]:
  "vw_byName (fetch None now v) = vw_byName v" "vw_byPort (fetch None now v) = vw_byPort v"
  "vw_relays (fetch None now v) = vw_relays v" "vw_fetched (fetch None now v) = vw_fetched v" "vw_tried (fetch None now v) = vw_tried v"
  by (simp_all add: fetch_def)

lemma ensure_down:
  assumes "w \<in> {None, Some (None, t)}"
  shows "vw_byName (ensure age miss now w v) = vw_byName v" "vw_byPort (ensure age miss now w v) = vw_byPort v"
    "vw_relays (ensure age miss now w v) = vw_relays v" "vw_fetched (ensure age miss now w v) = vw_fetched v"
  using assms by (auto simp: ensure_def Let_def)

text \<open>Fetches start at least \<^const>\<open>liveRefetchMin\<close> apart.\<close>

lemma ensure_backoff:
  assumes "vw_tried (ensure age miss now w v) \<noteq> vw_tried v" "vw_tried v = Some s"
  shows "now - s \<ge> liveRefetchMin \<and> vw_tried (ensure age miss now w v) = Some now"
  using assms by (auto simp: ensure_def Let_def since_less_def fetch_def split: if_splits option.splits prod.splits)

end
