(* ===== verification/Relay_Session.thy ===== *)
theory Relay_Session
  imports Relay_Registry_Inv Auth_Token Http_Proxy
begin

text \<open>
  Agent sessions on a relay: authenticating an agent and opening its tunnels
  (\<open>go/tunnel/relay/session.go\<close>, \<open>tunnel.go\<close>, and the claim of
  \<open>cluster.go\<close>).  Tunnels are objects in a heap \<open>sv_tunnels\<close>; a session is
  known to the registry by its address.  Binding a port, the token store,
  bcrypt, random IDs and the cluster's registry are parameters.  The handlers
  are single steps; how steps of several sessions interleave on the registry is
  the subject of \<open>reg_step\<close>.
\<close>

section \<open>Types\<close>

datatype ErrorCode =
    ERROR_CODE_UNSPECIFIED
  | ERROR_CODE_UNAUTHORIZED
  | ERROR_CODE_UNSUPPORTED_VERSION
  | ERROR_CODE_INVALID_REQUEST
  | ERROR_CODE_UNSUPPORTED_TUNNEL_TYPE
  | ERROR_CODE_NAME_TAKEN
  | ERROR_CODE_PORT_NOT_ALLOWED
  | ERROR_CODE_PORT_UNAVAILABLE
  | ERROR_CODE_FORBIDDEN

text \<open>An error for the agent, or \<open>ErrClusterUnavailable\<close>.\<close>

datatype open_error =
    Remote ErrorCode
  | ClusterUnavailable

record TunnelSpec =
  sp_Name :: string
  sp_Type :: TunnelType
  sp_PublicPort :: int
  sp_Access :: AccessPolicy
  sp_Domains :: "string list"
  sp_PreviousPort :: int

record ClaimRequest =
  cr_SessionID :: string
  cr_AgentID :: string
  cr_TokenID :: string
  cr_MaxTunnels :: int
  cr_PortMin :: int
  cr_PortMax :: int
  cr_TunnelID :: string
  cr_Name :: string
  cr_Hostname :: string
  cr_Type :: TunnelType
  cr_Domains :: "string list"
  cr_PublicPort :: int
  cr_PreviousPort :: int
  cr_AccessToken :: bool

text \<open>The part of the relay's configuration the sessions read.  \<open>rc_Login\<close> is the
  login host and its providers.\<close>

record relay_Config =
  rc_BaseDomain :: string
  rc_ControlSNI :: string
  rc_Login :: "(string \<times> string list) option"
  rc_ReservedNames :: "string list"
  rc_PublicHost :: string
  rc_TCPPortMin :: int
  rc_TCPPortMax :: int
  rc_httpsPort :: int

definition relay_rules :: "relay_Config \<Rightarrow> Rules" where
  "relay_rules c = \<lparr>BaseDomain = rc_BaseDomain c, ControlSNI = rc_ControlSNI c,
     AuthHost = (case rc_Login c of None \<Rightarrow> [] | Some (host, _) \<Rightarrow> ToLower host),
     ReservedNames = rc_ReservedNames c, PortMin = rc_TCPPortMin c, PortMax = rc_TCPPortMax c\<rparr>"

record relay_env =
  re_now :: int
  re_bind :: "int \<Rightarrow> bool"
  re_cost_ok :: "string \<Rightarrow> bool"
  re_canServe :: "string \<Rightarrow> bool"
  re_cluster :: "(ClaimRequest \<Rightarrow> (open_error, int) result) option"

record tunnel =
  tn_session :: nat
  tn_res :: nat
  tn_existed :: bool
  tn_TunnelId :: string
  tn_Name :: string
  tn_Type :: TunnelType
  tn_Hostname :: string
  tn_Domains :: "string list"
  tn_PublicPort :: int
  tn_PublicAddress :: string
  tn_listening :: bool
  tn_access :: Access

datatype DisconnectReason =
    ReasonAgentClosed
  | ReasonHeartbeat
  | ReasonTokenRevoked
  | ReasonDrained
  | ReasonTakeover
  | ReasonOperator

text \<open>\<open>as_ready\<close>: the handshake has set the token and the agent's ID, which
  mean nothing before.\<close>

record agentSession =
  as_addr :: nat
  as_id :: string
  as_ready :: bool
  as_token :: TokenRecord
  as_agentID :: string
  as_lastSeen :: int
  as_rttMicros :: int
  as_reason :: DisconnectReason
  as_tunnels :: "nat list"

text \<open>The relay's calls to the cluster, in their order.\<close>

datatype cluster_call =
    ParkTunnels string "string list"
  | ReleaseTunnels string "string list"
  | AgentUp string string string
  | AgentDown string string DisconnectReason

text \<open>\<open>sv_http\<close>: the tunnels the HTTP proxy has cached transports for.\<close>

record relay_Server =
  sv_registry :: nameRegistry
  sv_tunnels :: "(nat, tunnel) gomap"
  sv_next :: nat
  sv_http :: "(string, nat) gomap"
  sv_calls :: "cluster_call list"

section \<open>Authentication\<close>

datatype auth_error =
    Unauthorized
  | CertRequired
  | LookupFailed

text \<open>\<open>tokens\<close> is the token store: \<^const>\<open>None\<close> when the lookup failed, else the record
  if there is one.  A client certificate is its URIs and its serial.\<close>

definition verifyToken ::
    "(string \<Rightarrow> TokenRecord option option) \<Rightarrow> (string \<Rightarrow> string \<Rightarrow> bool) \<Rightarrow> string \<Rightarrow> (auth_error, TokenRecord) result" where
  "verifyToken tokens compare token =
     (case ParseToken token of
        Inl _ \<Rightarrow> Err Unauthorized
      | Inr (ident, secret) \<Rightarrow>
          (case tokens ident of
             None \<Rightarrow> Err LookupFailed
           | Some None \<Rightarrow> Err Unauthorized
           | Some (Some rec) \<Rightarrow> if Verify compare rec secret then Ok rec else Err Unauthorized))"

definition certToken ::
    "(string \<Rightarrow> TokenRecord option option) \<Rightarrow> string list \<times> string \<Rightarrow> (auth_error, TokenRecord) result" where
  "certToken tokens = (\<lambda>(uris, serial0).
     case CertIdentity uris serial0 of
       None \<Rightarrow> Err Unauthorized
     | Some (ident, serial) \<Rightarrow>
         (case tokens ident of
            None \<Rightarrow> Err LookupFailed
          | Some None \<Rightarrow> Err Unauthorized
          | Some (Some rec) \<Rightarrow> if HasCertSerial rec serial then Ok rec else Err Unauthorized))"

definition authenticate ::
    "(string \<Rightarrow> TokenRecord option option) \<Rightarrow> (string \<Rightarrow> string \<Rightarrow> bool) \<Rightarrow> string \<Rightarrow> (string list \<times> string) option \<Rightarrow>
     (auth_error, TokenRecord) result" where
  "authenticate tokens compare token peer =
     (case (case peer of None \<Rightarrow> Ok None | Some cert \<Rightarrow> map_sum id Some (certToken tokens cert)) of
        Inl e \<Rightarrow> Err e
      | Inr byCert \<Rightarrow>
          if token = [] then (case byCert of None \<Rightarrow> Err Unauthorized | Some rec \<Rightarrow> Ok rec)
          else case verifyToken tokens compare token of
                 Inl e \<Rightarrow> Err e
               | Inr rec \<Rightarrow>
                   (case byCert of
                      Some c \<Rightarrow> if tk_ID c \<noteq> tk_ID rec then Err Unauthorized else Ok rec
                    | None \<Rightarrow> if RequireCert (tk_Policy rec) then Err CertRequired else Ok rec))"

section \<open>Checking a tunnel\<close>

definition hasPublicPort :: "TunnelType \<Rightarrow> bool" where
  "hasPublicPort t \<longleftrightarrow> t = TUNNEL_TYPE_TCP \<or> t = TUNNEL_TYPE_SSH"

definition checkAccess :: "relay_Config \<Rightarrow> relay_env \<Rightarrow> TunnelType \<Rightarrow> TunnelSpec \<Rightarrow> (open_error, Access) result" where
  "checkAccess cfg env typ spec =
     (case ValidateSpecAccess (re_cost_ok env) typ (sp_PublicPort spec) (sp_Access spec) of
        Inl _ \<Rightarrow> Err (Remote ERROR_CODE_INVALID_REQUEST)
      | Inr access \<Rightarrow>
          (case ac_oidc access of
             None \<Rightarrow> Ok access
           | Some rule \<Rightarrow>
               if (case rc_Login cfg of None \<Rightarrow> True | Some (_, providers) \<Rightarrow> Provider rule \<notin> set providers)
               then Err (Remote ERROR_CODE_INVALID_REQUEST) else Ok access))"

fun checkDomainLoop ::
    "relay_Config \<Rightarrow> relay_env \<Rightarrow> Policy \<Rightarrow> TunnelType \<Rightarrow> string list \<Rightarrow> string list \<Rightarrow> (open_error, string list) result" where
  "checkDomainLoop cfg env policy typ [] out = Ok out"
| "checkDomainLoop cfg env policy typ (raw # raws) out =
     (case NormalizeTunnelDomain raw of
        None \<Rightarrow> Err (Remote ERROR_CODE_INVALID_REQUEST)
      | Some d \<Rightarrow>
          if IsWildcardDomain d \<and> typ \<noteq> TUNNEL_TYPE_TLS then Err (Remote ERROR_CODE_INVALID_REQUEST)
          else if d = rc_BaseDomain cfg \<or> HasSuffix d (''.'' @ rc_BaseDomain cfg) \<or> d = rc_ControlSNI cfg
          then Err (Remote ERROR_CODE_INVALID_REQUEST)
          else if \<not> AllowsDomain policy d then Err (Remote ERROR_CODE_FORBIDDEN)
          else if typ = TUNNEL_TYPE_HTTP \<and> \<not> re_canServe env d then Err (Remote ERROR_CODE_INVALID_REQUEST)
          else checkDomainLoop cfg env policy typ raws (if d \<in> set out then out else out @ [d]))"

definition checkDomains ::
    "relay_Config \<Rightarrow> relay_env \<Rightarrow> Policy \<Rightarrow> TunnelType \<Rightarrow> TunnelSpec \<Rightarrow> (open_error, string list) result" where
  "checkDomains cfg env policy typ spec =
     (if sp_Domains spec = [] then Ok []
      else if typ \<noteq> TUNNEL_TYPE_HTTP \<and> typ \<noteq> TUNNEL_TYPE_TLS then Err (Remote ERROR_CODE_INVALID_REQUEST)
      else checkDomainLoop cfg env policy typ (sp_Domains spec) [])"

section \<open>Public ports\<close>

definition tryListen :: "relay_env \<Rightarrow> int \<Rightarrow> nameRegistry \<Rightarrow> bool \<times> nameRegistry" where
  "tryListen env port r =
     (let (ok, r1) = reg_reservePort port r in
      if \<not> ok then (False, r1) else if re_bind env port then (True, r1) else (False, reg_releasePort port r1))"

text \<open>The loop over the range: the first port that could be bound.\<close>

fun firstPort :: "relay_env \<Rightarrow> int list \<Rightarrow> nameRegistry \<Rightarrow> int option \<times> nameRegistry" where
  "firstPort env [] r = (None, r)"
| "firstPort env (port # ports) r =
     (let (ok, r1) = tryListen env port r in if ok then (Some port, r1) else firstPort env ports r1)"

definition portError :: "RuleError \<Rightarrow> open_error" where
  "portError e = (if e = ErrPortOutsideRange then Remote ERROR_CODE_PORT_NOT_ALLOWED else Remote ERROR_CODE_FORBIDDEN)"

definition listenTunnelPort ::
    "relay_Config \<Rightarrow> relay_env \<Rightarrow> nat \<Rightarrow> int \<Rightarrow> int \<Rightarrow> Policy \<Rightarrow> nameRegistry \<Rightarrow> (open_error, int) result \<times> nameRegistry" where
  "listenTunnelPort cfg env i requested previous policy r =
     (let held = reg_portOf r i in
      if held \<noteq> 0 \<and> (requested = 0 \<or> requested = held)
      then (if re_bind env held then Ok held else Err (Remote ERROR_CODE_PORT_UNAVAILABLE), r)
      else if requested \<noteq> 0
      then (case CheckRequestedPort (relay_rules cfg) requested policy of
              Inl e \<Rightarrow> (Err (portError e), r)
            | Inr _ \<Rightarrow>
                (let (ok, r1) = tryListen env requested r in
                 if ok then (Ok requested, reg_setPort i requested r1) else (Err (Remote ERROR_CODE_PORT_UNAVAILABLE), r1)))
      else (case AllocationRange (relay_rules cfg) policy of
              Inl _ \<Rightarrow> (Err (Remote ERROR_CODE_FORBIDDEN), r)
            | Inr (lo, hi) \<Rightarrow>
                (case firstPort env ((if lo \<le> previous \<and> previous \<le> hi then [previous] else []) @ [lo..hi]) r of
                   (Some port, r1) \<Rightarrow> (Ok port, reg_setPort i port r1)
                 | (None, r1) \<Rightarrow> (Err (Remote ERROR_CODE_PORT_UNAVAILABLE), r1))))"

section \<open>Opening a tunnel\<close>

definition httpsHost :: "relay_Config \<Rightarrow> string \<Rightarrow> string" where
  "httpsHost cfg host = (if rc_httpsPort cfg \<noteq> 443 then JoinHostPort host (rc_httpsPort cfg) else host)"

definition setEndpointAddress :: "relay_Config \<Rightarrow> int \<Rightarrow> tunnel \<Rightarrow> tunnel" where
  "setEndpointAddress cfg port t =
     (if hasPublicPort (tn_Type t) \<and> \<not> RequiresToken (tn_access t)
      then t\<lparr>tn_PublicPort := port, tn_PublicAddress := JoinHostPort (rc_PublicHost cfg) port\<rparr>
      else if tn_Type t = TUNNEL_TYPE_HTTP then t\<lparr>tn_PublicAddress := ''https://'' @ httpsHost cfg (tn_Hostname t)\<rparr>
      else t\<lparr>tn_PublicAddress := JoinHostPort (tn_Hostname t) (rc_httpsPort cfg)\<rparr>)"

definition claimRequest :: "agentSession \<Rightarrow> tunnel \<Rightarrow> TunnelSpec \<Rightarrow> Policy \<Rightarrow> int \<Rightarrow> int \<Rightarrow> ClaimRequest" where
  "claimRequest sess t spec policy lo hi =
     \<lparr>cr_SessionID = as_id sess, cr_AgentID = as_agentID sess, cr_TokenID = tk_ID (as_token sess),
      cr_MaxTunnels = MaxTunnels policy, cr_PortMin = lo, cr_PortMax = hi, cr_TunnelID = tn_TunnelId t,
      cr_Name = tn_Name t, cr_Hostname = tn_Hostname t, cr_Type = tn_Type t, cr_Domains = tn_Domains t,
      cr_PublicPort = sp_PublicPort spec, cr_PreviousPort = sp_PreviousPort spec, cr_AccessToken = RequiresToken (tn_access t)\<rparr>"

definition claimInCluster ::
    "relay_Config \<Rightarrow> (ClaimRequest \<Rightarrow> (open_error, int) result) \<Rightarrow> agentSession \<Rightarrow> tunnel \<Rightarrow> TunnelSpec \<Rightarrow> Policy \<Rightarrow>
     (open_error, int) result" where
  "claimInCluster cfg ClaimTunnel sess t spec policy =
     (let requested = sp_PublicPort spec;
          bad = (if requested \<noteq> 0 \<and> hasPublicPort (tn_Type t)
                 then (case CheckRequestedPort (relay_rules cfg) requested policy of Inl e \<Rightarrow> Some e | Inr _ \<Rightarrow> None) else None)
      in case bad of
           Some e \<Rightarrow> Err (portError e)
         | None \<Rightarrow>
             (case AllocationRange (relay_rules cfg) policy of
                Inl _ \<Rightarrow> if hasPublicPort (tn_Type t) then Err (Remote ERROR_CODE_FORBIDDEN)
                         else ClaimTunnel (claimRequest sess t spec policy 0 0)
              | Inr (lo, hi) \<Rightarrow> ClaimTunnel (claimRequest sess t spec policy lo hi)))"

text \<open>The checks before anything is claimed: the parsed access policy, the name
  and the custom domains.\<close>

definition openChecks ::
    "relay_Config \<Rightarrow> relay_env \<Rightarrow> agentSession \<Rightarrow> TunnelSpec \<Rightarrow> string \<Rightarrow> (open_error, Access \<times> string \<times> string list) result" where
  "openChecks cfg env sess spec randomName =
     (let typ = sp_Type spec; policy = tk_Policy (as_token sess) in
      if typ = TUNNEL_TYPE_UNSPECIFIED then Err (Remote ERROR_CODE_INVALID_REQUEST)
      else if \<not> AllowsType policy (TunnelTypeName typ) then Err (Remote ERROR_CODE_FORBIDDEN)
      else case checkAccess cfg env typ spec of
             Inl e \<Rightarrow> Err e
           | Inr access \<Rightarrow>
               (let name = (if sp_Name spec = [] then ''t-'' @ randomName else sp_Name spec) in
                if \<not> ValidName name then Err (Remote ERROR_CODE_INVALID_REQUEST)
                else if \<not> AllowsName policy name then Err (Remote ERROR_CODE_FORBIDDEN)
                else if IsReserved (relay_rules cfg) name then Err (Remote ERROR_CODE_INVALID_REQUEST)
                else map_sum id (\<lambda>domains. (access, name, domains)) (checkDomains cfg env policy typ spec)))"

text \<open>The switch that gives the tunnel its public address: claimed in the
  cluster, a port of its own, or the shared TLS port.\<close>

definition openAddress ::
    "relay_Config \<Rightarrow> relay_env \<Rightarrow> agentSession \<Rightarrow> TunnelSpec \<Rightarrow> tunnel \<Rightarrow> nameRegistry \<Rightarrow> (open_error, tunnel) result \<times> nameRegistry" where
  "openAddress cfg env sess spec t r =
     (let policy = tk_Policy (as_token sess) in
      case re_cluster env of
        Some ClaimTunnel \<Rightarrow> (map_sum id (\<lambda>port. setEndpointAddress cfg port t) (claimInCluster cfg ClaimTunnel sess t spec policy), r)
      | None \<Rightarrow>
          if hasPublicPort (tn_Type t) \<and> \<not> RequiresToken (tn_access t)
          then (case listenTunnelPort cfg env (tn_res t) (sp_PublicPort spec) (sp_PreviousPort spec) policy r of
                  (Inl e, r1) \<Rightarrow> (Err e, r1)
                | (Inr port, r1) \<Rightarrow>
                    (Ok (t\<lparr>tn_listening := True, tn_PublicPort := port, tn_PublicAddress := JoinHostPort (rc_PublicHost cfg) port\<rparr>), r1))
          else if tn_Type t = TUNNEL_TYPE_HTTP then (Ok (t\<lparr>tn_PublicAddress := ''https://'' @ httpsHost cfg (tn_Hostname t)\<rparr>), r)
          else (Ok (t\<lparr>tn_PublicAddress := JoinHostPort (tn_Hostname t) (rc_httpsPort cfg)\<rparr>), r))"

text \<open>\<open>ids\<close> are the random name and the tunnel's ID.  A takeover closes the tunnel of
  the session that had the name; the registry lists it in \<open>reg_closedTunnels\<close>.\<close>

definition openTunnel ::
    "relay_Config \<Rightarrow> relay_env \<Rightarrow> agentSession \<Rightarrow> TunnelSpec \<times> string \<times> string \<Rightarrow> relay_Server \<Rightarrow> (open_error, nat) result \<times> relay_Server" where
  "openTunnel cfg env sess = (\<lambda>(spec, randomName, tunnelID) s.
     case openChecks cfg env sess spec randomName of
       Inl e \<Rightarrow> (Err e, s)
     | Inr (access, name, domains) \<Rightarrow>
         (case reg_claim name (sp_Type spec) (tk_ID (as_token sess)) (as_agentID sess) (as_addr sess)
                 (MaxTunnels (tk_Policy (as_token sess))) (sv_registry s) of
            (Inl e, r1) \<Rightarrow>
              (Err (Remote (if e = ErrMaxTunnels then ERROR_CODE_FORBIDDEN else ERROR_CODE_NAME_TAKEN)), s\<lparr>sv_registry := r1\<rparr>)
          | (Inr (i, existed), r1) \<Rightarrow>
              (case reg_setDomains i domains r1 of
                 (Inl _, r2) \<Rightarrow>
                   (Err (Remote ERROR_CODE_NAME_TAKEN), s\<lparr>sv_registry := reg_rollback (re_now env) i (as_addr sess) existed r2\<rparr>)
               | (Inr _, r2) \<Rightarrow>
                   (let t0 = \<lparr>tn_session = as_addr sess, tn_res = i, tn_existed = existed, tn_TunnelId = tunnelID, tn_Name = name,
                              tn_Type = sp_Type spec, tn_Hostname = name @ ''.'' @ rc_BaseDomain cfg, tn_Domains = domains,
                              tn_PublicPort = 0, tn_PublicAddress = [], tn_listening = False, tn_access = access\<rparr>
                    in case openAddress cfg env sess spec t0 r2 of
                         (Inl e, r3) \<Rightarrow> (Err e, s\<lparr>sv_registry := reg_rollback (re_now env) i (as_addr sess) existed r3\<rparr>)
                       | (Inr t, r3) \<Rightarrow>
                           (Ok (sv_next s), s\<lparr>sv_registry := reg_activate i (sv_next s) r3,
                              sv_tunnels := AList.update (sv_next s) t (sv_tunnels s), sv_next := Suc (sv_next s)\<rparr>)))))"

section \<open>Registering and leaving\<close>

definition tunnel_at :: "relay_Server \<Rightarrow> nat \<Rightarrow> tunnel" where
  "tunnel_at s a = the (map_of (sv_tunnels s) a)"

definition tunnel_close :: "nat \<Rightarrow> relay_Server \<Rightarrow> relay_Server" where
  "tunnel_close a s = s\<lparr>sv_tunnels := AList.update a ((tunnel_at s a)\<lparr>tn_listening := False\<rparr>) (sv_tunnels s),
     sv_http := Forget (tn_TunnelId (tunnel_at s a)) (sv_http s)\<rparr>"

definition undoTunnel :: "relay_env \<Rightarrow> agentSession \<Rightarrow> nat \<Rightarrow> relay_Server \<Rightarrow> relay_Server" where
  "undoTunnel env sess a s =
     (let s1 = tunnel_close a s; t = tunnel_at s1 a
      in s1\<lparr>sv_registry := reg_rollback (re_now env) (tn_res t) (as_addr sess) (tn_existed t) (sv_registry s1)\<rparr>)"

definition undoAll :: "relay_env \<Rightarrow> agentSession \<Rightarrow> nat list \<Rightarrow> relay_Server \<Rightarrow> relay_Server" where
  "undoAll env sess opened s =
     (let s1 = fold (undoTunnel env sess) opened s; names = map (\<lambda>a. tn_Name (tunnel_at s a)) opened
      in if re_cluster env \<noteq> None \<and> names \<noteq> [] then s1\<lparr>sv_calls := sv_calls s1 @ [ReleaseTunnels (as_id sess) names]\<rparr> else s1)"

fun registerLoop ::
    "relay_Config \<Rightarrow> relay_env \<Rightarrow> agentSession \<Rightarrow> (TunnelSpec \<times> string \<times> string) list \<Rightarrow> nat list \<Rightarrow> relay_Server \<Rightarrow>
     (open_error, nat list) result \<times> relay_Server" where
  "registerLoop cfg env sess [] opened s = (Ok opened, s)"
| "registerLoop cfg env sess (spec # specs) opened s =
     (case openTunnel cfg env sess spec s of
        (Inl e, s1) \<Rightarrow> (Err e, undoAll env sess opened s1)
      | (Inr a, s1) \<Rightarrow> registerLoop cfg env sess specs (opened @ [a]) s1)"

datatype reply =
    ErrorReply ErrorCode
  | Registered "nat list"
  | EndSession

definition register ::
    "relay_Config \<Rightarrow> relay_env \<Rightarrow> (TunnelSpec \<times> string \<times> string) list \<Rightarrow> agentSession \<times> relay_Server \<Rightarrow>
     reply \<times> agentSession \<times> relay_Server" where
  "register cfg env specs = (\<lambda>(sess, s).
     if specs = [] then (ErrorReply ERROR_CODE_INVALID_REQUEST, sess, s)
     else case registerLoop cfg env sess specs [] s of
            (Inl ClusterUnavailable, s1) \<Rightarrow> (EndSession, sess, s1)
          | (Inl (Remote code), s1) \<Rightarrow> (ErrorReply code, sess, s1)
          | (Inr opened, s1) \<Rightarrow> (Registered opened, sess\<lparr>as_tunnels := as_tunnels sess @ opened\<rparr>, s1))"

definition parkTunnel :: "relay_env \<Rightarrow> agentSession \<Rightarrow> nat \<Rightarrow> relay_Server \<Rightarrow> relay_Server" where
  "parkTunnel env sess a s =
     (let s1 = tunnel_close a s
      in s1\<lparr>sv_registry := reg_park (re_now env) (tn_res (tunnel_at s1 a)) (as_addr sess) (sv_registry s1)\<rparr>)"

definition closeTunnels :: "relay_env \<Rightarrow> agentSession \<times> relay_Server \<Rightarrow> agentSession \<times> relay_Server" where
  "closeTunnels env = (\<lambda>(sess, s).
     let s1 = fold (parkTunnel env sess) (as_tunnels sess) s; names = map (\<lambda>a. tn_Name (tunnel_at s a)) (as_tunnels sess)
     in (sess\<lparr>as_tunnels := []\<rparr>,
         if re_cluster env \<noteq> None \<and> names \<noteq> []
         then s1\<lparr>sv_calls := sv_calls s1 @ [(if as_reason sess = ReasonTokenRevoked then ReleaseTunnels else ParkTunnels) (as_id sess) names]\<rparr>
         else s1))"

end
