(* ===== verification/Relay_Session_Inv.thy ===== *)
theory Relay_Session_Inv
  imports Relay_Session
begin

text \<open>
  The session handlers use the relay's registry within its contract: each is a
  sequence of registry steps whose premises hold, touches one reservation at a
  time, and a failed registration leaves the session holding nothing new.
\<close>

section \<open>One reservation at a time\<close>

text \<open>The reservations a session holds.\<close>

definition held :: "nameRegistry \<Rightarrow> nat \<Rightarrow> nat set" where
  "held r sess = {i. live r i \<and> (\<exists>res. res_at r i = Some res \<and> res_session res = Some sess)}"

definition touches :: "nat \<Rightarrow> nameRegistry \<Rightarrow> nameRegistry \<Rightarrow> bool" where
  "touches i r r' \<longleftrightarrow> (\<forall>j. j \<noteq> i \<longrightarrow> res_at r' j = res_at r j \<and> live r' j = live r j)"

lemma touches_refl [simp]: "touches i r r"
  by (simp add: touches_def)

lemma touches_trans: "touches i r s \<Longrightarrow> touches i s t \<Longrightarrow> touches i r t"
  by (simp add: touches_def)

lemma touches_held: "touches i r r' \<Longrightarrow> j \<noteq> i \<Longrightarrow> j \<in> held r' sess \<longleftrightarrow> j \<in> held r sess"
  by (simp add: touches_def held_def)

lemma live_same:
  assumes "reg_names r' = reg_names r" "reg_heap r' = reg_heap r"
  shows "live r' = live r"
  using assms by (auto simp: live_def fun_eq_iff split: option.split)

lemma same_held:
  assumes "reg_names r' = reg_names r" "reg_heap r' = reg_heap r"
  shows "touches i r r'" "held r' sess = held r sess"
  unfolding touches_def held_def live_same [OF assms] assms(2) by simp_all

lemma upd_res_live:
  "(\<And>res. res_name (f res) = res_name res) \<Longrightarrow> live (upd_res i f r) j = live r j"
  by (simp add: live_def split: option.split)

lemma upd_res_touches:
  "(\<And>res. res_name (f res) = res_name res) \<Longrightarrow> touches i r (upd_res i f r)"
  by (simp add: touches_def upd_res_live)

lemma upd_res_held:
  "(\<And>res. res_name (f res) = res_name res) \<Longrightarrow> (\<And>res. res_session (f res) = res_session res) \<Longrightarrow>
   held (upd_res i f r) sess = held r sess"
  by (auto simp: held_def upd_res_live)

lemma deleteLocked_entry:
  "map_of (reg_names (deleteLocked i r)) n =
     (if map_option res_name (res_at r i) = Some n \<and> map_of (reg_names r) n = Some i then None
      else map_of (reg_names r) n)"
  by (cases "res_at r i") (auto simp: deleteLocked_def)

lemma deleteLocked_other: "j \<noteq> i \<Longrightarrow> res_at (deleteLocked i r) j = res_at r j"
  by (simp add: deleteLocked_res option.map_ident)

lemma deleteLocked_touches: "touches i r (deleteLocked i r)"
  unfolding touches_def live_def
  by (simp add: deleteLocked_other deleteLocked_entry split: option.split)

lemma deleteLocked_gone [simp]: "\<not> live (deleteLocked i r) i"
  by (cases "res_at r i") (simp_all add: live_def deleteLocked_res deleteLocked_entry)

lemma park_touches: "touches i r (reg_park now i sess r)"
proof (cases "res_at r i")
  case (Some res)
  let ?r1 = "upd_res i (\<lambda>res. res\<lparr>res_session := None, res_tunnel := None\<rparr>) r"
  have 1: "touches i r ?r1" by (rule upd_res_touches) simp
  have 2: "touches i r (upd_res i (\<lambda>res. res\<lparr>res_expires := e, res_timer := True\<rparr>) ?r1)" for e
    by (rule touches_trans [OF 1 upd_res_touches]) simp
  show ?thesis
    using 1 2 touches_trans [OF 1 deleteLocked_touches] Some by (simp add: reg_park_def Let_def)
qed (simp add: reg_park_def)

lemma park_lets_go [simp]: "i \<notin> held (reg_park now i sess r) sess"
proof (cases "res_at r i")
  case (Some res)
  then show ?thesis
    by (simp add: reg_park_def Let_def held_def)
qed (simp add: reg_park_def held_def)

lemma rollback_touches: "touches i r (reg_rollback now i sess existed r)"
  by (simp add: reg_rollback_def park_touches deleteLocked_touches split: option.split)

lemma rollback_lets_go: "i \<notin> held (reg_rollback now i sess existed r) sess"
  by (cases "res_at r i") (simp_all add: reg_rollback_def, simp_all add: held_def)

text \<open>What a session does costs the others at most what it takes over.\<close>

definition others_lose :: "nat \<Rightarrow> nameRegistry \<Rightarrow> nameRegistry \<Rightarrow> bool" where
  "others_lose sess r r' \<longleftrightarrow> (\<forall>b. b \<noteq> sess \<longrightarrow> held r' b \<subseteq> held r b)"

lemma others_lose_refl [simp]: "others_lose sess r r"
  by (simp add: others_lose_def)

lemma others_lose_trans: "others_lose sess r s \<Longrightarrow> others_lose sess s t \<Longrightarrow> others_lose sess r t"
  unfolding others_lose_def by blast

lemma held_only: "i \<in> held r a \<Longrightarrow> b \<noteq> a \<Longrightarrow> i \<notin> held r b"
  by (auto simp: held_def)

lemma touches_others:
  assumes "touches i r r'" "\<And>b. b \<noteq> sess \<Longrightarrow> i \<notin> held r' b"
  shows "others_lose sess r r'"
  unfolding others_lose_def using touches_held [OF assms(1)] assms(2) by (metis subsetI)

lemma park_free:
  assumes "res_at r i = Some res" "res_session res = Some sess"
  shows "i \<notin> held (reg_park now i sess r) b"
  using assms by (simp add: reg_park_def Let_def held_def)

lemma park_others: "others_lose sess r (reg_park now i sess r)"
proof (cases "\<exists>res. res_at r i = Some res \<and> res_session res = Some sess")
  case True
  then show ?thesis using touches_others [OF park_touches] park_free by blast
next
  case False
  then have "reg_park now i sess r = r" by (auto simp: reg_park_def split: option.split)
  then show ?thesis by simp
qed

lemma rollback_others: "others_lose sess r (reg_rollback now i sess existed r)"
proof -
  have "others_lose sess r (deleteLocked i r)"
    by (rule touches_others [OF deleteLocked_touches]) (simp add: held_def)
  then show ?thesis by (simp add: reg_rollback_def park_others split: option.split)
qed

section \<open>Claiming a name\<close>

text \<open>A claim gives the session a reservation it did not hold, of that name and
  token, and touches no other.\<close>

lemma claim_held:
  assumes "reg_inv r" "reg_claim name t tok ag sess mx r = (Inr (i, existed), r')"
  shows "touches i r r'" "i \<notin> held r sess" "i \<in> held r' sess"
    "\<exists>res. res_at r' i = Some res \<and> res_name res = name \<and> res_tokenID res = tok \<and> res_typ res = t"
proof -
  have "touches i r r' \<and> i \<notin> held r sess \<and> i \<in> held r' sess \<and>
    (\<exists>res. res_at r' i = Some res \<and> res_name res = name \<and> res_tokenID res = tok \<and> res_typ res = t)"
  proof (cases "map_of (reg_names r) name")
    case None
    have fresh: "res_at r (reg_next r) = None" using reg_fresh [OF assms(1)] by simp
    obtain res where r': "i = reg_next r" "map_of (reg_names r') = (map_of (reg_names r))(name \<mapsto> i)"
      "map_of (reg_heap r') = (map_of (reg_heap r))(i \<mapsto> res)"
      and res: "res_name res = name" "res_tokenID res = tok" "res_typ res = t" "res_session res = Some sess"
      using assms(2) None by (auto simp: reg_claim_def alloc_res_def Let_def Decide_def split: if_splits)
    have "live r' j = live r j" if "j \<noteq> i" for j
      unfolding live_def r'(2,3) using None that by (simp split: option.split)
    then have "touches i r r'"
      by (simp add: touches_def r'(3))
    then show ?thesis
      using fresh res by (simp add: held_def live_def r')
  next
    case (Some j)
    then obtain res where res: "res_at r j = Some res" "res_name res = name"
      using reg_entry [OF assms(1)] by (force simp: entry_ok_def)
    let ?f = "\<lambda>res. res\<lparr>res_timer := False, res_typ := t, res_agentID := ag, res_session := Some sess, res_tunnel := None\<rparr>"
    have r': "i = j" "res_session res \<noteq> Some sess" "res_tokenID res = tok" "\<exists>c. r' = upd_res j ?f (r\<lparr>reg_closedTunnels := c\<rparr>)"
      using assms(2) Some res by (auto simp: reg_claim_def Let_def Decide_def split: if_splits intro: exI [of _ "reg_closedTunnels r"])
    then obtain c where c: "r' = upd_res j ?f (r\<lparr>reg_closedTunnels := c\<rparr>)" by blast
    have "touches j r (r\<lparr>reg_closedTunnels := c\<rparr>)" by (rule same_held) simp_all
    then have "touches j r r'"
      unfolding c by (rule touches_trans [OF _ upd_res_touches]) simp
    then show ?thesis
      using c r'(1-3) res Some by (simp add: held_def live_def)
  qed
  then show "touches i r r'" "i \<notin> held r sess" "i \<in> held r' sess"
    "\<exists>res. res_at r' i = Some res \<and> res_name res = name \<and> res_tokenID res = tok \<and> res_typ res = t"
    by blast+
qed

lemma setDomains_held: "touches i r (snd (reg_setDomains i ds r))" "held (snd (reg_setDomains i ds r)) sess = held r sess"
proof -
  let ?f = "\<lambda>res. res\<lparr>res_domains := ds\<rparr>"
  have u: "touches i r (upd_res i ?f r)" "held (upd_res i ?f r) sess = held r sess"
    by (simp_all add: upd_res_touches upd_res_held)
  have "touches i r ((upd_res i ?f r)\<lparr>reg_domains := m\<rparr>)" "held ((upd_res i ?f r)\<lparr>reg_domains := m\<rparr>) sess = held r sess" for m
    using touches_trans [OF u(1) same_held(1)] same_held(2) [of "(upd_res i ?f r)\<lparr>reg_domains := m\<rparr>" "upd_res i ?f r"] u(2)
    by simp_all
  then show "touches i r (snd (reg_setDomains i ds r))" "held (snd (reg_setDomains i ds r)) sess = held r sess"
    by (simp_all add: reg_setDomains_def Let_def split: option.split)
qed

section \<open>Binding a port\<close>

lemma free_unassigned:
  assumes "reg_inv r" "p \<noteq> 0" "map_of (reg_ports r) p = None"
  shows "unassigned r p"
  unfolding unassigned_iff [OF assms(1)]
  using reg_entry [OF assms(1)] assms(2,3) by (fastforce simp: entry_ok_def)

lemma unassigned_ports [simp]: "unassigned (r\<lparr>reg_ports := ps\<rparr>) p = unassigned r p"
  by (simp add: unassigned_def)

text \<open>What binding ports does to the registry: steps of it that leave names and
  reservations as they are; the port that was bound is reserved and nobody's.\<close>

definition bound :: "nameRegistry \<Rightarrow> nameRegistry \<Rightarrow> int option \<Rightarrow> bool" where
  "bound r r' res \<longleftrightarrow> reg_step\<^sup>*\<^sup>* r r' \<and> reg_names r' = reg_names r \<and> reg_heap r' = reg_heap r \<and>
     (\<forall>p. res = Some p \<longrightarrow> map_of (reg_ports r') p = Some () \<and> unassigned r' p)"

lemma bound_trans: "bound r s None \<Longrightarrow> bound s t res \<Longrightarrow> bound r t res"
  unfolding bound_def by (metis rtranclp_trans)

lemma tryListen_bound:
  assumes "reg_inv r" "p \<noteq> 0" "tryListen env p r = (ok, r')"
  shows "bound r r' (if ok then Some p else None)"
proof (cases "map_of (reg_ports r) p")
  case None
  let ?r1 = "r\<lparr>reg_ports := AList.update p () (reg_ports r)\<rparr>"
  have un: "unassigned r p" by (rule free_unassigned [OF assms(1,2) None])
  have s1: "reg_step r ?r1"
    using reg_step.reservePort [of r p] None by (simp add: reg_reservePort_def)
  have s2: "reg_step ?r1 (reg_releasePort p ?r1)"
    using un by (intro reg_step.releasePort) simp
  have "r' = (if ok then ?r1 else reg_releasePort p ?r1)"
    using assms(3) None by (auto simp: tryListen_def reg_reservePort_def split: if_splits)
  then show ?thesis
    using s1 s2 un by (auto simp: bound_def reg_releasePort_def intro: rtranclp.rtrancl_into_rtrancl)
next
  case (Some u)
  then show ?thesis
    using assms(3) by (auto simp: tryListen_def reg_reservePort_def bound_def)
qed

lemma bound_inv: "bound r r' res \<Longrightarrow> reg_inv r \<Longrightarrow> reg_inv r'"
  unfolding bound_def using relay.keeps_steps by blast

lemma firstPort_bound:
  "reg_inv r \<Longrightarrow> 0 \<notin> set ports \<Longrightarrow> firstPort env ports r = (res, r') \<Longrightarrow> bound r r' res \<and> (\<forall>p. res = Some p \<longrightarrow> p \<in> set ports)"
proof (induction ports arbitrary: r)
  case (Cons p ports)
  obtain ok r1 where l: "tryListen env p r = (ok, r1)" by fastforce
  have b: "bound r r1 (if ok then Some p else None)"
    using tryListen_bound [OF Cons.prems(1) _ l] Cons.prems(2) by auto
  show ?case
  proof (cases ok)
    case True
    then show ?thesis using Cons.prems(3) b l by auto
  next
    case False
    then have "bound r r1 None" "firstPort env ports r1 = (res, r')" using Cons.prems(3) b l by simp_all
    then show ?thesis
      using Cons.IH [of r1] bound_inv [OF b Cons.prems(1)] Cons.prems(2) bound_trans [of r r1 r' res] by simp
  qed
qed (simp add: bound_def)

lemma setPort_held: "touches i r (reg_setPort i p r)" "held (reg_setPort i p r) sess = held r sess"
proof -
  define r1 where "r1 = (if reg_portOf r i \<noteq> 0 \<and> reg_portOf r i \<noteq> p then r\<lparr>reg_ports := AList.delete (reg_portOf r i) (reg_ports r)\<rparr> else r)"
  have eq: "reg_setPort i p r = upd_res i (\<lambda>res. res\<lparr>res_port := p\<rparr>) r1"
    by (simp add: reg_setPort_def r1_def Let_def)
  have 1: "touches i r r1" "held r1 sess = held r sess"
    by (rule same_held; simp add: r1_def)+
  show "touches i r (reg_setPort i p r)"
    unfolding eq by (rule touches_trans [OF 1(1) upd_res_touches]) simp
  show "held (reg_setPort i p r) sess = held r sess"
    unfolding eq 1(2) [symmetric] by (rule upd_res_held) simp_all
qed

lemma setPort_bound:
  assumes "bound r r1 (Some p)" "p \<noteq> 0" "live r i"
  shows "reg_step\<^sup>*\<^sup>* r (reg_setPort i p r1)" "touches i r (reg_setPort i p r1)"
    "held (reg_setPort i p r1) sess = held r sess" "reg_portOf (reg_setPort i p r1) i = p"
proof -
  have b: "reg_names r1 = reg_names r" "reg_heap r1 = reg_heap r" using assms(1) by (simp_all add: bound_def)
  have "live r1 i" using assms(3) live_same [OF b] by simp
  then have "reg_step r1 (reg_setPort i p r1)"
    using assms(1,2) by (intro reg_step.setPort) (simp_all add: bound_def)
  then show "reg_step\<^sup>*\<^sup>* r (reg_setPort i p r1)"
    using assms(1) by (auto simp: bound_def)
  show "touches i r (reg_setPort i p r1)"
    by (rule touches_trans [OF same_held(1) [OF b] setPort_held(1)])
  show "held (reg_setPort i p r1) sess = held r sess"
    by (simp add: setPort_held(2) same_held(2) [OF b])
  show "reg_portOf (reg_setPort i p r1) i = p"
    using \<open>live r1 i\<close> by (auto simp: reg_portOf_def reg_setPort_def Let_def live_def split: option.splits)
qed

text \<open>The range of the configuration: \<open>Config.validate\<close> refuses a range that
  is empty or starts below 1.\<close>

definition range_ok :: "relay_Config \<Rightarrow> bool" where
  "range_ok cfg \<longleftrightarrow> 1 \<le> rc_TCPPortMin cfg \<and> rc_TCPPortMin cfg \<le> rc_TCPPortMax cfg"

lemma AllocationRange_positive:
  assumes "range_ok cfg" "AllocationRange (relay_rules cfg) policy = Inr (lo, hi)"
  shows "1 \<le> lo"
  using assms PortRange_within [of policy "rc_TCPPortMin cfg" "rc_TCPPortMax cfg" lo hi]
  by (auto simp: AllocationRange_def relay_rules_def range_ok_def Let_def split: prod.splits if_splits)

definition allocatable :: "relay_Config \<Rightarrow> Policy \<Rightarrow> int \<Rightarrow> bool" where
  "allocatable cfg policy p \<longleftrightarrow> CheckRequestedPort (relay_rules cfg) p policy = Ok ()"

text \<open>Steps of the registry that touch one reservation, leave it its name, token
  and type, and change nobody's holdings.\<close>

definition ident :: "nat \<Rightarrow> nameRegistry \<Rightarrow> (string \<times> string \<times> TunnelType) option" where
  "ident i r = map_option (\<lambda>res. (res_name res, res_tokenID res, res_typ res)) (res_at r i)"

definition kept :: "nat \<Rightarrow> nameRegistry \<Rightarrow> nameRegistry \<Rightarrow> bool" where
  "kept i r r' \<longleftrightarrow> reg_step\<^sup>*\<^sup>* r r' \<and> touches i r r' \<and> (\<forall>sess. held r' sess = held r sess) \<and> ident i r' = ident i r"

lemma upd_res_ident:
  "(\<And>res. res_name (f res) = res_name res \<and> res_tokenID (f res) = res_tokenID res \<and> res_typ (f res) = res_typ res) \<Longrightarrow>
   ident i (upd_res i f r) = ident i r"
  by (simp add: ident_def option.map_comp comp_def)

lemma setPort_ident: "ident i (reg_setPort i p r) = ident i r"
  by (auto simp: reg_setPort_def Let_def ident_def option.map_comp comp_def)

lemma setDomains_ident: "ident i (snd (reg_setDomains i ds r)) = ident i r"
  by (auto simp: reg_setDomains_def Let_def ident_def option.map_comp comp_def split: option.split)

lemma kept_refl: "kept i r r"
  by (simp add: kept_def)

lemma bound_kept: "bound r r' res \<Longrightarrow> kept i r r'"
  unfolding bound_def kept_def ident_def by (metis same_held)

lemma listenTunnelPort_kept:
  assumes "reg_inv r" "live r i" "range_ok cfg" "listenTunnelPort cfg env i requested previous policy r = (res, r')"
  shows "kept i r r'" "res = Inr p \<Longrightarrow> reg_portOf r' i = p \<and> (p = reg_portOf r i \<or> allocatable cfg policy p)"
proof -
  define K where "K = (\<lambda>r'. kept i r r' \<and> (\<forall>p. res = Inr p \<longrightarrow> reg_portOf r' i = p \<and> (p = reg_portOf r i \<or> allocatable cfg policy p)))"
  have set: "K (reg_setPort i p r1)" if "bound r r1 (Some p)" "p \<noteq> 0" "allocatable cfg policy p" "res = Inr p" for p r1
    using setPort_bound [OF that(1,2) assms(2)] that(1,3,4) by (simp add: K_def kept_def setPort_ident) (simp add: ident_def bound_def)
  have fail: "K r1" if "bound r r1 None" "res = Inl e" for r1 e
    using bound_kept [OF that(1)] that(2) by (simp add: K_def)
  have "bound r r None" by (simp add: bound_def)
  note fail0 = fail [OF this]
  have "K r'"
  proof (cases "reg_portOf r i \<noteq> 0 \<and> (requested = 0 \<or> requested = reg_portOf r i)")
    case True
    then show ?thesis using assms(4) kept_refl by (auto simp: listenTunnelPort_def K_def Let_def split: if_splits)
  next
    case nheld: False
    show ?thesis
    proof (cases "requested = 0")
      case False
      obtain ok r1 where l: "tryListen env requested r = (ok, r1)" by fastforce
      have b: "bound r r1 (if ok then Some requested else None)" by (rule tryListen_bound [OF assms(1) False l])
      show ?thesis
        using assms(4) nheld False l b fail0 set [of r1 requested] fail [of r1]
        by (auto simp: listenTunnelPort_def Let_def allocatable_def split: sum.splits if_splits)
    next
      case True
      show ?thesis
      proof (cases "AllocationRange (relay_rules cfg) policy")
        case (Inr range)
        obtain lo hi where range: "range = (lo, hi)" by fastforce
        note lo = AllocationRange_positive [OF assms(3) Inr [unfolded range]]
        define ports where "ports = (if lo \<le> previous \<and> previous \<le> hi then [previous] else []) @ [lo..hi]"
        obtain got r1 where f: "firstPort env ports r = (got, r1)" by fastforce
        have ports: "lo \<le> p \<and> p \<le> hi" if "p \<in> set ports" for p using that by (auto simp: ports_def split: if_splits)
        have b: "bound r r1 got" "\<And>p. got = Some p \<Longrightarrow> p \<in> set ports"
          using firstPort_bound [OF assms(1) _ f] ports [of 0] lo by auto
        have al: "allocatable cfg policy p" if "got = Some p" for p
          using ports [OF b(2) [OF that]] Inr range unfolding allocatable_def CheckRequestedPort_iff by blast
        have nz: "p \<noteq> 0" if "got = Some p" for p using ports [OF b(2) [OF that]] lo by auto
        show ?thesis
          using assms(4) nheld True Inr range f b(1) al nz set [of r1] fail [of r1]
          by (cases got) (auto simp: listenTunnelPort_def Let_def ports_def)
      qed (use assms(4) nheld True fail0 in \<open>auto simp: listenTunnelPort_def Let_def\<close>)
    qed
  qed
  then show "kept i r r'" "res = Inr p \<Longrightarrow> reg_portOf r' i = p \<and> (p = reg_portOf r i \<or> allocatable cfg policy p)"
    by (simp_all add: K_def)
qed

section \<open>Opening a tunnel\<close>

lemma openAddress_kept:
  assumes "reg_inv r" "live r (tn_res t)" "range_ok cfg" "openAddress cfg env sess spec t r = (res, r')"
  shows "kept (tn_res t) r r'" "res = Inr t' \<Longrightarrow> tn_res t' = tn_res t"
proof -
  have "kept (tn_res t) r r' \<and> (\<forall>t'. res = Inr t' \<longrightarrow> tn_res t' = tn_res t)"
  proof (cases "re_cluster env")
    case None
    obtain got r1 where l: "listenTunnelPort cfg env (tn_res t) (sp_PublicPort spec) (sp_PreviousPort spec) (tk_Policy (as_token sess)) r = (got, r1)"
      by fastforce
    show ?thesis
      using assms(4) None l listenTunnelPort_kept(1) [OF assms(1-3) l] kept_refl
      by (auto simp: openAddress_def Let_def split: if_splits sum.splits)
  next
    case (Some claim)
    then show ?thesis
      using assms(4) kept_refl
      by (cases "claimInCluster cfg claim sess t spec (tk_Policy (as_token sess))")
        (auto simp: openAddress_def Let_def setEndpointAddress_def)
  qed
  then show "kept (tn_res t) r r'" "res = Inr t' \<Longrightarrow> tn_res t' = tn_res t" by blast+
qed

text \<open>A failed opening gives back the one reservation it took; a successful one
  keeps it under a new tunnel.\<close>

definition opens :: "nat \<Rightarrow> relay_Server \<Rightarrow> (open_error, nat) result \<Rightarrow> relay_Server \<Rightarrow> bool" where
  "opens sess s res s' \<longleftrightarrow>
     (let r = sv_registry s; r' = sv_registry s' in
      reg_step\<^sup>*\<^sup>* r r' \<and> others_lose sess r r' \<and> sv_http s' = sv_http s \<and> sv_calls s' = sv_calls s \<and>
      (case res of
         Inl _ \<Rightarrow> held r' sess = held r sess \<and> sv_tunnels s' = sv_tunnels s \<and> sv_next s' = sv_next s
       | Inr a \<Rightarrow> a = sv_next s \<and> sv_next s' = Suc a \<and>
           (\<exists>t. sv_tunnels s' = AList.update a t (sv_tunnels s) \<and> tn_res t \<notin> held r sess \<and> held r' sess = insert (tn_res t) (held r sess))))"

lemma touches_insert:
  assumes "touches i r r'" "i \<in> held r' sess"
  shows "held r' sess = insert i (held r sess)"
  using assms(2-) by (intro set_eqI) (metis touches_held [OF assms(1)] insert_iff Diff_iff empty_iff)

lemma touches_remove:
  assumes "touches i r r'" "i \<notin> held r' sess" "i \<notin> held r sess"
  shows "held r' sess = held r sess"
  using assms(2-) by (intro set_eqI) (metis touches_held [OF assms(1)] insert_iff Diff_iff empty_iff)

lemma touches_drop:
  assumes "touches i r r'" "i \<notin> held r' sess"
  shows "held r' sess = held r sess - {i}"
  using assms(2-) by (intro set_eqI) (metis touches_held [OF assms(1)] insert_iff Diff_iff empty_iff)

lemma held_live: "i \<in> held r sess \<Longrightarrow> live r i"
  by (simp add: held_def)

lemma rollback_undoes:
  assumes "reg_step\<^sup>*\<^sup>* r r1" "touches i r r1" "i \<in> held r1 sess" "i \<notin> held r sess"
  shows "reg_step\<^sup>*\<^sup>* r (reg_rollback now i sess existed r1)" "held (reg_rollback now i sess existed r1) sess = held r sess"
    "others_lose sess r (reg_rollback now i sess existed r1)"
proof -
  have "others_lose sess r r1" using touches_others [OF assms(2)] held_only [OF assms(3)] by blast
  then show "others_lose sess r (reg_rollback now i sess existed r1)" using others_lose_trans rollback_others by blast
  have "reg_step r1 (reg_rollback now i sess existed r1)"
    using held_live [OF assms(3)] by (intro reg_step.rollback) simp
  then show "reg_step\<^sup>*\<^sup>* r (reg_rollback now i sess existed r1)" using assms(1) by simp
  show "held (reg_rollback now i sess existed r1) sess = held r sess"
    by (rule touches_remove [OF touches_trans [OF assms(2) rollback_touches] rollback_lets_go assms(4)])
qed

lemma activate_kept: "kept i r (reg_activate i a r)"
  unfolding kept_def reg_activate_def
  by (intro conjI allI upd_res_touches upd_res_held upd_res_ident r_into_rtranclp reg_step.activate [unfolded reg_activate_def]) simp_all

lemma kept_trans: "kept i r s \<Longrightarrow> kept i s t \<Longrightarrow> kept i r t"
  unfolding kept_def using touches_trans by (auto intro: rtranclp_trans)

lemma openTunnel_opens:
  assumes inv: "reg_inv (sv_registry s)" and range: "range_ok cfg" and o: "openTunnel cfg env sess x s = (res, s')"
  shows "opens (as_addr sess) s res s'"
proof -
  obtain spec randomName tunnelID where x: "x = (spec, randomName, tunnelID)" by (cases x) auto
  let ?a = "as_addr sess" and ?r = "sv_registry s"
  show ?thesis
  proof (cases "openChecks cfg env sess spec randomName")
    case (Inl e)
    then show ?thesis using o by (auto simp: openTunnel_def x opens_def Let_def)
  next
    case (Inr checked)
    obtain access name domains where ch: "checked = (access, name, domains)" by (cases checked) auto
    obtain got r1 where c: "reg_claim name (sp_Type spec) (tk_ID (as_token sess)) (as_agentID sess) ?a
        (MaxTunnels (tk_Policy (as_token sess))) ?r = (got, r1)" by fastforce
    have s1: "reg_step ?r r1" using reg_step.claim c by (metis snd_conv)
    show ?thesis
    proof (cases got)
      case (Inl e)
      have "r1 = ?r" using c Inl by (auto simp: reg_claim_def Let_def split: sum.splits Decision.splits prod.splits)
      then show ?thesis using o Inr ch c Inl by (auto simp: openTunnel_def x opens_def Let_def)
    next
      case got: (Inr p)
      obtain i existed where p: "p = (i, existed)" by fastforce
      note cl = claim_held [OF inv c [unfolded got p]]
      have inv1: "reg_inv r1" using relay.keeps [OF inv s1] .
      obtain dres r2 where d: "reg_setDomains i domains r1 = (dres, r2)" by fastforce
      have k1: "kept i r1 r2"
        using setDomains_held [where i = i and ds = domains and r = r1] setDomains_ident [of i domains r1] d reg_step.setDomains [OF held_live [OF cl(3)], of domains]
        by (auto simp: kept_def)
      have st: "reg_step\<^sup>*\<^sup>* ?r r' \<and> touches i ?r r' \<and> i \<in> held r' ?a \<and> others_lose ?a ?r r'" if "kept i r1 r'" for r'
        using that s1 cl(1,3) touches_trans [OF cl(1)] touches_others [of i ?r r' ?a] held_only [of i r' ?a]
        by (auto simp: kept_def intro: converse_rtranclp_into_rtranclp)
      have undone: "reg_step\<^sup>*\<^sup>* ?r (reg_rollback (re_now env) i ?a existed r') \<and>
          held (reg_rollback (re_now env) i ?a existed r') ?a = held ?r ?a \<and> others_lose ?a ?r (reg_rollback (re_now env) i ?a existed r')" if "kept i r1 r'" for r'
        using rollback_undoes st [OF that] cl(2) by blast
      define t0 where "t0 = \<lparr>tn_session = ?a, tn_res = i, tn_existed = existed, tn_TunnelId = tunnelID, tn_Name = name,
          tn_Type = sp_Type spec, tn_Hostname = name @ ''.'' @ rc_BaseDomain cfg, tn_Domains = domains,
          tn_PublicPort = 0, tn_PublicAddress = [], tn_listening = False, tn_access = access\<rparr>"
      obtain ares r3 where ad: "openAddress cfg env sess spec t0 r2 = (ares, r3)" by fastforce
      have inv2: "reg_inv r2" using k1 inv1 relay.keeps_steps by (auto simp: kept_def)
      have "live r2 (tn_res t0)" using k1 cl(3) held_live [of i r2 ?a] by (simp add: kept_def t0_def)
      note ak = openAddress_kept [OF inv2 this range ad]
      have k2: "kept i r1 r3" using kept_trans [OF k1] ak(1) by (simp add: t0_def)
      note k3 = kept_trans [OF k2 activate_kept [of i r3 "sv_next s"]]
      have o': "(res, s') = (case dres of Inl _ \<Rightarrow> (Err (Remote ERROR_CODE_NAME_TAKEN), s\<lparr>sv_registry := reg_rollback (re_now env) i ?a existed r2\<rparr>)
          | Inr _ \<Rightarrow> (case ares of Inl e \<Rightarrow> (Err e, s\<lparr>sv_registry := reg_rollback (re_now env) i ?a existed r3\<rparr>)
             | Inr t \<Rightarrow> (Ok (sv_next s), s\<lparr>sv_registry := reg_activate i (sv_next s) r3,
                 sv_tunnels := AList.update (sv_next s) t (sv_tunnels s), sv_next := Suc (sv_next s)\<rparr>)))"
        using o Inr ch c got p d ad [unfolded t0_def] by (simp add: openTunnel_def x split: sum.splits)
      show ?thesis
      proof (cases "\<exists>t. dres = Inr () \<and> ares = Inr t")
        case True
        then obtain t where t: "dres = Inr ()" "ares = Inr t" by blast
        have "tn_res t = i" using ak(2) [OF t(2)] by (simp add: t0_def)
        then show ?thesis
          using o' t st [OF k3] cl(2) touches_insert [of i ?r] by (auto simp: opens_def Let_def)
      next
        case False
        then show ?thesis
          using o' undone [OF k1] undone [OF k2] by (auto simp: opens_def Let_def split: sum.splits)
      qed
    qed
  qed
qed

section \<open>Registering and leaving\<close>

abbreviation res_of :: "relay_Server \<Rightarrow> nat \<Rightarrow> nat" where
  "res_of s a \<equiv> tn_res (tunnel_at s a)"

abbreviation holds :: "agentSession \<Rightarrow> relay_Server \<Rightarrow> nat set" where
  "holds sess s \<equiv> held (sv_registry s) (as_addr sess)"

lemma close_tunnels:
  "map_of (sv_tunnels (tunnel_close a s)) = (map_of (sv_tunnels s))(a \<mapsto> (tunnel_at s a)\<lparr>tn_listening := False\<rparr>)"
  "sv_registry (tunnel_close a s) = sv_registry s" "sv_next (tunnel_close a s) = sv_next s"
  by (simp_all add: tunnel_close_def update_conv')

lemma close_res_of [simp]: "res_of (tunnel_close a s) b = res_of s b"
  by (simp add: tunnel_at_def close_tunnels)

text \<open>What undoing or parking does, whatever it does to the registry.\<close>

definition lets_go :: "agentSession \<Rightarrow> nat list \<Rightarrow> relay_Server \<Rightarrow> relay_Server \<Rightarrow> bool" where
  "lets_go sess gone s s' \<longleftrightarrow>
     reg_step\<^sup>*\<^sup>* (sv_registry s) (sv_registry s') \<and> holds sess s' = holds sess s - res_of s ` set gone \<and>
     others_lose (as_addr sess) (sv_registry s) (sv_registry s') \<and>
     (\<forall>b. res_of s' b = res_of s b) \<and> sv_next s' = sv_next s \<and>
     (\<forall>b. if b \<in> set gone then \<not> tn_listening (tunnel_at s' b) else map_of (sv_tunnels s') b = map_of (sv_tunnels s) b)"

lemma lets_go_Nil [simp]: "lets_go sess [] s s"
  by (simp add: lets_go_def)

lemma tunnel_at_cong: "map_of (sv_tunnels s') b = map_of (sv_tunnels s) b \<Longrightarrow> tunnel_at s' b = tunnel_at s b"
  by (simp add: tunnel_at_def)

lemma lets_go_Cons:
  assumes "lets_go sess [a] s s1" "lets_go sess as s1 s2"
  shows "lets_go sess (a # as) s s2"
proof -
  have "\<not> tn_listening (tunnel_at s2 a)"
    using assms tunnel_at_cong [of s2 a s1] unfolding lets_go_def by (metis list.set_intros(1))
  then show ?thesis
    using assms unfolding lets_go_def by (auto intro: rtranclp_trans others_lose_trans)
qed

lemma undoTunnel_lets_go:
  assumes "res_of s a \<in> holds sess s"
  shows "lets_go sess [a] s (undoTunnel env sess a s)"
proof -
  define s1 where "s1 = tunnel_close a s"
  have s1: "sv_registry s1 = sv_registry s" "res_of s1 b = res_of s b" "sv_next s1 = sv_next s" for b
    by (simp_all add: s1_def close_tunnels)
  let ?r' = "reg_rollback (re_now env) (res_of s a) (as_addr sess) (tn_existed (tunnel_at s1 a)) (sv_registry s)"
  have u: "undoTunnel env sess a s = s1\<lparr>sv_registry := ?r'\<rparr>"
    by (simp add: undoTunnel_def Let_def s1_def close_tunnels)
  have "reg_step (sv_registry s) ?r'"
    using held_live [OF assms] by (intro reg_step.rollback) simp
  moreover have "held ?r' (as_addr sess) = holds sess s - {res_of s a}"
    by (rule touches_drop [OF rollback_touches rollback_lets_go])
  ultimately show ?thesis
    unfolding lets_go_def u using s1 rollback_others by (auto simp: tunnel_at_def s1_def close_tunnels)
qed

lemma parkTunnel_lets_go: "lets_go sess [a] s (parkTunnel env sess a s)"
proof -
  define s1 where "s1 = tunnel_close a s"
  have s1: "sv_registry s1 = sv_registry s" "res_of s1 b = res_of s b" "sv_next s1 = sv_next s" for b
    by (simp_all add: s1_def close_tunnels)
  let ?r' = "reg_park (re_now env) (res_of s a) (as_addr sess) (sv_registry s)"
  have u: "parkTunnel env sess a s = s1\<lparr>sv_registry := ?r'\<rparr>"
    by (simp add: parkTunnel_def Let_def s1_def close_tunnels)
  have "held ?r' (as_addr sess) = holds sess s - {res_of s a}"
    by (rule touches_drop [OF park_touches park_lets_go])
  then show ?thesis
    unfolding lets_go_def u using s1 reg_step.park park_others by (auto simp: tunnel_at_def s1_def close_tunnels)
qed

lemma undo_fold:
  "distinct (map (res_of s) opened) \<Longrightarrow> res_of s ` set opened \<subseteq> holds sess s \<Longrightarrow>
   lets_go sess opened s (fold (undoTunnel env sess) opened s)"
proof (induction opened arbitrary: s)
  case (Cons a opened)
  have 1: "lets_go sess [a] s (undoTunnel env sess a s)"
    using Cons.prems(2) by (intro undoTunnel_lets_go) auto
  then have "lets_go sess opened (undoTunnel env sess a s) (fold (undoTunnel env sess) opened (undoTunnel env sess a s))"
    using Cons.prems by (intro Cons.IH) (simp_all add: lets_go_def, blast)
  then show ?case using lets_go_Cons [OF 1] by simp
qed simp

lemma park_fold: "lets_go sess tunnels s (fold (parkTunnel env sess) tunnels s)"
  by (induction tunnels arbitrary: s) (auto intro: lets_go_Cons [OF parkTunnel_lets_go])

lemma lets_go_calls: "lets_go sess gone s (s'\<lparr>sv_calls := c\<rparr>) = lets_go sess gone s s'"
  by (simp add: lets_go_def tunnel_at_def)

lemma undoAll_lets_go:
  assumes "distinct (map (res_of s) opened)" "res_of s ` set opened \<subseteq> holds sess s"
  shows "lets_go sess opened s (undoAll env sess opened s)"
  using undo_fold [OF assms] by (simp add: undoAll_def Let_def lets_go_calls)

text \<open>The registration loop after \<open>opened\<close> tunnels, started at server \<open>s0\<close>: those
  tunnels are the new objects, and the session holds exactly their reservations
  more than it did.\<close>

definition tunnels_ok :: "relay_Server \<Rightarrow> bool" where
  "tunnels_ok s \<longleftrightarrow> (\<forall>a\<ge>sv_next s. map_of (sv_tunnels s) a = None)"

definition collected :: "agentSession \<Rightarrow> relay_Server \<Rightarrow> nat list \<Rightarrow> relay_Server \<Rightarrow> bool" where
  "collected sess s0 opened s \<longleftrightarrow>
     reg_step\<^sup>*\<^sup>* (sv_registry s0) (sv_registry s) \<and> others_lose (as_addr sess) (sv_registry s0) (sv_registry s) \<and> tunnels_ok s \<and> sv_next s0 \<le> sv_next s \<and> opened = [sv_next s0..< sv_next s] \<and>
     (\<forall>a< sv_next s0. map_of (sv_tunnels s) a = map_of (sv_tunnels s0) a) \<and>
     distinct (map (res_of s) opened) \<and> res_of s ` set opened \<inter> holds sess s0 = {} \<and>
     holds sess s = holds sess s0 \<union> res_of s ` set opened"

text \<open>Nothing is left of a failed registration but closed tunnel objects.\<close>

definition undone :: "agentSession \<Rightarrow> relay_Server \<Rightarrow> relay_Server \<Rightarrow> bool" where
  "undone sess s0 s \<longleftrightarrow>
     reg_step\<^sup>*\<^sup>* (sv_registry s0) (sv_registry s) \<and> others_lose (as_addr sess) (sv_registry s0) (sv_registry s) \<and>
     holds sess s = holds sess s0 \<and> tunnels_ok s \<and> sv_next s0 \<le> sv_next s \<and> (\<forall>a< sv_next s0. map_of (sv_tunnels s) a = map_of (sv_tunnels s0) a) \<and>
     (\<forall>a t. map_of (sv_tunnels s) a = Some t \<longrightarrow> map_of (sv_tunnels s0) a = Some t \<or> \<not> tn_listening t)"

lemma collected_start: "tunnels_ok s \<Longrightarrow> collected sess s [] s"
  by (simp add: collected_def)

lemma collected_opens:
  assumes c: "collected sess s0 opened s" and o: "opens (as_addr sess) s (Inr a) s'"
  shows "collected sess s0 (opened @ [a]) s'"
proof -
  obtain t where t: "a = sv_next s" "sv_next s' = Suc (sv_next s)" "sv_tunnels s' = AList.update a t (sv_tunnels s)"
    "tn_res t \<notin> holds sess s" "holds sess s' = insert (tn_res t) (holds sess s)" "reg_step\<^sup>*\<^sup>* (sv_registry s) (sv_registry s')"
    using o by (auto simp: opens_def Let_def)
  have m: "map_of (sv_tunnels s') = (map_of (sv_tunnels s))(a \<mapsto> t)" using t(3) by (simp add: update_conv')
  have old: "res_of s' b = res_of s b" if "b < sv_next s" for b using that t(1) m by (simp add: tunnel_at_def)
  have new: "res_of s' a = tn_res t" using m by (simp add: tunnel_at_def)
  have op: "opened = [sv_next s0..< sv_next s]" "sv_next s0 \<le> sv_next s" using c by (simp_all add: collected_def)
  have eq: "map (res_of s') opened = map (res_of s) opened" using op old by simp
  then have im: "res_of s' ` set opened = res_of s ` set opened" by (metis set_map)
  have ok: "tunnels_ok s'" using c m t(1,2) by (simp add: collected_def tunnels_ok_def)
  have low: "\<forall>b< sv_next s0. map_of (sv_tunnels s') b = map_of (sv_tunnels s0) b" using c m t(1) op(2) by (simp add: collected_def)
  have st: "reg_step\<^sup>*\<^sup>* (sv_registry s0) (sv_registry s')" "others_lose (as_addr sess) (sv_registry s0) (sv_registry s')"
    using c t(6) o others_lose_trans [of "as_addr sess" "sv_registry s0" "sv_registry s" "sv_registry s'"]
    by (auto simp: collected_def opens_def Let_def)
  have h: "holds sess s = holds sess s0 \<union> res_of s ` set opened" "distinct (map (res_of s) opened)"
    "res_of s ` set opened \<inter> holds sess s0 = {}" using c unfolding collected_def by blast+
  have "distinct (map (res_of s') (opened @ [a]))" using t(4) h new eq im by (simp only: map_append distinct_append) auto
  moreover have "res_of s' ` set (opened @ [a]) \<inter> holds sess s0 = {}" using t(4) h new im by auto
  moreover have "holds sess s' = holds sess s0 \<union> res_of s' ` set (opened @ [a])" using t(5) h new im by auto
  ultimately show ?thesis using st ok low op t(1,2) by (simp add: collected_def)
qed

lemma collected_fails:
  assumes c: "collected sess s0 opened s" and o: "opens (as_addr sess) s (Inl e) s1" and s0: "tunnels_ok s0"
  shows "undone sess s0 (undoAll env sess opened s1)"
proof -
  have s1: "holds sess s1 = holds sess s" "sv_tunnels s1 = sv_tunnels s" "reg_step\<^sup>*\<^sup>* (sv_registry s) (sv_registry s1)"
    using o by (simp_all add: opens_def Let_def)
  have res: "res_of s1 b = res_of s b" for b using s1(2) by (simp add: tunnel_at_def)
  have h: "holds sess s = holds sess s0 \<union> res_of s ` set opened" "distinct (map (res_of s) opened)"
    "res_of s ` set opened \<inter> holds sess s0 = {}" "reg_step\<^sup>*\<^sup>* (sv_registry s0) (sv_registry s)"
    using c unfolding collected_def by blast+
  have g: "lets_go sess opened s1 (undoAll env sess opened s1)"
    using h s1 res by (intro undoAll_lets_go) auto
  have low: "tunnels_ok (undoAll env sess opened s1)" "sv_next s0 \<le> sv_next (undoAll env sess opened s1)"
    "\<forall>a< sv_next s0. map_of (sv_tunnels (undoAll env sess opened s1)) a = map_of (sv_tunnels s0) a"
    using c g o by (auto simp: collected_def lets_go_def tunnels_ok_def opens_def Let_def)
  have oth: "others_lose (as_addr sess) (sv_registry s0) (sv_registry (undoAll env sess opened s1))"
  proof (rule others_lose_trans)
    show "others_lose (as_addr sess) (sv_registry s0) (sv_registry s)" using c by (simp add: collected_def)
    have "others_lose (as_addr sess) (sv_registry s) (sv_registry s1)" using o by (simp add: opens_def Let_def)
    then show "others_lose (as_addr sess) (sv_registry s) (sv_registry (undoAll env sess opened s1))"
      using g by (auto simp: lets_go_def intro: others_lose_trans)
  qed
  have "map_of (sv_tunnels s0) a = Some t \<or> \<not> tn_listening t" if "map_of (sv_tunnels (undoAll env sess opened s1)) a = Some t" for a t
  proof (cases "a \<in> set opened")
    case True
    then show ?thesis using g that by (simp add: lets_go_def) (metis option.sel tunnel_at_def)
  next
    case False
    then have a: "map_of (sv_tunnels s) a = Some t" using g that s1(2) by (simp add: lets_go_def)
    then have "a < sv_next s" using c by (metis collected_def tunnels_ok_def not_less option.distinct(1))
    then have "a < sv_next s0" using False c by (auto simp: collected_def)
    then show ?thesis using a c by (simp add: collected_def)
  qed
  moreover have "holds sess (undoAll env sess opened s1) = holds sess s0"
    using g h s1(1) res by (auto simp: lets_go_def)
  ultimately show ?thesis
    using g h(4) s1(3) low oth by (auto simp: undone_def lets_go_def intro: rtranclp_trans)
qed

lemma registerLoop_sound:
  assumes "range_ok cfg" "reg_inv (sv_registry s0)" "tunnels_ok s0"
  shows "collected sess s0 opened s \<Longrightarrow> registerLoop cfg env sess specs opened s = (res, s') \<Longrightarrow>
    (case res of
       Inl _ \<Rightarrow> undone sess s0 s'
     | Inr opened' \<Rightarrow> collected sess s0 opened' s' \<and> length opened' = length opened + length specs)"
proof (induction specs arbitrary: opened s)
  case (Cons spec specs)
  have inv: "reg_inv (sv_registry s)"
    using Cons.prems(1) assms(2) relay.keeps_steps by (auto simp: collected_def)
  obtain got s1 where g: "openTunnel cfg env sess spec s = (got, s1)" by fastforce
  note o = openTunnel_opens [OF inv assms(1) g]
  show ?case
  proof (cases got)
    case (Inl e)
    then show ?thesis
      using Cons.prems g o collected_fails [OF Cons.prems(1) _ assms(3), of e s1 env] by auto
  next
    case (Inr a)
    then show ?thesis
      using Cons.prems(2) g Cons.IH [OF collected_opens [OF Cons.prems(1) o [unfolded Inr]]] by (auto split: sum.splits)
  qed
qed auto

end
