(* ===== verification/Relay_Agent.thy ===== *)
theory Relay_Agent
  imports Relay_Session_Inv Auth_Limiter
begin

text \<open>
  An agent's connection to a relay from its handshake to its end
  (\<open>go/tunnel/relay/session.go\<close>), and the operations of the server that act
  on sessions (\<open>cluster.go\<close>, \<open>admin.go\<close>).  What the connection delivers is a
  list of messages, each with the environment it finds, the time, and
  whether the reply could be written; the list ends with the read error that
  ends the loop.  \<open>relay_step\<close> interleaves the handlers of all sessions.
\<close>

section \<open>State\<close>

text \<open>\<open>rw_sessions\<close> is the server's set of tracked sessions by address;
  \<open>rw_muxClosed\<close> lists the sessions whose connection was closed.\<close>

record relay_World =
  rw_server :: relay_Server
  rw_sessions :: "(nat, agentSession) gomap"
  rw_muxClosed :: "nat list"
  rw_closed :: bool
  rw_draining :: bool
  rw_authFailures :: IPLimiter
  rw_nAuthFailures :: int
  rw_nAccepted :: int

section \<open>Handshake\<close>

record Hello =
  he_ProtocolVersion :: int
  he_Token :: string
  he_AgentId :: string

datatype ControlBody =
    HelloBody Hello
  | RegisterBody "(TunnelSpec \<times> string \<times> string) list"
  | PingBody int int int
  | OtherBody

datatype control_reply =
    Reply reply
  | Welcome string
  | Pong int int

definition protocol_Version :: int where
  "protocol_Version = 1"

datatype handshake_error =
    NoControlStream
  | NotHello
  | UnsupportedVersion
  | NotAuthenticated auth_error
  | NoAgentID
  | WelcomeFailed

text \<open>\<open>errors.Is(err, errUnauthorized)\<close>: \<open>errCertRequired\<close> wraps it, a failed lookup does not.\<close>

definition isUnauthorized :: "handshake_error \<Rightarrow> bool" where
  "isUnauthorized e \<longleftrightarrow> e = NotAuthenticated Unauthorized \<or> e = NotAuthenticated CertRequired"

text \<open>\<open>first\<close> is the first message, if one came; \<open>sent\<close> whether the welcome could be sent.\<close>

definition handshake ::
    "(string \<Rightarrow> TokenRecord option option) \<Rightarrow> (string \<Rightarrow> string \<Rightarrow> bool) \<Rightarrow> (string list \<times> string) option \<Rightarrow>
     ControlBody option \<Rightarrow> bool \<Rightarrow> agentSession \<Rightarrow> (handshake_error, unit) result \<times> agentSession \<times> control_reply list" where
  "handshake toks compare peer first sent sess =
     (case first of
        None \<Rightarrow> (Err NoControlStream, sess, [])
      | Some (HelloBody hello) \<Rightarrow>
          if he_ProtocolVersion hello \<noteq> protocol_Version
          then (Err UnsupportedVersion, sess, [Reply (ErrorReply ERROR_CODE_UNSUPPORTED_VERSION)])
          else (case authenticate toks compare (he_Token hello) peer of
                  Inl e \<Rightarrow> (Err (NotAuthenticated e), sess, [Reply (ErrorReply ERROR_CODE_UNAUTHORIZED)])
                | Inr rec \<Rightarrow>
                    if he_AgentId hello = [] then (Err NoAgentID, sess, [Reply (ErrorReply ERROR_CODE_INVALID_REQUEST)])
                    else (if sent then Ok () else Err WelcomeFailed,
                          sess\<lparr>as_ready := True, as_token := rec, as_agentID := he_AgentId hello\<rparr>, [Welcome (as_id sess)]))
      | Some _ \<Rightarrow> (Err NotHello, sess, [Reply (ErrorReply ERROR_CODE_INVALID_REQUEST)]))"

section \<open>The control loop\<close>

record control_msg =
  cm_body :: ControlBody
  cm_env :: relay_env
  cm_sent :: bool

fun controlLoop ::
    "relay_Config \<Rightarrow> control_msg list \<Rightarrow> agentSession \<times> relay_Server \<Rightarrow> control_reply list \<times> agentSession \<times> relay_Server" where
  "controlLoop cfg [] st = ([], st)"
| "controlLoop cfg (m # ms) st0 =
     (let st = ((fst st0)\<lparr>as_lastSeen := re_now (cm_env m)\<rparr>, snd st0);
          (rep, st') = (case cm_body m of
             RegisterBody specs \<Rightarrow>
               (case register cfg (cm_env m) specs st of
                  (EndSession, st') \<Rightarrow> (None, st')
                | (r, st') \<Rightarrow> (Some (Reply r), st'))
           | PingBody nonce sentAt rtt \<Rightarrow> (Some (Pong nonce sentAt), (fst st)\<lparr>as_rttMicros := rtt\<rparr>, snd st)
           | _ \<Rightarrow> (Some (Reply (ErrorReply ERROR_CODE_INVALID_REQUEST)), st))
      in case rep of
           None \<Rightarrow> ([], st')
         | Some r \<Rightarrow>
             if cm_sent m then (let (rs, st'') = controlLoop cfg ms st' in (r # rs, st'')) else ([r], st'))"

definition missedHeartbeats :: int where
  "missedHeartbeats = 3"

text \<open>One tick of the watchdog.\<close>

definition watchdog_drops :: "int \<Rightarrow> int \<Rightarrow> agentSession \<Rightarrow> bool" where
  "watchdog_drops interval now sess \<longleftrightarrow> now - as_lastSeen sess > missedHeartbeats * interval"

section \<open>Serving an agent\<close>

record agent_conn =
  cn_addr :: nat
  cn_id :: string
  cn_ip :: Addr
  cn_now :: int
  cn_muxOK :: bool
  cn_peer :: "(string list \<times> string) option"
  cn_first :: "ControlBody option"
  cn_sent :: bool
  cn_failed :: int
  cn_msgs :: "control_msg list"
  cn_reason :: DisconnectReason
  cn_env :: relay_env

definition newSession :: "agent_conn \<Rightarrow> agentSession" where
  "newSession c = \<lparr>as_addr = cn_addr c, as_id = cn_id c, as_ready = False,
     as_token = \<lparr>tk_ID = [], tk_Name = [], tk_Hash = [], tk_Created = 0,
       tk_Policy = \<lparr>Names = [], Types = [], MaxTunnels = 0, Ports = [], RequireCert = False, Domains = []\<rparr>, tk_CertSerials = []\<rparr>,
     as_agentID = [], as_lastSeen = 0, as_rttMicros = 0, as_reason = ReasonAgentClosed, as_tunnels = []\<rparr>"

definition sv_call :: "relay_env \<Rightarrow> cluster_call \<Rightarrow> relay_Server \<Rightarrow> relay_Server" where
  "sv_call env c s = (if re_cluster env \<noteq> None then s\<lparr>sv_calls := sv_calls s @ [c]\<rparr> else s)"

definition track :: "agentSession \<Rightarrow> relay_World \<Rightarrow> bool \<times> relay_World" where
  "track sess w = (if rw_closed w then (False, w) else (True, w\<lparr>rw_sessions := AList.update (as_addr sess) sess (rw_sessions w)\<rparr>))"

definition untrack :: "agentSession \<Rightarrow> relay_World \<Rightarrow> relay_World" where
  "untrack sess w = w\<lparr>rw_sessions := AList.delete (as_addr sess) (rw_sessions w)\<rparr>"

text \<open>One connection served alone.  The deferred calls run last: the cluster
  hears that the agent is down, its tunnels close, the session is untracked.\<close>

definition serveAgent ::
    "relay_Config \<Rightarrow> (string \<Rightarrow> TokenRecord option option) \<Rightarrow> (string \<Rightarrow> string \<Rightarrow> bool) \<Rightarrow> agent_conn \<Rightarrow> relay_World \<Rightarrow>
     control_reply list \<times> relay_World" where
  "serveAgent cfg toks compare c w0 =
     (let (ex, l) = Exhausted (cn_ip c) (cn_now c) (rw_authFailures w0); w1 = w0\<lparr>rw_authFailures := l\<rparr>; sess0 = newSession c in
      if ex \<or> rw_draining w1 \<or> \<not> cn_muxOK c then ([], w1)
      else let (tracked, w2) = track sess0 w1 in
      if \<not> tracked then ([], w2)
      else let (res, sess1, rs) = handshake toks compare (cn_peer c) (cn_first c) (cn_sent c) sess0 in
      case res of
        Inl e \<Rightarrow>
          (let w3 = (if isUnauthorized e
                     then w2\<lparr>rw_authFailures := snd (Allow (cn_ip c) (cn_failed c) (rw_authFailures w2)), rw_nAuthFailures := rw_nAuthFailures w2 + 1\<rparr>
                     else w2);
               (sess2, s) = closeTunnels (cn_env c) (sess1, rw_server w3)
           in (rs, untrack sess2 (w3\<lparr>rw_server := s\<rparr>)))
      | Inr _ \<Rightarrow>
          (let w3 = w2\<lparr>rw_nAccepted := rw_nAccepted w2 + 1\<rparr>;
               s1 = sv_call (cn_env c) (AgentUp (as_agentID sess1) (as_id sess1) (tk_ID (as_token sess1))) (rw_server w3);
               (rs', sess2, s2) = controlLoop cfg (cn_msgs c) (sess1, s1);
               sess3 = sess2\<lparr>as_reason := cn_reason c\<rparr>;
               s3 = sv_call (cn_env c) (AgentDown (as_agentID sess3) (as_id sess3) (as_reason sess3)) s2;
               (sess4, s4) = closeTunnels (cn_env c) (sess3, s3)
           in (rs @ rs', untrack sess4 (w3\<lparr>rw_server := s4\<rparr>))))"

section \<open>Operations on sessions\<close>

definition sess_close :: "DisconnectReason \<Rightarrow> nat \<Rightarrow> relay_World \<Rightarrow> relay_World" where
  "sess_close reason a w =
     w\<lparr>rw_sessions := (case map_of (rw_sessions w) a of
          None \<Rightarrow> rw_sessions w
        | Some sess \<Rightarrow> AList.update a (if as_reason sess = ReasonAgentClosed then sess\<lparr>as_reason := reason\<rparr> else sess) (rw_sessions w)),
       rw_muxClosed := a # rw_muxClosed w\<rparr>"

definition DisconnectAgent :: "string \<Rightarrow> DisconnectReason \<Rightarrow> relay_World \<Rightarrow> nat \<times> relay_World" where
  "DisconnectAgent agentID reason w =
     (let as = map fst (filter (\<lambda>(_, sess). as_agentID sess = agentID) (rw_sessions w))
      in (length as, fold (sess_close reason) as w))"

definition CloseTunnel :: "string \<Rightarrow> DisconnectReason \<Rightarrow> relay_World \<Rightarrow> bool \<times> relay_World" where
  "CloseTunnel tunnelID reason w =
     (case find (\<lambda>(_, sess). \<exists>a\<in>set (as_tunnels sess). tn_TunnelId (tunnel_at (rw_server w) a) = tunnelID) (rw_sessions w) of
        None \<Rightarrow> (False, w)
      | Some (a, _) \<Rightarrow> (True, sess_close reason a w))"

definition onRegistry :: "(nameRegistry \<Rightarrow> nameRegistry) \<Rightarrow> relay_World \<Rightarrow> relay_World" where
  "onRegistry f w = w\<lparr>rw_server := (rw_server w)\<lparr>sv_registry := f (sv_registry (rw_server w))\<rparr>\<rparr>"

definition DisconnectToken :: "string \<Rightarrow> relay_World \<Rightarrow> nat \<times> relay_World" where
  "DisconnectToken tokenID w =
     (let (holders, r) = reg_releaseToken tokenID (sv_registry (rw_server w));
          w1 = onRegistry (\<lambda>_. r) w;
          as = remdups (holders @ map fst (filter (\<lambda>(_, sess). as_ready sess \<and> tk_ID (as_token sess) = tokenID) (rw_sessions w1)))
      in (length as, fold (sess_close ReasonTokenRevoked) as w1))"

definition Reserve :: "relay_Config \<Rightarrow> string \<Rightarrow> string \<Rightarrow> int \<Rightarrow> relay_World \<Rightarrow> (RuleError, unit) result \<times> relay_World" where
  "Reserve cfg name tokenID port w =
     (case CheckReservation (relay_rules cfg) name port of
        Inl e \<Rightarrow> (Err e, w)
      | Inr _ \<Rightarrow>
          (let (res, r) = reg_reserve name tokenID port (sv_registry (rw_server w)) in (res, onRegistry (\<lambda>_. r) w)))"

definition Unreserve :: "string \<Rightarrow> relay_World \<Rightarrow> relay_World" where
  "Unreserve name = onRegistry (reg_unreserve name)"

text \<open>\<open>Drain\<close> closes the sessions one by one in a goroutine of its own; \<open>n\<close> is
  how many it got to before the relay was resumed.\<close>

definition Drain :: "nat \<Rightarrow> relay_World \<Rightarrow> relay_World" where
  "Drain n w =
     (if rw_draining w then w
      else fold (sess_close ReasonDrained) (take n (map fst (rw_sessions w))) (w\<lparr>rw_draining := True\<rparr>))"

definition Resume :: "relay_World \<Rightarrow> relay_World" where
  "Resume w = w\<lparr>rw_draining := False\<rparr>"

text \<open>Closing the server: every session's connection is closed (without a reason),
  and when the sessions have ended the registry is.\<close>

definition Close_begin :: "relay_World \<Rightarrow> relay_World" where
  "Close_begin w = (if rw_closed w then w else w\<lparr>rw_closed := True, rw_muxClosed := map fst (rw_sessions w) @ rw_muxClosed w\<rparr>)"

definition Close_end :: "relay_World \<Rightarrow> relay_World" where
  "Close_end = onRegistry reg_close"

section \<open>Interleavings\<close>

text \<open>Every session runs its own goroutine: arriving, the handshake, each
  control message and leaving are steps of any session; the timers of the registry and
  the operators act in between.\<close>

inductive relay_step :: "relay_Config \<Rightarrow> relay_World \<Rightarrow> relay_World \<Rightarrow> bool" for cfg where
  arrive: "map_of (rw_sessions w) (cn_addr c) = None \<Longrightarrow> track (newSession c) w = (True, w') \<Longrightarrow> relay_step cfg w w'"
| hello: "map_of (rw_sessions w) a = Some sess \<Longrightarrow> handshake toks compare peer first sent sess = (res, sess', rs) \<Longrightarrow>
    relay_step cfg w (w\<lparr>rw_sessions := AList.update a sess' (rw_sessions w)\<rparr>)"
| message: "map_of (rw_sessions w) a = Some sess \<Longrightarrow> controlLoop cfg [m] (sess, rw_server w) = (rs, sess', s') \<Longrightarrow>
    relay_step cfg w (w\<lparr>rw_server := s', rw_sessions := AList.update a sess' (rw_sessions w)\<rparr>)"
| leave: "map_of (rw_sessions w) a = Some sess \<Longrightarrow> closeTunnels env (sess, rw_server w) = (sess', s') \<Longrightarrow>
    relay_step cfg w (untrack sess' (w\<lparr>rw_server := s'\<rparr>))"
| expire: "relay_step cfg w (onRegistry (reg_expire i) w)"
| disconnectAgent: "relay_step cfg w (snd (DisconnectAgent agentID reason w))"
| closeTunnel: "relay_step cfg w (snd (CloseTunnel tunnelID reason w))"
| disconnectToken: "relay_step cfg w (snd (DisconnectToken tokenID w))"
| reserve: "relay_step cfg w (snd (Reserve cfg name tokenID port w))"
| unreserve: "relay_step cfg w (Unreserve name w)"
| drain: "relay_step cfg w (Drain n w)"
| resume: "relay_step cfg w (Resume w)"
| closing: "relay_step cfg w (Close_begin w)"
| closed: "relay_step cfg w (Close_end w)"

end
