(* ===== verification/Relay_Router.thy ===== *)
theory Relay_Router
  imports Relay_Agent Transport
begin

text \<open>
  How a relay routes what reaches it: the shared TLS listener
  (\<open>go/tunnel/relay/router.go\<close>), the stream port and forwarding between relays
  (\<open>cluster.go\<close>), public tunnel ports (\<open>tunnel.go\<close>), the SSH gateway
  (\<open>gateway.go\<close>) and admission (\<open>admin.go\<close>).  A connection's outcome says what
  was done with it; the bytes that follow are copied by \<open>pipe\<close>.  What the peer
  does (its client hello, whether a handshake succeeds, the token it sends),
  dialing and the cluster are arguments.
\<close>

section \<open>Types\<close>

text \<open>A peer's address: the IP of a TCP address, if it is one, and its text.\<close>

record net_Addr =
  na_TCP :: "Addr option"
  na_String :: string

record ClientHello =
  ch_ServerName :: string
  ch_SupportedProtos :: "string list"

text \<open>The part of the server connections change.\<close>

record relay_Front =
  fr_connLimit :: IPLimiter
  fr_authFailures :: IPLimiter
  fr_nAuthFailures :: int
  fr_rejectedRate :: int
  fr_rejectedIP :: int
  fr_rejectedNoRoute :: int

text \<open>\<open>rv_OwnerOf\<close> is \<^const>\<open>None\<close> on a standalone relay.  \<open>rv_authMsg\<close> is the access token
  the client sends, if it sends one; \<open>rv_wrote\<close> whether the answer could be written.\<close>

record router_env =
  rv_now :: int
  rv_unix :: "64 word"
  rv_terminate :: bool
  rv_negotiated :: string
  rv_authMsg :: "string option"
  rv_wrote :: bool
  rv_OwnerOf :: "(string \<Rightarrow> string option) option"
  rv_StreamOwnerOf :: "string \<Rightarrow> (string \<times> bool) option"
  rv_dial :: "string \<Rightarrow> bool"
  rv_writeHeader :: bool
  rv_ForwardKey :: string

datatype conn_outcome =
    Hangup
  | Rejected
  | AgentConn
  | AgentWebSocket
  | HTTPConn
  | Passthrough nat
  | ModeB nat
  | RelayedTo string "TLV list"

definition ALPN :: string where "ALPN = ''l8tunnel/1''"
definition ConnectALPN :: string where "ConnectALPN = ''l8tunnel-connect/1''"
definition ConnectTokenALPN :: string where "ConnectTokenALPN = ''l8tunnel-connect-token/1''"

section \<open>Admission\<close>

definition remoteIP :: "net_Addr \<Rightarrow> Addr" where
  "remoteIP a =
     (case na_TCP a of
        Some ip \<Rightarrow> Unmap ip
      | None \<Rightarrow> (case ParseAddrPort (na_String a) of None \<Rightarrow> AddrInvalid | Some (ip, _) \<Rightarrow> Unmap ip))"

definition admit :: "int \<Rightarrow> net_Addr \<Rightarrow> Access option \<Rightarrow> relay_Front \<Rightarrow> bool \<times> relay_Front" where
  "admit now addr access f =
     (let ip = remoteIP addr; (ok, l) = Allow ip now (fr_connLimit f); f1 = f\<lparr>fr_connLimit := l\<rparr> in
      if \<not> ok then (False, f1\<lparr>fr_rejectedRate := fr_rejectedRate f1 + 1\<rparr>)
      else if (case access of Some a \<Rightarrow> \<not> AllowsIP a ip | None \<Rightarrow> False)
      then (False, f1\<lparr>fr_rejectedIP := fr_rejectedIP f1 + 1\<rparr>)
      else (True, f1))"

section \<open>Resolving names\<close>

definition offers :: "string list \<Rightarrow> string \<Rightarrow> bool" where
  "offers protos want \<longleftrightarrow> want \<in> set protos"

text \<open>\<open>registry.lookup\<close> gives the zero type for an unknown name.\<close>

definition lookup_tunnel :: "nameRegistry \<Rightarrow> string \<Rightarrow> nat option \<times> TunnelType" where
  "lookup_tunnel r name = (case reg_lookup r name of None \<Rightarrow> (None, TUNNEL_TYPE_UNSPECIFIED) | Some x \<Rightarrow> x)"

definition resolveHost :: "relay_Config \<Rightarrow> nameRegistry \<Rightarrow> string \<Rightarrow> nat option \<times> TunnelType \<times> string" where
  "resolveHost cfg r host0 =
     (let host = ToLower (TrimSuffix host0 ''.''); name = TunnelName (relay_rules cfg) host in
      if name \<noteq> [] then (let (t, typ) = lookup_tunnel r name in (t, typ, name))
      else case reg_lookupDomain r host of
             None \<Rightarrow> (None, TUNNEL_TYPE_UNSPECIFIED, [])
           | Some x \<Rightarrow> x)"

definition relay_lookupHTTP :: "relay_Config \<Rightarrow> nameRegistry \<Rightarrow> string \<Rightarrow> nat option \<times> State \<times> string" where
  "relay_lookupHTTP cfg r host =
     (let (t, typ, name) = resolveHost cfg r host; found = (reg_lookup r name \<noteq> None) in
      if name = [] then (None, StateUnknown, [])
      else if \<not> found \<or> typ \<noteq> TUNNEL_TYPE_HTTP then (None, StateUnknown, name)
      else if t = None then (None, StateOffline, name)
      else (t, StateActive, name))"

definition IsTunnelHost :: "relay_Config \<Rightarrow> nameRegistry \<Rightarrow> string \<Rightarrow> bool" where
  "IsTunnelHost cfg r host \<longleftrightarrow>
     (case rc_Login cfg of Some (authHost, _) \<Rightarrow> ToLower host = authHost | None \<Rightarrow> False) \<or>
     reg_lookup r (snd (snd (resolveHost cfg r host))) \<noteq> None"

definition OIDCRuleFor :: "relay_Config \<Rightarrow> relay_Server \<Rightarrow> string \<Rightarrow> OIDCRule option" where
  "OIDCRuleFor cfg s host =
     (let (t, typ, _) = resolveHost cfg (sv_registry s) host in
      case t of
        None \<Rightarrow> None
      | Some a \<Rightarrow> if typ \<noteq> TUNNEL_TYPE_HTTP then None else ac_oidc (tn_access (tunnel_at s a)))"

section \<open>The shared listener\<close>

definition forwardToOwner :: "router_env \<Rightarrow> TLV list \<Rightarrow> net_Addr \<Rightarrow> string \<Rightarrow> conn_outcome option" where
  "forwardToOwner env tlvs client host =
     (case rv_OwnerOf env of
        None \<Rightarrow> None
      | Some OwnerOf \<Rightarrow>
          if FindTLV tlvs TLVAuth \<noteq> None then None
          else case OwnerOf host of
                 None \<Rightarrow> None
               | Some addr \<Rightarrow>
                   if \<not> rv_dial env addr \<or> \<not> rv_writeHeader env then None
                   else Some (RelayedTo addr (SignedTLVs (rv_ForwardKey env) host (na_String client) (rv_unix env))))"

definition serveTokenTunnel ::
    "router_env \<Rightarrow> nat \<Rightarrow> Access \<Rightarrow> ClientHello \<Rightarrow> net_Addr \<Rightarrow> relay_Front \<Rightarrow> conn_outcome \<times> relay_Front" where
  "serveTokenTunnel env a access hello client f =
     (let ip = remoteIP client; (ex, l) = Exhausted ip (rv_now env) (fr_authFailures f); f1 = f\<lparr>fr_authFailures := l\<rparr> in
      if ex then (Rejected, f1)
      else if \<not> offers (ch_SupportedProtos hello) ConnectTokenALPN then (Rejected, f1)
      else if \<not> rv_terminate env then (Hangup, f1)
      else case rv_authMsg env of
             None \<Rightarrow> (Hangup, f1)
           | Some token \<Rightarrow>
               if \<not> rv_wrote env then (Hangup, f1)
               else if \<not> CheckToken access token
               then (Hangup, f1\<lparr>fr_authFailures := snd (Allow ip (rv_now env) (fr_authFailures f1)), fr_nAuthFailures := fr_nAuthFailures f1 + 1\<rparr>)
               else (ModeB a, f1))"

text \<open>\<open>terminate\<close> with the given next step, else the connection is closed.\<close>

definition terminated :: "router_env \<Rightarrow> conn_outcome \<Rightarrow> conn_outcome" where
  "terminated env out = (if rv_terminate env then out else Hangup)"

definition controlConn :: "router_env \<Rightarrow> ClientHello \<Rightarrow> conn_outcome" where
  "controlConn env hello =
     (let protos = ch_SupportedProtos hello in
      if \<not> offers protos ALPN \<and> offers protos ''http/1.1'' then terminated env AgentWebSocket
      else if \<not> offers protos ALPN then Rejected
      else terminated env (if rv_negotiated env = ALPN then AgentConn else Hangup))"

definition serveConn ::
    "relay_Config \<Rightarrow> router_env \<Rightarrow> relay_Server \<Rightarrow> net_Addr \<Rightarrow> TLV list \<Rightarrow> ClientHello option \<Rightarrow> relay_Front \<Rightarrow>
     conn_outcome \<times> relay_Front" where
  "serveConn cfg env s client tlvs peeked f0 =
     (let (ok, f) = admit (rv_now env) client None f0 in
      if \<not> ok then (Hangup, f)
      else case peeked of
        None \<Rightarrow> (Hangup, f)
      | Some hello \<Rightarrow>
          (let sni = ToLower (TrimSuffix (ch_ServerName hello) ''.'') in
           if sni = rc_ControlSNI cfg then (controlConn env hello, f)
           else if (case rc_Login cfg of Some (authHost, _) \<Rightarrow> sni = authHost | None \<Rightarrow> False) then (terminated env HTTPConn, f)
           else
             (let (t, typ, name) = resolveHost cfg (sv_registry s) sni in
              case (if t = None then forwardToOwner env tlvs client sni else None) of
                Some out \<Rightarrow> (out, f)
              | None \<Rightarrow>
                  (case t of
                     Some a \<Rightarrow>
                       (let access = tn_access (tunnel_at s a) in
                        if \<not> AllowsIP access (remoteIP client) \<and> typ \<noteq> TUNNEL_TYPE_HTTP
                        then (Rejected, f\<lparr>fr_rejectedIP := fr_rejectedIP f + 1\<rparr>)
                        else if typ = TUNNEL_TYPE_TLS then (Passthrough a, f)
                        else if hasPublicPort typ \<and> RequiresToken access then serveTokenTunnel env a access hello client f
                        else if hasPublicPort typ then (terminated env (ModeB a), f)
                        else if name \<noteq> [] \<and> (typ = TUNNEL_TYPE_HTTP \<or> \<not> offers (ch_SupportedProtos hello) ConnectALPN)
                        then (terminated env HTTPConn, f)
                        else (Rejected, f\<lparr>fr_rejectedNoRoute := fr_rejectedNoRoute f + 1\<rparr>))
                   | None \<Rightarrow>
                       if name \<noteq> [] \<and> (typ = TUNNEL_TYPE_HTTP \<or> \<not> offers (ch_SupportedProtos hello) ConnectALPN)
                       then (terminated env HTTPConn, f)
                       else (Rejected, f\<lparr>fr_rejectedNoRoute := fr_rejectedNoRoute f + 1\<rparr>)))))"

section \<open>Streams and public ports\<close>

definition serveStream ::
    "router_env \<Rightarrow> relay_Server \<Rightarrow> net_Addr \<Rightarrow> TLV list \<Rightarrow> relay_Front \<Rightarrow> conn_outcome \<times> relay_Front" where
  "serveStream env s client tlvs f =
     (case VerifySignedTLVs (rv_ForwardKey env) tlvs (na_String client) (rv_unix env) of
        Inl _ \<Rightarrow> (Hangup, f)
      | Inr name \<Rightarrow>
          (case fst (lookup_tunnel (sv_registry s) name) of
             None \<Rightarrow> (Hangup, f\<lparr>fr_rejectedNoRoute := fr_rejectedNoRoute f + 1\<rparr>)
           | Some a \<Rightarrow>
               (let (ok, f1) = admit (rv_now env) client (Some (tn_access (tunnel_at s a))) f
                in if ok then (Passthrough a, f1) else (Hangup, f1))))"

text \<open>One connection accepted on a tunnel's public port.\<close>

definition tunnel_serve :: "int \<Rightarrow> relay_Server \<Rightarrow> nat \<Rightarrow> net_Addr \<Rightarrow> relay_Front \<Rightarrow> conn_outcome \<times> relay_Front" where
  "tunnel_serve now s a client f =
     (let (ok, f1) = admit now client (Some (tn_access (tunnel_at s a))) f in if ok then (Passthrough a, f1) else (Hangup, f1))"

section \<open>The SSH gateway\<close>

record directTCPIP =
  dt_Host :: string
  dt_Port :: int

datatype gateway_result =
    LocalTunnel nat
  | RemoteRelay string
  | Refused

text \<open>The tunnel a channel asks for.\<close>

definition gatewayName :: "relay_Config \<Rightarrow> directTCPIP \<Rightarrow> string" where
  "gatewayName cfg req =
     (let host0 = ToLower (TrimSuffix (dt_Host req) ''.'');
          host = (if CHR ''.'' \<notin> set host0 then host0 @ ''.'' @ rc_BaseDomain cfg else host0)
      in TunnelName (relay_rules cfg) host)"

text \<open>\<open>keys\<close> looks a gateway key up by fingerprint: \<^const>\<open>None\<close> when it failed or there is none.\<close>

definition gatewayTarget ::
    "relay_Config \<Rightarrow> router_env \<Rightarrow> (string \<Rightarrow> GatewayKey option) \<Rightarrow> string \<Rightarrow> net_Addr \<Rightarrow> directTCPIP \<Rightarrow> relay_Server \<Rightarrow> relay_Front \<Rightarrow>
     gateway_result \<times> relay_Front" where
  "gatewayTarget cfg env keys fingerprint client req s f =
     (let name = gatewayName cfg req in
      if name = [] then (Refused, f)
      else case keys fingerprint of
             None \<Rightarrow> (Refused, f)
           | Some key \<Rightarrow>
               (let (t, typ) = lookup_tunnel (sv_registry s) name in
                if t = None \<and> rv_OwnerOf env \<noteq> None
                then (case rv_StreamOwnerOf env name of
                        None \<Rightarrow> (Refused, f)
                      | Some (addr, accessToken) \<Rightarrow>
                          if \<not> GatewayKey_Allows key name accessToken then (Refused, f) else (RemoteRelay addr, f))
                else case t of
                       None \<Rightarrow> (Refused, f)
                     | Some a \<Rightarrow>
                         (let tn = tunnel_at s a in
                          if \<not> hasPublicPort typ then (Refused, f)
                          else if dt_Port req \<noteq> 22 \<and> dt_Port req \<noteq> tn_PublicPort tn then (Refused, f)
                          else if \<not> GatewayKey_Allows key name (RequiresToken (tn_access tn)) then (Refused, f)
                          else if \<not> AllowsIP (tn_access tn) (remoteIP client)
                          then (Refused, f\<lparr>fr_rejectedIP := fr_rejectedIP f + 1\<rparr>)
                          else (LocalTunnel a, f))))"

text \<open>A channel that goes to another relay: the header it is sent with.\<close>

definition gatewayRemote :: "relay_Config \<Rightarrow> router_env \<Rightarrow> net_Addr \<Rightarrow> directTCPIP \<Rightarrow> string \<Rightarrow> conn_outcome" where
  "gatewayRemote cfg env client req addr =
     (if \<not> rv_dial env addr \<or> \<not> rv_writeHeader env then Rejected
      else RelayedTo addr (SignedTLVs (rv_ForwardKey env) (gatewayName cfg req) (na_String client) (rv_unix env)))"

text \<open>A gateway connection up to its login; \<open>login\<close> is the key's fingerprint if the SSH
  handshake succeeded, \<open>hangup\<close> whether it failed on a hangup connection.\<close>

definition serveGateway :: "router_env \<Rightarrow> net_Addr \<Rightarrow> string option \<Rightarrow> bool \<Rightarrow> relay_Front \<Rightarrow> string option \<times> relay_Front" where
  "serveGateway env client login hangup f0 =
     (let ip = remoteIP client; (ok, f) = admit (rv_now env) client None f0 in
      if \<not> ok then (None, f)
      else let (ex, l) = Exhausted ip (rv_now env) (fr_authFailures f); f1 = f\<lparr>fr_authFailures := l\<rparr> in
           if ex then (None, f1)
           else case login of
                  Some fp \<Rightarrow> (Some fp, f1)
                | None \<Rightarrow>
                    (None, if hangup then f1
                           else f1\<lparr>fr_authFailures := snd (Allow ip (rv_now env) (fr_authFailures f1)), fr_nAuthFailures := fr_nAuthFailures f1 + 1\<rparr>))"

definition gatewayKeyCallback :: "(string \<Rightarrow> GatewayKey option) \<Rightarrow> string \<Rightarrow> (string \<times> string) option" where
  "gatewayKeyCallback keys fp = map_option (\<lambda>k. (fp, gk_Name k)) (keys fp)"

end
