(* ===== verification/Relay_Link.thy ===== *)
theory Relay_Link
  imports Relay_Router Live_View
begin

text \<open>
  A relay's side of the cluster: \<open>go/tun/relaynode/link.go\<close>, which claims tunnels
  at the registry's engine and finds the relay that holds a tunnel, the
  conversions of \<open>go/tun/common/convert.go\<close> it uses, and the commands of
  \<open>ctl.go\<close>.  What a request over the network comes back with is an argument:
  the answers of the attempts, each with the time it ended.
\<close>

section \<open>Conversions\<close>

definition tunTypeNames :: "(TunTunnelType, string) gomap" where
  "tunTypeNames = [(TUN_TUNNEL_TYPE_TCP, ''tcp''), (TUN_TUNNEL_TYPE_SSH, ''ssh''),
     (TUN_TUNNEL_TYPE_HTTP, ''http''), (TUN_TUNNEL_TYPE_TLS, ''tls'')]"

definition TunTunnelTypeName :: "TunTunnelType \<Rightarrow> string" where
  "TunTunnelTypeName t = get_str tunTypeNames t"

definition TunnelTypeOf :: "string \<Rightarrow> TunTunnelType option" where
  "TunnelTypeOf name = map_option fst (find (\<lambda>(_, n). n = name) tunTypeNames)"

definition wireCode :: "TunClaimError \<Rightarrow> ErrorCode" where
  "wireCode e =
     (case e of
        TUN_CLAIM_ERROR_NAME_TAKEN \<Rightarrow> ERROR_CODE_NAME_TAKEN
      | TUN_CLAIM_ERROR_MAX_TUNNELS \<Rightarrow> ERROR_CODE_FORBIDDEN
      | TUN_CLAIM_ERROR_FORBIDDEN \<Rightarrow> ERROR_CODE_FORBIDDEN
      | TUN_CLAIM_ERROR_PORT_UNAVAILABLE \<Rightarrow> ERROR_CODE_PORT_UNAVAILABLE
      | TUN_CLAIM_ERROR_PORT_NOT_ALLOWED \<Rightarrow> ERROR_CODE_PORT_NOT_ALLOWED
      | _ \<Rightarrow> ERROR_CODE_INVALID_REQUEST)"

definition link_disconnectReason :: "DisconnectReason \<Rightarrow> TunDisconnectReason" where
  "link_disconnectReason r =
     (case r of
        ReasonHeartbeat \<Rightarrow> TUN_DISCONNECT_REASON_HEARTBEAT_TIMEOUT
      | ReasonTokenRevoked \<Rightarrow> TUN_DISCONNECT_REASON_TOKEN_REVOKED
      | ReasonDrained \<Rightarrow> TUN_DISCONNECT_REASON_RELAY_DRAINED
      | ReasonTakeover \<Rightarrow> TUN_DISCONNECT_REASON_TAKEOVER
      | ReasonOperator \<Rightarrow> TUN_DISCONNECT_REASON_OPERATOR
      | _ \<Rightarrow> TUN_DISCONNECT_REASON_AGENT_CLOSED)"

section \<open>Requests\<close>

definition claimRetry :: int where
  "claimRetry = 10 * 10 ^ 9"

definition ownersTTL :: int where
  "ownersTTL = 5 * 10 ^ 9"

text \<open>An empty request of a kind; \<open>ask\<close> puts the relay's ID into every one.\<close>

definition link_ask :: "string \<Rightarrow> TunClaimKind \<Rightarrow> TunClaimRequest" where
  "link_ask relayID kind = \<lparr>rq_Kind = kind, rq_RelayId = relayID, rq_SessionId = [], rq_AgentId = [], rq_TokenId = [],
     rq_MaxTunnels = 0, rq_PortMin = 0, rq_PortMax = 0, rq_Tunnels = [], rq_Names = [], rq_GraceUntil = 0, rq_Agent = None,
     rq_Agents = [], rq_Relay = None, rq_Reason = TUN_DISCONNECT_REASON_UNSPECIFIED\<rparr>"

definition link_tunnel :: "ClaimRequest \<Rightarrow> TunTunnelType \<Rightarrow> TunLiveTunnel" where
  "link_tunnel c typ = \<lparr>tl_TunnelId = cr_TunnelID c, tl_Name = cr_Name c, tl_Type = typ, tl_Hostname = cr_Hostname c,
     tl_Domains = cr_Domains c, tl_PublicPort = int32 (cr_PublicPort c), tl_RelayId = [], tl_AgentId = [], tl_TokenId = [],
     tl_State = TUN_LIVE_STATE_UNSPECIFIED, tl_ConnectedAt = 0, tl_GraceUntil = 0, tl_ActiveConns = 0, tl_TotalConns = 0,
     tl_BytesIn = 0, tl_BytesOut = 0, tl_Simulated = False, tl_SessionId = [], tl_AccessToken = cr_AccessToken c,
     tl_PreviousPort = int32 (cr_PreviousPort c)\<rparr>"

definition link_request :: "string \<Rightarrow> ClaimRequest \<Rightarrow> TunTunnelType \<Rightarrow> TunClaimRequest" where
  "link_request relayID c typ = (link_ask relayID TUN_CLAIM_KIND_CLAIM)\<lparr>rq_SessionId := cr_SessionID c,
     rq_AgentId := cr_AgentID c, rq_TokenId := cr_TokenID c, rq_MaxTunnels := int32 (cr_MaxTunnels c),
     rq_PortMin := int32 (cr_PortMin c), rq_PortMax := int32 (cr_PortMax c), rq_Tunnels := [link_tunnel c typ]\<rparr>"

text \<open>The retry loop: \<^const>\<open>None\<close> while the attempts given do not end it.  Other errors
  than the two kinds of \<^typ>\<open>open_error\<close> reach the agent as an invalid request.\<close>

type_synonym attempts = "(TunClaimResponse option \<times> int) list"

fun claimLoop :: "int \<Rightarrow> attempts \<Rightarrow> (open_error, int) result option" where
  "claimLoop deadline [] = None"
| "claimLoop deadline ((Some resp, _) # _) =
     (if rp_Error resp \<noteq> TUN_CLAIM_ERROR_UNSPECIFIED then Some (Err (Remote (wireCode (rp_Error resp))))
      else case rp_Tunnels resp of
             [t] \<Rightarrow> Some (Ok (tl_PublicPort t))
           | _ \<Rightarrow> Some (Err (Remote ERROR_CODE_INVALID_REQUEST)))"
| "claimLoop deadline ((None, now) # rest) =
     (if now > deadline then Some (Err ClusterUnavailable) else claimLoop deadline rest)"

definition link_ClaimTunnel :: "int \<Rightarrow> (TunClaimRequest \<Rightarrow> attempts) \<Rightarrow> string \<Rightarrow> ClaimRequest \<Rightarrow> (open_error, int) result option" where
  "link_ClaimTunnel now answers relayID c =
     (case TunnelTypeOf (TunnelTypeName (cr_Type c)) of
        None \<Rightarrow> Some (Err (Remote ERROR_CODE_INVALID_REQUEST))
      | Some typ \<Rightarrow> claimLoop (now + claimRetry) (answers (link_request relayID c typ)))"

text \<open>A granted claim invalidates the copy of the live tables.\<close>

definition claimed_view :: "(open_error, int) result option \<Rightarrow> LiveView \<Rightarrow> LiveView" where
  "claimed_view res v = (case res of Some (Inr _) \<Rightarrow> Invalidate v | _ \<Rightarrow> v)"

text \<open>The requests nobody waits for.\<close>

definition link_ParkTunnels :: "string \<Rightarrow> string \<Rightarrow> string list \<Rightarrow> TunClaimRequest" where
  "link_ParkTunnels relayID sessionID names =
     (link_ask relayID TUN_CLAIM_KIND_PARK)\<lparr>rq_SessionId := sessionID, rq_Names := names\<rparr>"

definition link_ReleaseTunnels :: "string \<Rightarrow> string \<Rightarrow> string list \<Rightarrow> TunClaimRequest" where
  "link_ReleaseTunnels relayID sessionID names =
     (link_ask relayID TUN_CLAIM_KIND_RELEASE)\<lparr>rq_SessionId := sessionID, rq_Names := names\<rparr>"

record AgentInfo =
  ai_SessionID :: string
  ai_AgentID :: string
  ai_TokenID :: string
  ai_TokenName :: string
  ai_CertSerial :: string
  ai_Version :: string
  ai_OS :: string
  ai_Arch :: string
  ai_PublicIP :: string
  ai_WebSocket :: bool
  ai_ConnectedAt :: int

text \<open>\<open>ai_ConnectedAt\<close> is in seconds.\<close>

definition link_AgentUp :: "string \<Rightarrow> AgentInfo \<Rightarrow> TunClaimRequest" where
  "link_AgentUp relayID a =
     (link_ask relayID TUN_CLAIM_KIND_AGENT_UP)\<lparr>rq_Agent := Some
        \<lparr>ag_AgentId = ai_AgentID a, ag_TokenId = ai_TokenID a, ag_TokenName = ai_TokenName a, ag_CertSerial = ai_CertSerial a,
         ag_SessionId = ai_SessionID a, ag_Version = ai_Version a, ag_Os = ai_OS a, ag_Arch = ai_Arch a, ag_PublicIp = ai_PublicIP a,
         ag_RelayId = [],
         ag_Transport = (if ai_WebSocket a then TUN_AGENT_TRANSPORT_WEBSOCKET else TUN_AGENT_TRANSPORT_TLS),
         ag_State = TUN_AGENT_STATE_UNSPECIFIED, ag_ConnectedAt = ai_ConnectedAt a, ag_LastHeartbeat = 0, ag_RttUs = 0, ag_TunnelCount = 0,
         ag_ActiveStreams = 0, ag_BytesIn = 0, ag_BytesOut = 0, ag_GraceUntil = 0, ag_LastSeen = 0,
         ag_DisconnectReason = TUN_DISCONNECT_REASON_UNSPECIFIED, ag_Simulated = False\<rparr>\<rparr>"

definition link_AgentDown :: "string \<Rightarrow> string \<Rightarrow> string \<Rightarrow> DisconnectReason \<Rightarrow> TunClaimRequest" where
  "link_AgentDown relayID agentID sessionID reason =
     (link_ask relayID TUN_CLAIM_KIND_AGENT_DOWN)\<lparr>rq_AgentId := agentID, rq_SessionId := sessionID,
        rq_Reason := link_disconnectReason reason\<rparr>"

section \<open>Finding the owner\<close>

definition link_owner ::
    "Rules \<Rightarrow> string \<Rightarrow> int \<Rightarrow> waited \<Rightarrow> waited \<Rightarrow> LiveView \<Rightarrow> string \<Rightarrow> (TunLiveTunnel \<times> TunRelay) option" where
  "link_owner rules relayID now w1 w2 v host =
     (case fst (view_Tunnel rules host relayID now w1 w2 v) of
        None \<Rightarrow> None
      | Some (t, r) \<Rightarrow> if tl_RelayId t = relayID then None else Some (t, r))"

definition link_OwnerOf :: "Rules \<Rightarrow> string \<Rightarrow> int \<Rightarrow> waited \<Rightarrow> waited \<Rightarrow> LiveView \<Rightarrow> string \<Rightarrow> string option" where
  "link_OwnerOf rules relayID now w1 w2 v host =
     map_option (\<lambda>(_, r). JoinHostPort (rl_PodIp r) (rl_TlsPort r)) (link_owner rules relayID now w1 w2 v host)"

definition link_StreamOwnerOf :: "Rules \<Rightarrow> string \<Rightarrow> int \<Rightarrow> waited \<Rightarrow> waited \<Rightarrow> LiveView \<Rightarrow> string \<Rightarrow> (string \<times> bool) option" where
  "link_StreamOwnerOf rules relayID now w1 w2 v name =
     map_option (\<lambda>(t, r). (JoinHostPort (rl_PodIp r) (rl_StreamPort r), tl_AccessToken t))
       (link_owner rules relayID now w1 w2 v (name @ ''.'' @ BaseDomain rules))"

section \<open>Lemmas\<close>

lemma TunnelTypeOf_name:
  "TunnelTypeOf (TunTunnelTypeName t) = (if t = TUN_TUNNEL_TYPE_UNSPECIFIED then None else Some t)"
  by (cases t) (simp_all add: TunnelTypeOf_def TunTunnelTypeName_def tunTypeNames_def get_str_def)

lemma TunnelTypeOf_wire:
  "TunnelTypeOf (TunnelTypeName t) = Some u \<Longrightarrow> t \<noteq> TUNNEL_TYPE_UNSPECIFIED \<and> TunTunnelTypeName u = TunnelTypeName t"
  by (cases t) (auto simp: TunnelTypeOf_def TunnelTypeName_def TunTunnelTypeName_def tunTypeNames_def tunnelTypeNames_def get_str_def split: if_splits)

lemma link_request_simps [simp]:
  "rq_Kind (link_request rid c typ) = TUN_CLAIM_KIND_CLAIM" "rq_RelayId (link_request rid c typ) = rid"
  "rq_SessionId (link_request rid c typ) = cr_SessionID c" "rq_AgentId (link_request rid c typ) = cr_AgentID c"
  "rq_TokenId (link_request rid c typ) = cr_TokenID c" "rq_Tunnels (link_request rid c typ) = [link_tunnel c typ]"
  "tl_Name (link_tunnel c typ) = cr_Name c"
  by (simp_all add: link_request_def link_ask_def link_tunnel_def)

lemma claimLoop_skip: "\<forall>(a, t)\<in>set fails. a = None \<and> t \<le> deadline \<Longrightarrow> claimLoop deadline (fails @ rest) = claimLoop deadline rest"
  by (induction fails) auto

lemma claimLoop_ok:
  "claimLoop deadline ((Some resp, t) # rest) = Some (Ok p) \<longleftrightarrow>
     rp_Error resp = TUN_CLAIM_ERROR_UNSPECIFIED \<and> (\<exists>x. rp_Tunnels resp = [x] \<and> tl_PublicPort x = p)"
  by (auto split: list.splits)

text \<open>Attempts a second apart end the loop once the deadline is passed.\<close>

lemma claimLoop_ends:
  "\<exists>(a, t)\<in>set atts. a \<noteq> None \<or> t > deadline \<Longrightarrow> claimLoop deadline atts \<noteq> None"
proof (induction atts)
  case (Cons x rest)
  then show ?case
    by (cases x; cases "fst x") (auto split: list.splits)
qed simp

end
