(* ===== verification/Access_Services.thy ===== *)
theory Access_Services
  imports Relay_Link Edge_Domains
begin

text \<open>
  The management plane's access services: agent tokens, their certificates,
  reservations and gateway keys (\<open>go/tun/access\<close>) with the conversions of
  \<open>go/tun/common/convert.go\<close>.  The database behind the services is a record of
  tables by primary key; reading or writing it may fail, which an argument says.
  A validator returns the element that is written, or why it is refused.
\<close>

section \<open>Records\<close>

record TunTokenPolicy =
  tp_Names :: "string list"
  tp_Types :: "TunTunnelType list"
  tp_MaxTunnels :: int
  tp_Ports :: string
  tp_RequireCert :: bool
  tp_Domains :: "string list"

record TunToken =
  to_TokenId :: string
  to_Name :: string
  to_Description :: string
  to_SecretHash :: string
  to_Policy :: "TunTokenPolicy option"
  to_CreatedAt :: int
  to_CreatedBy :: string

record TunAgentCert =
  ct_CertId :: string
  ct_TokenId :: string
  ct_CommonName :: string
  ct_NotBefore :: int
  ct_NotAfter :: int
  ct_Fingerprint :: string
  ct_Revoked :: bool
  ct_CreatedAt :: int

record TunGatewayKey =
  gy_KeyId :: string
  gy_Name :: string
  gy_PublicKey :: string
  gy_Fingerprint :: string
  gy_Tunnels :: "string list"
  gy_CreatedAt :: int

datatype access_error =
    Unavailable
  | PolicyTypeInvalid
  | PolicyInvalid PolicyError
  | TokenInvalid TokenError
  | KeyInvalid KeyError
  | ReservationInvalid RuleError
  | NameInUse string
  | ThroughIssue
  | SecretFixed
  | CertFixed
  | CertRevoked
  | PortInUse int
  | EdgeDomainName string
  | DoesNotExist string
  | KeyInUse string

section \<open>Conversions\<close>

definition PolicyToAuth :: "TunTokenPolicy option \<Rightarrow> Policy option" where
  "PolicyToAuth p0 =
     (case p0 of
        None \<Rightarrow> Some \<lparr>Names = [], Types = [], MaxTunnels = 0, Ports = [], RequireCert = False, Domains = []\<rparr>
      | Some p \<Rightarrow>
          if list_ex (\<lambda>t. TunTunnelTypeName t = []) (tp_Types p) then None
          else Some \<lparr>Names = tp_Names p, Types = map TunTunnelTypeName (tp_Types p), MaxTunnels = tp_MaxTunnels p,
                     Ports = tp_Ports p, RequireCert = tp_RequireCert p, Domains = tp_Domains p\<rparr>)"

definition PolicyFromAuth :: "Policy \<Rightarrow> TunTokenPolicy option" where
  "PolicyFromAuth p =
     (if list_ex (\<lambda>n. TunnelTypeOf n = None) (Types p) then None
      else Some \<lparr>tp_Names = Names p, tp_Types = map (\<lambda>n. the (TunnelTypeOf n)) (Types p), tp_MaxTunnels = int32 (MaxTunnels p),
                 tp_Ports = Ports p, tp_RequireCert = RequireCert p, tp_Domains = Domains p\<rparr>)"

text \<open>\<open>tk_Created\<close> is in seconds.\<close>

definition TokenRecordOf :: "TunToken \<Rightarrow> string list \<Rightarrow> TokenRecord option" where
  "TokenRecordOf t certSerials =
     map_option (\<lambda>policy. \<lparr>tk_ID = to_TokenId t, tk_Name = to_Name t, tk_Hash = to_SecretHash t, tk_Created = to_CreatedAt t,
                           tk_Policy = policy, tk_CertSerials = certSerials\<rparr>) (PolicyToAuth (to_Policy t))"

definition ValidSerials :: "string \<Rightarrow> TunAgentCert list \<Rightarrow> string list" where
  "ValidSerials tokenID allCerts = map ct_CertId (filter (\<lambda>c. ct_TokenId c = tokenID \<and> \<not> ct_Revoked c) allCerts)"

section \<open>Tokens\<close>

definition isBcrypt :: "string \<Rightarrow> bool" where
  "isBcrypt s \<longleftrightarrow> length s = 60 \<and> (HasPrefix s ''$2a$'' \<or> HasPrefix s ''$2b$'' \<or> HasPrefix s ''$2y$'')"

definition validatePolicy :: "TunTokenPolicy option \<Rightarrow> (access_error, unit) result" where
  "validatePolicy p =
     (case PolicyToAuth p of
        None \<Rightarrow> Err PolicyTypeInvalid
      | Some policy \<Rightarrow> map_sum PolicyInvalid id (Policy_Validate policy))"

text \<open>\<open>allTokens\<close> is what reading the tokens gave, \<open>stored\<close> what reading the token gave:
  \<^const>\<open>None\<close> when the read failed.\<close>

definition checkNameFree :: "TunToken \<Rightarrow> TunToken list option \<Rightarrow> (access_error, unit) result" where
  "checkNameFree t allTokens =
     (case allTokens of
        None \<Rightarrow> Err Unavailable
      | Some ts \<Rightarrow>
          (case find (\<lambda>ot. to_TokenId ot \<noteq> to_TokenId t \<and> EqualFold (to_Name ot) (to_Name t)) ts of
             Some ot \<Rightarrow> Err (NameInUse (to_Name ot))
           | None \<Rightarrow> Ok ()))"

definition validatePatch :: "TunToken \<Rightarrow> TunToken list option \<Rightarrow> TunToken option option \<Rightarrow> (access_error, unit) result" where
  "validatePatch t allTokens stored =
     (case (if to_Name t = [] then Ok ()
            else case ValidateTokenName (to_Name t) of Inl e \<Rightarrow> Err (TokenInvalid e) | Inr _ \<Rightarrow> checkNameFree t allTokens) of
        Inl e \<Rightarrow> Err e
      | Inr _ \<Rightarrow>
          (case (if to_Policy t = None then Ok () else validatePolicy (to_Policy t)) of
             Inl e \<Rightarrow> Err e
           | Inr _ \<Rightarrow>
               if to_SecretHash t = [] then Ok ()
               else case stored of
                      None \<Rightarrow> Err Unavailable
                    | Some ex \<Rightarrow> if map_option to_SecretHash ex \<noteq> Some (to_SecretHash t) then Err SecretFixed else Ok ()))"

definition token_validate ::
    "int \<Rightarrow> Action \<Rightarrow> TunToken \<Rightarrow> TunToken list option \<Rightarrow> TunToken option option \<Rightarrow> (access_error, TunToken) result" where
  "token_validate now action t allTokens stored =
     (if action = PATCH then map_sum id (\<lambda>_. t) (validatePatch t allTokens stored)
      else case ValidateTokenName (to_Name t) of Inl e \<Rightarrow> Err (TokenInvalid e) | Inr _ \<Rightarrow>
           (case validatePolicy (to_Policy t) of Inl e \<Rightarrow> Err e | Inr _ \<Rightarrow>
           (case checkNameFree t allTokens of Inl e \<Rightarrow> Err e | Inr _ \<Rightarrow>
             if action = POST
             then if \<not> isBcrypt (to_SecretHash t) then Err ThroughIssue
                  else Ok (if to_CreatedAt t = 0 then t\<lparr>to_CreatedAt := now\<rparr> else t)
             else case stored of
                    None \<Rightarrow> Err Unavailable
                  | Some None \<Rightarrow> Err (DoesNotExist (to_TokenId t))
                  | Some (Some ex) \<Rightarrow>
                      if to_SecretHash t \<noteq> [] \<and> to_SecretHash t \<noteq> to_SecretHash ex then Err SecretFixed
                      else let t1 = t\<lparr>to_SecretHash := to_SecretHash ex\<rparr>
                           in Ok (if to_CreatedAt t1 = 0 then t1\<lparr>to_CreatedAt := to_CreatedAt ex, to_CreatedBy := to_CreatedBy ex\<rparr> else t1))))"

section \<open>Certificates\<close>

definition ImportedCommonName :: string where
  "ImportedCommonName = ''(imported: serial only)''"

definition cert_validate ::
    "int \<Rightarrow> Action \<Rightarrow> TunAgentCert \<Rightarrow> TunToken option option \<Rightarrow> TunAgentCert list option \<Rightarrow> (access_error, TunAgentCert) result" where
  "cert_validate now action c token allCerts =
     (if action = POST
      then if ct_CertId c = [] \<or> (ct_Fingerprint c = [] \<and> ct_CommonName c \<noteq> ImportedCommonName) then Err ThroughIssue
           else case token of
                  None \<Rightarrow> Err Unavailable
                | Some None \<Rightarrow> Err (DoesNotExist (ct_TokenId c))
                | Some (Some _) \<Rightarrow> Ok (if ct_CreatedAt c = 0 then c\<lparr>ct_CreatedAt := now\<rparr> else c)
      else case allCerts of
             None \<Rightarrow> Err Unavailable
           | Some cs \<Rightarrow>
               (case find (\<lambda>oc. ct_CertId oc = ct_CertId c) cs of
                  None \<Rightarrow> Err (DoesNotExist (ct_CertId c))
                | Some oc \<Rightarrow>
                    if ct_Revoked oc \<and> \<not> ct_Revoked c \<and> action = PUT then Err CertRevoked
                    else if (ct_TokenId c \<noteq> [] \<and> ct_TokenId c \<noteq> ct_TokenId oc) \<or>
                            (ct_Fingerprint c \<noteq> [] \<and> ct_Fingerprint c \<noteq> ct_Fingerprint oc) \<or>
                            (ct_NotAfter c \<noteq> 0 \<and> ct_NotAfter c \<noteq> ct_NotAfter oc)
                    then Err CertFixed
                    else Ok (if action = PUT then oc\<lparr>ct_CertId := ct_CertId c, ct_Revoked := ct_Revoked c\<rparr> else c)))"

section \<open>Reservations\<close>

definition resv_merged :: "TunReservation \<Rightarrow> TunReservation list \<Rightarrow> TunReservation option" where
  "resv_merged patch stored =
     map_option (\<lambda>r. r\<lparr>rs_Name := mstr (rs_Name r) (rs_Name patch), rs_TokenId := mstr (rs_TokenId r) (rs_TokenId patch),
                       rs_PublicPort := mint (rs_PublicPort r) (rs_PublicPort patch)\<rparr>)
       (find (\<lambda>r. rs_ReservationId r = rs_ReservationId patch) stored)"

text \<open>\<open>domains.Owner\<close>: the site domain that has a host as its name or alias.\<close>

definition domain_Owner :: "string \<Rightarrow> EdgeDomain list \<Rightarrow> string option" where
  "domain_Owner host0 domains =
     (let host = ToLower host0 in
      map_option ed_Domain (find (\<lambda>d. ed_Kind d = EDGE_DOMAIN_KIND_SITE \<and> (ed_Domain d = host \<or> host \<in> set (ed_Aliases d))) domains))"

definition resv_validate ::
    "Rules \<Rightarrow> int \<Rightarrow> Action \<Rightarrow> TunReservation \<Rightarrow> TunReservation list option \<Rightarrow> (string \<Rightarrow> TunToken option option) \<Rightarrow>
     EdgeDomain list option \<Rightarrow> (access_error, TunReservation) result" where
  "resv_validate rules now action r stored token domains =
     (case stored of
        None \<Rightarrow> Err Unavailable
      | Some rs \<Rightarrow>
          (case (if action = PATCH then resv_merged r rs else Some r) of
             None \<Rightarrow> Err (DoesNotExist (rs_ReservationId r))
           | Some check \<Rightarrow>
               (case CheckReservation rules (rs_Name check) (rs_PublicPort check) of
                  Inl e \<Rightarrow> Err (ReservationInvalid e)
                | Inr _ \<Rightarrow>
                    (case token (rs_TokenId check) of
                       None \<Rightarrow> Err Unavailable
                     | Some None \<Rightarrow> Err (DoesNotExist (rs_TokenId check))
                     | Some (Some _) \<Rightarrow>
                         (case find (\<lambda>x. rs_ReservationId x \<noteq> rs_ReservationId check \<and>
                                  (rs_Name x = rs_Name check \<or> rs_PublicPort check \<noteq> 0 \<and> rs_PublicPort x = rs_PublicPort check)) rs of
                            Some x \<Rightarrow> Err (if rs_Name x = rs_Name check then NameInUse (rs_Name check) else PortInUse (rs_PublicPort check))
                          | None \<Rightarrow>
                              (case domains of
                                 None \<Rightarrow> Err Unavailable
                               | Some ds \<Rightarrow>
                                   (case domain_Owner (rs_Name check @ ''.'' @ BaseDomain rules) ds of
                                      Some owner \<Rightarrow>
                                        if owner \<noteq> [] then Err (EdgeDomainName owner)
                                        else Ok (if action = POST \<and> rs_CreatedAt r = 0 then r\<lparr>rs_CreatedAt := now\<rparr> else r)
                                    | None \<Rightarrow> Ok (if action = POST \<and> rs_CreatedAt r = 0 then r\<lparr>rs_CreatedAt := now\<rparr> else r))))))))"

section \<open>Gateway keys\<close>

definition key_merged :: "TunGatewayKey \<Rightarrow> TunGatewayKey list \<Rightarrow> TunGatewayKey option" where
  "key_merged patch stored =
     map_option (\<lambda>k. k\<lparr>gy_Name := mstr (gy_Name k) (gy_Name patch), gy_PublicKey := mstr (gy_PublicKey k) (gy_PublicKey patch),
                       gy_Tunnels := mlist (gy_Tunnels k) (gy_Tunnels patch)\<rparr>)
       (find (\<lambda>k. gy_KeyId k = gy_KeyId patch) stored)"

text \<open>\<open>newKey\<close> is \<^const>\<open>NewGatewayKey\<close> with its SSH key parser.\<close>

definition key_validate ::
    "(string \<Rightarrow> string \<Rightarrow> string list \<Rightarrow> (KeyError, GatewayKey) result) \<Rightarrow> int \<Rightarrow> Action \<Rightarrow> TunGatewayKey \<Rightarrow> TunGatewayKey list option \<Rightarrow>
     (access_error, TunGatewayKey) result" where
  "key_validate newKey now action k stored =
     (case stored of
        None \<Rightarrow> Err Unavailable
      | Some ks \<Rightarrow>
          (case (if action = PATCH then key_merged k ks else Some k) of
             None \<Rightarrow> Err (DoesNotExist (gy_KeyId k))
           | Some check \<Rightarrow>
               (case newKey (gy_Name check) (gy_PublicKey check) (gy_Tunnels check) of
                  Inl e \<Rightarrow> Err (KeyInvalid e)
                | Inr parsed \<Rightarrow>
                    (case find (\<lambda>x. gy_KeyId x \<noteq> gy_KeyId check \<and>
                             (EqualFold (gy_Name x) (gy_Name check) \<or> gy_Fingerprint x = gk_Fingerprint parsed)) ks of
                       Some x \<Rightarrow> Err (if EqualFold (gy_Name x) (gy_Name check) then NameInUse (gy_Name x) else KeyInUse (gy_Name x))
                     | None \<Rightarrow>
                         (let k1 = (if action \<noteq> PATCH \<or> gy_PublicKey k \<noteq> [] then k\<lparr>gy_PublicKey := gk_PublicKey parsed\<rparr> else k);
                              k2 = k1\<lparr>gy_Fingerprint := gk_Fingerprint parsed\<rparr>
                          in Ok (if action = POST \<and> gy_CreatedAt k2 = 0 then k2\<lparr>gy_CreatedAt := now\<rparr> else k2))))))"

section \<open>The database\<close>

text \<open>\<open>db_pushed\<close> are the tokens whose deletion was pushed to the relays.\<close>

record access_db =
  db_tokens :: "(string, TunToken) gomap"
  db_certs :: "(string, TunAgentCert) gomap"
  db_resvs :: "(string, TunReservation) gomap"
  db_keys :: "(string, TunGatewayKey) gomap"
  db_pushed :: "string list"

text \<open>The reads and deletions of a revocation, each of which may fail.\<close>

datatype db_op =
    ReadToken
  | DeleteToken
  | ReadCerts
  | DeleteCert string
  | ReadResvs
  | DeleteResv string

text \<open>\<open>tokens.Token\<close> and the lists the services read: a record without its key is none.\<close>

definition db_Token :: "access_db \<Rightarrow> string \<Rightarrow> TunToken option" where
  "db_Token db tokenID =
     (case map_of (db_tokens db) tokenID of None \<Rightarrow> None | Some t \<Rightarrow> if to_TokenId t = [] then None else Some t)"

definition db_Tokens :: "access_db \<Rightarrow> TunToken list" where
  "db_Tokens db = filter (\<lambda>t. to_TokenId t \<noteq> []) (map snd (db_tokens db))"

definition db_Certs :: "access_db \<Rightarrow> TunAgentCert list" where
  "db_Certs db = filter (\<lambda>c. ct_CertId c \<noteq> []) (map snd (db_certs db))"

definition db_Reservations :: "access_db \<Rightarrow> TunReservation list" where
  "db_Reservations db = filter (\<lambda>r. rs_ReservationId r \<noteq> []) (map snd (db_resvs db))"

definition db_Keys :: "access_db \<Rightarrow> TunGatewayKey list" where
  "db_Keys db = filter (\<lambda>k. gy_KeyId k \<noteq> []) (map snd (db_keys db))"

section \<open>Issuing\<close>

text \<open>Posting a token runs the service's validator and stores what it returns.\<close>

definition postToken :: "int \<Rightarrow> TunToken \<Rightarrow> access_db \<Rightarrow> (access_error, unit) result \<times> access_db" where
  "postToken now t db =
     (case token_validate now POST t (Some (db_Tokens db)) (Some (db_Token db (to_TokenId t))) of
        Inl e \<Rightarrow> (Err e, db)
      | Inr t1 \<Rightarrow> (Ok (), db\<lparr>db_tokens := AList.update (to_TokenId t1) t1 (db_tokens db)\<rparr>))"

definition issueToken ::
    "(string \<Rightarrow> int \<Rightarrow> string option) \<Rightarrow> int \<Rightarrow> string \<Rightarrow> string \<Rightarrow> string \<Rightarrow> string \<Rightarrow> TunTokenPolicy option \<Rightarrow> access_db \<Rightarrow>
     (access_error, string \<times> string) result \<times> access_db" where
  "issueToken generate now idBytes secretBytes name description policy db =
     (case PolicyToAuth policy of
        None \<Rightarrow> (Err PolicyTypeInvalid, db)
      | Some p \<Rightarrow>
          (case NewToken generate now idBytes secretBytes name p of
             Inl e \<Rightarrow> (Err (TokenInvalid e), db)
           | Inr (plaintext, rec) \<Rightarrow>
               (let t = \<lparr>to_TokenId = tk_ID rec, to_Name = tk_Name rec, to_Description = description, to_SecretHash = tk_Hash rec,
                         to_Policy = policy, to_CreatedAt = now, to_CreatedBy = []\<rparr>
                in case postToken now t db of
                     (Inl e, db1) \<Rightarrow> (Err e, db1)
                   | (Inr _, db1) \<Rightarrow> (Ok (to_TokenId t, plaintext), db1))))"

section \<open>Revoking\<close>

fun deleteCerts :: "(db_op \<Rightarrow> bool) \<Rightarrow> string \<Rightarrow> TunAgentCert list \<Rightarrow> nat \<times> access_db \<Rightarrow> bool \<times> nat \<times> access_db" where
  "deleteCerts ok tokenID [] (n, db) = (True, n, db)"
| "deleteCerts ok tokenID (c # cs) (n, db) =
     (if ct_TokenId c \<noteq> tokenID then deleteCerts ok tokenID cs (n, db)
      else if \<not> ok (DeleteCert (ct_CertId c)) then (False, n, db)
      else deleteCerts ok tokenID cs (n + 1, db\<lparr>db_certs := AList.delete (ct_CertId c) (db_certs db)\<rparr>))"

fun deleteResvs :: "(db_op \<Rightarrow> bool) \<Rightarrow> string \<Rightarrow> TunReservation list \<Rightarrow> nat \<times> access_db \<Rightarrow> bool \<times> nat \<times> access_db" where
  "deleteResvs ok tokenID [] (n, db) = (True, n, db)"
| "deleteResvs ok tokenID (r # rs) (n, db) =
     (if rs_TokenId r \<noteq> tokenID then deleteResvs ok tokenID rs (n, db)
      else if \<not> ok (DeleteResv (rs_ReservationId r)) then (False, n, db)
      else deleteResvs ok tokenID rs (n + 1, db\<lparr>db_resvs := AList.delete (rs_ReservationId r) (db_resvs db)\<rparr>))"

text \<open>The answer counts the certificates and the reservations removed.\<close>

definition revoke :: "(db_op \<Rightarrow> bool) \<Rightarrow> string \<Rightarrow> access_db \<Rightarrow> (access_error, nat \<times> nat) result \<times> access_db" where
  "revoke ok tokenID db =
     (if \<not> ok ReadToken then (Err Unavailable, db)
      else case db_Token db tokenID of
        None \<Rightarrow> (Err (DoesNotExist tokenID), db)
      | Some tok \<Rightarrow>
          if \<not> ok DeleteToken then (Err Unavailable, db)
          else let db1 = db\<lparr>db_tokens := AList.delete (to_TokenId tok) (db_tokens db), db_pushed := db_pushed db @ [to_TokenId tok]\<rparr> in
               if \<not> ok ReadCerts then (Err Unavailable, db1)
               else case deleteCerts ok (to_TokenId tok) (db_Certs db1) (0, db1) of
                      (False, _, db2) \<Rightarrow> (Err Unavailable, db2)
                    | (True, certs, db2) \<Rightarrow>
                        if \<not> ok ReadResvs then (Err Unavailable, db2)
                        else case deleteResvs ok (to_TokenId tok) (db_Reservations db2) (0, db2) of
                               (False, _, db3) \<Rightarrow> (Err Unavailable, db3)
                             | (True, resvs, db3) \<Rightarrow> (Ok (certs, resvs), db3))"

end
