(* ===== verification/Relay_Accounts.thy ===== *)
theory Relay_Accounts
  imports Access_Services
begin

text \<open>
  A relay's copy of the agent credentials (\<open>go/tun/relaynode/accounts.go\<close>) and the
  changes and commands pushed to it (\<open>ctl.go\<close>).  What the management backend
  answers is an argument; the snapshot file is a value.  A lookup is one step here: its
  answer is stored when it arrives.
\<close>

section \<open>The credentials\<close>

text \<open>A read that failed is \<^const>\<open>None\<close>.  The lists are those of the services' read
  functions.\<close>

record backend =
  bk_Token :: "string \<Rightarrow> TunToken option option"
  bk_Tokens :: "TunToken list option"
  bk_Certs :: "TunAgentCert list option"
  bk_Keys :: "TunGatewayKey list option"

type_synonym snapshot = "TokenRecord list \<times> GatewayKey list"

record accounts =
  an_downAt :: "int option"
  an_keysAt :: "int option"
  an_tokens :: "(string, TokenRecord) gomap"
  an_keys :: "(string, GatewayKey) gomap"
  an_saved :: "snapshot option"

definition newAccounts :: "snapshot option \<Rightarrow> accounts" where
  "newAccounts saved = \<lparr>an_downAt = None, an_keysAt = None, an_tokens = [], an_keys = [], an_saved = saved\<rparr>"

definition liveLookupBackoff :: int where
  "liveLookupBackoff = 30 * 10 ^ 9"

text \<open>\<^const>\<open>None\<close> is an error, also of a policy that does not convert.\<close>

definition fetchToken :: "backend \<Rightarrow> string \<Rightarrow> TokenRecord option option" where
  "fetchToken bk tokenID =
     (case bk_Token bk tokenID of
        None \<Rightarrow> None
      | Some None \<Rightarrow> Some None
      | Some (Some t) \<Rightarrow>
          (case bk_Certs bk of
             None \<Rightarrow> None
           | Some certs \<Rightarrow> map_option Some (TokenRecordOf t (ValidSerials tokenID certs))))"

definition TokenByID :: "int \<Rightarrow> backend \<Rightarrow> string \<Rightarrow> accounts \<Rightarrow> TokenRecord option \<times> accounts" where
  "TokenByID now bk tokenID a =
     (if since_less now (an_downAt a) liveLookupBackoff then (map_of (an_tokens a) tokenID, a)
      else case fetchToken bk tokenID of
             Some rec \<Rightarrow>
               (rec, a\<lparr>an_tokens := (case rec of None \<Rightarrow> AList.delete tokenID (an_tokens a)
                                              | Some r \<Rightarrow> AList.update tokenID r (an_tokens a))\<rparr>)
           | None \<Rightarrow> (map_of (an_tokens a) tokenID, a\<lparr>an_downAt := Some now\<rparr>))"

definition gatewayKeyOf :: "TunGatewayKey \<Rightarrow> GatewayKey" where
  "gatewayKeyOf k = \<lparr>gk_Name = gy_Name k, gk_PublicKey = gy_PublicKey k, gk_Fingerprint = gy_Fingerprint k, gk_Tunnels = gy_Tunnels k,
     gk_Created = 0\<rparr>"

definition keysByFP :: "TunGatewayKey list \<Rightarrow> (string, GatewayKey) gomap" where
  "keysByFP keys = fold (\<lambda>k. AList.update (gy_Fingerprint k) (gatewayKeyOf k)) keys []"

definition GatewayKeyByFingerprint :: "int \<Rightarrow> backend \<Rightarrow> string \<Rightarrow> accounts \<Rightarrow> GatewayKey option \<times> accounts" where
  "GatewayKeyByFingerprint now bk fp a =
     (let k = map_of (an_keys a) fp;
          recent = (since_less now (an_keysAt a) (10 ^ 9) \<or> since_less now (an_downAt a) liveLookupBackoff) in
      if k \<noteq> None \<or> recent then (k, a)
      else case bk_Keys bk of
             None \<Rightarrow> (None, a\<lparr>an_downAt := Some now\<rparr>)
           | Some keys \<Rightarrow> (map_of (keysByFP keys) fp, a\<lparr>an_keys := keysByFP keys, an_keysAt := Some now\<rparr>))"

definition dropToken :: "string \<Rightarrow> accounts \<Rightarrow> accounts" where
  "dropToken tokenID a = a\<lparr>an_tokens := AList.delete tokenID (an_tokens a)\<rparr>"

text \<open>Tokens whose policy does not convert are skipped.\<close>

definition tokensByID :: "TunToken list \<Rightarrow> TunAgentCert list \<Rightarrow> (string, TokenRecord) gomap" where
  "tokensByID toks certs =
     fold (\<lambda>t m. case TokenRecordOf t (ValidSerials (to_TokenId t) certs) of None \<Rightarrow> m | Some rec \<Rightarrow> AList.update (tk_ID rec) rec m) toks []"

text \<open>\<open>written\<close>: whether the snapshot could be saved.\<close>

definition refresh :: "backend \<Rightarrow> bool \<Rightarrow> accounts \<Rightarrow> bool \<times> accounts" where
  "refresh bk written a =
     (case (bk_Tokens bk, bk_Certs bk, bk_Keys bk) of
        (Some toks, Some certs, Some keys) \<Rightarrow>
          (let a1 = a\<lparr>an_tokens := tokensByID toks certs, an_keys := keysByFP keys\<rparr>
           in if written then (True, a1\<lparr>an_saved := Some (map snd (an_tokens a1), map snd (an_keys a1))\<rparr>) else (False, a1))
      | _ \<Rightarrow> (False, a))"

definition accounts_load :: "accounts \<Rightarrow> bool \<times> accounts" where
  "accounts_load a =
     (case an_saved a of
        None \<Rightarrow> (False, a)
      | Some (toks, keys) \<Rightarrow>
          (True, a\<lparr>an_tokens := fold (\<lambda>t. AList.update (tk_ID t) t) toks (an_tokens a),
                   an_keys := fold (\<lambda>k. AList.update (gk_Fingerprint k) k) keys (an_keys a)\<rparr>))"

text \<open>\<open>loadAccounts\<close>: one round; \<^const>\<open>False\<close> is to wait and try again.\<close>

definition loadAccounts :: "backend \<Rightarrow> bool \<Rightarrow> accounts \<Rightarrow> bool \<times> accounts" where
  "loadAccounts bk written a = (let (ok, a1) = refresh bk written a in if ok then (True, a1) else accounts_load a1)"

section \<open>Pushed changes and commands\<close>

text \<open>What the node starts in a goroutine of its own.\<close>

datatype spawned =
    RefreshLater
  | ReloadCert
  | AnnounceNow
  | HeartbeatNow

record relay_Node =
  nd_relayID :: string
  nd_world :: relay_World
  nd_accounts :: accounts
  nd_view :: LiveView
  nd_refreshPending :: bool
  nd_spawned :: "spawned list"

datatype pushed =
    PushToken string
  | PushAgentCert
  | PushGatewayKey
  | PushLiveTunnel
  | PushEdgeDomain EdgeDomainKind
  | PushCommand TunCtlCommand

definition spawn :: "spawned \<Rightarrow> relay_Node \<Rightarrow> relay_Node" where
  "spawn x n = n\<lparr>nd_spawned := nd_spawned n @ [x]\<rparr>"

definition refreshSoon :: "relay_Node \<Rightarrow> relay_Node" where
  "refreshSoon n = (if nd_refreshPending n then n else spawn RefreshLater (n\<lparr>nd_refreshPending := True\<rparr>))"

text \<open>\<open>drained\<close>: how many sessions a drain closes before it is ended.\<close>

definition node_command :: "nat \<Rightarrow> TunCtlCommand \<Rightarrow> relay_Node \<Rightarrow> relay_Node" where
  "node_command drained c n =
     (case cm_Kind c of
        TUN_CTL_COMMAND_KIND_REANNOUNCE \<Rightarrow> spawn AnnounceNow n
      | TUN_CTL_COMMAND_KIND_DRAIN \<Rightarrow> spawn HeartbeatNow (n\<lparr>nd_world := Drain drained (nd_world n)\<rparr>)
      | TUN_CTL_COMMAND_KIND_RESUME \<Rightarrow> spawn HeartbeatNow (n\<lparr>nd_world := Resume (nd_world n)\<rparr>)
      | TUN_CTL_COMMAND_KIND_DISCONNECT_AGENT \<Rightarrow> n\<lparr>nd_world := snd (DisconnectAgent (cm_AgentId c) ReasonOperator (nd_world n))\<rparr>
      | TUN_CTL_COMMAND_KIND_DISCONNECT_TUNNEL \<Rightarrow> n\<lparr>nd_world := snd (CloseTunnel (cm_TunnelId c) ReasonOperator (nd_world n))\<rparr>
      | TUN_CTL_COMMAND_KIND_TAKEN_OVER \<Rightarrow> n\<lparr>nd_world := snd (CloseTunnel (cm_TunnelId c) ReasonTakeover (nd_world n))\<rparr>
      | _ \<Rightarrow> n)"

definition node_handle :: "nat \<Rightarrow> Action \<Rightarrow> pushed \<Rightarrow> relay_Node \<Rightarrow> relay_Node" where
  "node_handle drained action x n =
     (case x of
        PushToken tokenID \<Rightarrow>
          if action = DELETE
          then n\<lparr>nd_accounts := dropToken tokenID (nd_accounts n), nd_world := snd (DisconnectToken tokenID (nd_world n))\<rparr>
          else refreshSoon n
      | PushAgentCert \<Rightarrow> refreshSoon n
      | PushGatewayKey \<Rightarrow> refreshSoon n
      | PushLiveTunnel \<Rightarrow> n\<lparr>nd_view := Invalidate (nd_view n)\<rparr>
      | PushEdgeDomain kind \<Rightarrow> if kind = EDGE_DOMAIN_KIND_TUNNEL_BASE then spawn ReloadCert n else n
      | PushCommand c \<Rightarrow> if cm_RelayId c \<noteq> [] \<and> cm_RelayId c \<noteq> nd_relayID n then n else node_command drained c n)"

end
