(* ===== verification/Relay_Agent_Inv.thy ===== *)
theory Relay_Agent_Inv
  imports Relay_Agent
begin

text \<open>
  The invariant of a relay with all its sessions, kept by every interleaving of
  their handlers: what the registry says a session holds, the session lists.
\<close>

section \<open>Holdings only shrink\<close>

definition hshrinks :: "nameRegistry \<Rightarrow> nameRegistry \<Rightarrow> bool" where
  "hshrinks r r' \<longleftrightarrow> (\<forall>a. held r' a \<subseteq> held r a)"

lemma hshrinks_refl [simp]: "hshrinks r r"
  by (simp add: hshrinks_def)

lemma hshrinks_trans: "hshrinks r s \<Longrightarrow> hshrinks s t \<Longrightarrow> hshrinks r t"
  unfolding hshrinks_def by blast

lemma hshrinks_same: "reg_names r' = reg_names r \<Longrightarrow> reg_heap r' = reg_heap r \<Longrightarrow> hshrinks r r'"
  unfolding hshrinks_def by (metis same_held(2) order_refl)

lemma hshrinks_upd:
  "(\<And>res. res_name (f res) = res_name res) \<Longrightarrow> (\<And>res. res_session (f res) = res_session res) \<Longrightarrow> hshrinks r (upd_res i f r)"
  by (simp add: hshrinks_def upd_res_held)

lemma hshrinks_delete: "hshrinks r (deleteLocked i r)"
proof -
  have "held (deleteLocked i r) a = held r a - {i}" for a
    by (rule touches_drop [OF deleteLocked_touches]) (simp add: held_def)
  then show ?thesis by (auto simp: hshrinks_def)
qed

lemma hshrinks_expire: "hshrinks r (reg_expire i r)"
  by (simp add: reg_expire_def hshrinks_delete split: option.split)

lemma hshrinks_unreserve: "hshrinks r (reg_unreserve name r)"
proof -
  have "hshrinks r (upd_res i (\<lambda>res. res\<lparr>res_permanent := False\<rparr>) r)" for i by (rule hshrinks_upd) simp_all
  then show ?thesis
    using hshrinks_trans [OF _ hshrinks_delete] by (simp add: reg_unreserve_def Let_def split: option.split)
qed

lemma hshrinks_fold: "(\<And>x r. hshrinks r (f x r)) \<Longrightarrow> hshrinks r (fold f xs r)"
  by (induction xs arbitrary: r) (auto intro: hshrinks_trans)

lemma hshrinks_releaseToken: "hshrinks r (snd (reg_releaseToken tok r))"
  unfolding releaseToken_snd by (rule hshrinks_fold) (auto simp: release_if_def hshrinks_delete split: option.split)

lemma hshrinks_close: "hshrinks r (reg_close r)"
proof -
  have u: "hshrinks r (upd_res i (\<lambda>res. res\<lparr>res_timer := False\<rparr>) r)" for r i by (rule hshrinks_upd) simp_all
  have "hshrinks r (r\<lparr>reg_closed := True\<rparr>)" by (rule hshrinks_same) simp_all
  moreover have "hshrinks r0 (fold (\<lambda>(_, i) r'. case res_at r' i of None \<Rightarrow> r' | Some res \<Rightarrow>
      if res_session res = None then (let r1 = upd_res i (\<lambda>res. res\<lparr>res_timer := False\<rparr>) r'
        in if \<not> res_permanent res then deleteLocked i r1 else r1) else r') xs r0)" for xs r0
    by (rule hshrinks_fold) (auto simp: Let_def u intro: hshrinks_trans [OF u hshrinks_delete] split: option.split)
  ultimately show ?thesis unfolding reg_close_def by (rule hshrinks_trans)
qed

lemma hshrinks_alloc:
  assumes "reg_inv r" "map_of (reg_names r) (res_name res) = None" "res_session res = None" "alloc_res res r = (i, r')"
  shows "hshrinks r r'"
  unfolding hshrinks_def
proof (intro allI subsetI)
  fix a j assume j: "j \<in> held r' a"
  have heap: "map_of (reg_heap r') = (map_of (reg_heap r))(reg_next r \<mapsto> res)"
    and names: "map_of (reg_names r') = (map_of (reg_names r))(res_name res \<mapsto> reg_next r)"
    using assms(4) by (auto simp: alloc_res_def update_conv')
  then have "j \<noteq> reg_next r" using j assms(3) by (auto simp: held_def)
  then show "j \<in> held r a"
    using j assms(2) unfolding held_def live_def heap names by (auto split: option.splits if_splits)
qed

lemma hshrinks_reserve:
  assumes "reg_inv r"
  shows "hshrinks r (snd (reg_reserve name tok port r))"
proof -
  have u: "hshrinks r1 (upd_res i (\<lambda>res. res\<lparr>res_permanent := True, res_timer := False\<rparr>) r1)" for i r1 by (rule hshrinks_upd) simp_all
  have p: "hshrinks r1 ((upd_res i (\<lambda>res. res\<lparr>res_port := port\<rparr>) r1)\<lparr>reg_ports := ps\<rparr>)" for i r1 ps
    by (rule hshrinks_trans [OF hshrinks_upd hshrinks_same]) simp_all
  have rf: "hshrinks r1 (reserve_from i port r1)" for i r1
    unfolding reserve_from_def Let_def by (auto intro: u hshrinks_trans [OF p u])
  show ?thesis
  proof (cases "map_of (reg_names r) name")
    case None
    obtain i r1 where a: "alloc_res \<lparr>res_name = name, res_typ = TUNNEL_TYPE_UNSPECIFIED, res_tokenID = tok,
        res_agentID = [], res_port = 0, res_domains = [], res_permanent = False, res_session = None,
        res_tunnel = None, res_timer = False, res_expires = 0\<rparr> r = (i, r1)" by fastforce
    have "hshrinks r r1" by (rule hshrinks_alloc [OF assms _ _ a]) (use None in simp_all)
    then show ?thesis
      using rf [of r1 i] None a by (auto simp: reg_reserve_def reserve_from_def Let_def intro: hshrinks_trans)
  next
    case (Some i)
    then show ?thesis
      using rf [of r i] by (auto simp: reg_reserve_def reserve_from_def Let_def split: option.splits)
  qed
qed

section \<open>One session's handlers\<close>

definition sess_ok :: "relay_Server \<Rightarrow> agentSession \<Rightarrow> bool" where
  "sess_ok s sess \<longleftrightarrow> (\<forall>a\<in>set (as_tunnels sess). a < sv_next s) \<and> holds sess s \<subseteq> res_of s ` set (as_tunnels sess)"

text \<open>What a session's handler may do to the server.\<close>

definition acts :: "agentSession \<times> relay_Server \<Rightarrow> agentSession \<times> relay_Server \<Rightarrow> bool" where
  "acts = (\<lambda>(sess, s) (sess', s').
     reg_step\<^sup>*\<^sup>* (sv_registry s) (sv_registry s') \<and> tunnels_ok s' \<and> sv_next s \<le> sv_next s' \<and>
     (\<forall>a < sv_next s. res_of s' a = res_of s a) \<and> others_lose (as_addr sess) (sv_registry s) (sv_registry s') \<and>
     as_addr sess' = as_addr sess \<and> (sess_ok s sess \<longrightarrow> sess_ok s' sess'))"

lemma acts_same: "tunnels_ok s \<Longrightarrow> as_addr sess' = as_addr sess \<Longrightarrow> as_tunnels sess' = as_tunnels sess \<Longrightarrow> acts (sess, s) (sess', s)"
  by (simp add: acts_def sess_ok_def)

lemma sess_ok_cong: "as_addr sess' = as_addr sess \<Longrightarrow> as_tunnels sess' = as_tunnels sess \<Longrightarrow> sess_ok s sess' = sess_ok s sess"
  by (simp add: sess_ok_def)

lemma acts_cong: "as_addr x = as_addr y \<Longrightarrow> as_tunnels x = as_tunnels y \<Longrightarrow> acts (x, s) st = acts (y, s) st"
  by (simp add: acts_def sess_ok_def split: prod.split)

lemma register_acts:
  assumes "range_ok cfg" "reg_inv (sv_registry s)" "tunnels_ok s" "register cfg env specs (sess, s) = (rep, sess', s')"
  shows "acts (sess, s) (sess', s')"
proof (cases "specs = []")
  case True
  then show ?thesis using assms(3,4) acts_same by (simp add: register_def)
next
  case False
  obtain got s1 where l: "registerLoop cfg env sess specs [] s = (got, s1)" by fastforce
  note sound = registerLoop_sound [OF assms(1-3) collected_start [OF assms(3)] l]
  have s1: "s' = s1" using assms(4) False l by (auto simp: register_def split: sum.splits open_error.splits)
  show ?thesis
  proof (cases got)
    case (Inl e)
    then have "sess' = sess" "undone sess s s'"
      using sound assms(4) False l s1 by (auto simp: register_def split: open_error.splits)
    moreover have "res_of s' a = res_of s a" if "a < sv_next s" for a
      using that \<open>undone sess s s'\<close> unfolding undone_def by (metis tunnel_at_cong)
    ultimately show ?thesis
      by (auto simp: acts_def undone_def sess_ok_def intro!: image_eqI)
  next
    case (Inr opened)
    then have c: "collected sess s opened s'" using sound s1 by simp
    have sess': "sess' = sess\<lparr>as_tunnels := as_tunnels sess @ opened\<rparr>" using assms(4) False l Inr by (auto simp: register_def)
    have low: "res_of s' a = res_of s a" if "a < sv_next s" for a
      using that c unfolding collected_def by (metis tunnel_at_cong)
    have op: "opened = [sv_next s..< sv_next s']" "sv_next s \<le> sv_next s'" "holds sess s' = holds sess s \<union> res_of s' ` set opened"
      using c unfolding collected_def by blast+
    have "sess_ok s' sess'" if ok: "sess_ok s sess"
    proof -
      have "res_of s' ` set (as_tunnels sess) = res_of s ` set (as_tunnels sess)"
        using ok low by (intro image_cong) (simp_all add: sess_ok_def)
      then have "holds sess s \<subseteq> res_of s' ` set (as_tunnels sess)" using ok by (simp add: sess_ok_def)
      then show ?thesis using ok op unfolding sess_ok_def sess' by auto
    qed
    then show ?thesis
      using c low op(2) unfolding acts_def collected_def sess' by simp
  qed
qed

lemma controlLoop_acts:
  assumes "range_ok cfg" "reg_inv (sv_registry s)" "tunnels_ok s" "controlLoop cfg [m] (sess, s) = (rs, sess', s')"
  shows "acts (sess, s) (sess', s')"
proof -
  let ?sess = "sess\<lparr>as_lastSeen := re_now (cm_env m)\<rparr>"
  have "acts (?sess, s) (sess', s')"
  proof (cases "cm_body m")
    case (RegisterBody specs)
    obtain rep st where r: "register cfg (cm_env m) specs (?sess, s) = (rep, st)" by (rule prod.exhaust)
    have "st = (sess', s')"
      using assms(4) RegisterBody r by (cases rep) (auto simp: Let_def split: if_splits)
    then show ?thesis using register_acts [OF assms(1-3)] r by simp
  qed (use assms(3,4) in \<open>auto simp: Let_def intro!: acts_same split: if_splits\<close>)
  then show ?thesis using acts_cong [of ?sess sess] by simp
qed

lemma closeTunnels_acts:
  assumes "tunnels_ok s" "sess_ok s sess" "closeTunnels env (sess, s) = (sess', s')"
  shows "acts (sess, s) (sess', s')" "as_tunnels sess' = []"
proof -
  have g: "lets_go sess (as_tunnels sess) s s'" and sess': "sess' = sess\<lparr>as_tunnels := []\<rparr>"
    using assms(3) park_fold [of sess "as_tunnels sess" s env]
    by (auto simp: closeTunnels_def Let_def lets_go_calls split: if_splits)
  have "tunnels_ok s'"
    using g assms(1,2) unfolding lets_go_def tunnels_ok_def sess_ok_def by (metis not_less)
  moreover have "holds sess s' = {}"
    using g assms(2) unfolding lets_go_def sess_ok_def by blast
  ultimately show "acts (sess, s) (sess', s')"
    using g unfolding acts_def lets_go_def sess_ok_def sess' by simp
  show "as_tunnels sess' = []" using sess' by simp
qed

section \<open>The relay\<close>

definition session_entry_ok :: "relay_World \<Rightarrow> nat \<Rightarrow> bool" where
  "session_entry_ok w a \<longleftrightarrow>
     (case map_of (rw_sessions w) a of
        None \<Rightarrow> held (sv_registry (rw_server w)) a = {}
      | Some sess \<Rightarrow> as_addr sess = a \<and> sess_ok (rw_server w) sess)"

definition world_ok :: "relay_World \<Rightarrow> bool" where
  "world_ok w \<longleftrightarrow> reg_inv (sv_registry (rw_server w)) \<and> tunnels_ok (rw_server w) \<and> (\<forall>a. session_entry_ok w a)"

lemma world_entry: "world_ok w \<Longrightarrow> session_entry_ok w a"
  by (simp add: world_ok_def)

lemma sess_ok_acts:
  assumes "acts (sess, s) (sess', s')" "sess_ok s x" "as_addr x \<noteq> as_addr sess"
  shows "sess_ok s' x"
proof -
  have "res_of s' ` set (as_tunnels x) = res_of s ` set (as_tunnels x)"
    using assms by (intro image_cong) (auto simp: acts_def sess_ok_def)
  moreover have "holds x s' \<subseteq> holds x s" using assms(1,3) by (auto simp: acts_def others_lose_def)
  ultimately show ?thesis using assms(1,2) by (force simp: acts_def sess_ok_def)
qed

lemma acts_world:
  assumes w: "world_ok w" and a: "map_of (rw_sessions w) a = Some sess" and act: "acts (sess, rw_server w) (sess', s')"
  shows "world_ok (w\<lparr>rw_server := s', rw_sessions := AList.update a sess' (rw_sessions w)\<rparr>)"
proof -
  have sess: "as_addr sess = a" "sess_ok (rw_server w) sess" using w a by (auto simp: world_ok_def session_entry_ok_def split: option.splits)
  have "session_entry_ok (w\<lparr>rw_server := s', rw_sessions := AList.update a sess' (rw_sessions w)\<rparr>) b" for b
  proof (cases "b = a")
    case True
    then show ?thesis using act sess by (simp add: session_entry_ok_def acts_def update_conv')
  next
    case False
    have e: "session_entry_ok w b" using w by (simp add: world_ok_def)
    have "held (sv_registry s') b \<subseteq> held (sv_registry (rw_server w)) b" using act False sess by (simp add: acts_def others_lose_def)
    then show ?thesis
      using e False sess sess_ok_acts [OF act]
      by (auto simp: session_entry_ok_def update_conv' split: option.splits)
  qed
  then show ?thesis
    using w act relay.keeps_steps by (auto simp: world_ok_def acts_def)
qed

lemma world_untrack:
  assumes "world_ok (w\<lparr>rw_server := s', rw_sessions := AList.update a sess' (rw_sessions w)\<rparr>)" "as_tunnels sess' = []"
  shows "world_ok (untrack sess' (w\<lparr>rw_server := s'\<rparr>))"
proof -
  have a: "as_addr sess' = a" "held (sv_registry s') a = {}"
    using assms(1) [unfolded world_ok_def, THEN conjunct2, THEN conjunct2, rule_format, of a] assms(2)
    by (auto simp: session_entry_ok_def update_conv' sess_ok_def)
  have "session_entry_ok (untrack sess' (w\<lparr>rw_server := s'\<rparr>)) b" for b
    using assms(1) [unfolded world_ok_def, THEN conjunct2, THEN conjunct2, rule_format, of b] a
    by (cases "b = a") (auto simp: session_entry_ok_def update_conv' untrack_def delete_conv' split: option.splits)
  then show ?thesis using assms(1) by (simp add: world_ok_def untrack_def)
qed

lemma world_sessions:
  assumes "world_ok w" "rw_server w' = rw_server w"
    and "\<And>a. rel_option (\<lambda>x y. as_addr y = as_addr x \<and> as_tunnels y = as_tunnels x) (map_of (rw_sessions w) a) (map_of (rw_sessions w') a)"
  shows "world_ok w'"
proof -
  have "session_entry_ok w' a" for a
    using world_entry [OF assms(1), of a] assms(2) assms(3) [of a]
    by (cases "map_of (rw_sessions w) a"; cases "map_of (rw_sessions w') a") (auto simp: session_entry_ok_def sess_ok_def)
  then show ?thesis using assms(1,2) by (simp add: world_ok_def)
qed

lemma world_close: "world_ok w \<Longrightarrow> world_ok (sess_close reason a w)"
  by (erule world_sessions) (auto simp: sess_close_def update_conv' option.rel_refl split: option.split)

lemma world_close_all: "world_ok w \<Longrightarrow> world_ok (fold (sess_close reason) as w)"
  by (induction as arbitrary: w) (auto intro: world_close)

lemma world_registry:
  assumes "world_ok w" "reg_step\<^sup>*\<^sup>* (sv_registry (rw_server w)) (f (sv_registry (rw_server w)))"
    "hshrinks (sv_registry (rw_server w)) (f (sv_registry (rw_server w)))"
  shows "world_ok (onRegistry f w)"
proof -
  have "session_entry_ok (onRegistry f w) a" for a
    using world_entry [OF assms(1), of a] assms(3)
    by (force simp: session_entry_ok_def onRegistry_def hshrinks_def sess_ok_def tunnel_at_def split: option.splits)
  then show ?thesis
    using assms(1,2) relay.keeps_steps by (auto simp: world_ok_def onRegistry_def tunnels_ok_def)
qed

lemma handshake_keeps: "handshake toks compare peer first sent sess = (res, sess', rs) \<Longrightarrow>
    as_addr sess' = as_addr sess \<and> as_tunnels sess' = as_tunnels sess"
  by (auto simp: handshake_def split: option.splits ControlBody.splits if_splits sum.splits)

lemma world_step:
  assumes "range_ok cfg"
  shows "relay_step cfg w w' \<Longrightarrow> world_ok w \<Longrightarrow> world_ok w'"
proof (induction rule: relay_step.induct)
  case (arrive w c w')
  have w': "w' = w\<lparr>rw_sessions := AList.update (cn_addr c) (newSession c) (rw_sessions w)\<rparr>"
    using arrive(2) by (auto simp: track_def newSession_def split: if_splits)
  have "session_entry_ok w' b" for b
    using world_entry [OF arrive(3), of b] arrive(1)
    by (cases "b = cn_addr c") (auto simp: w' session_entry_ok_def update_conv' newSession_def sess_ok_def split: option.splits)
  then show ?case using arrive(3) by (simp add: world_ok_def w')
next
  case (hello w a sess toks compare peer first sent res sess' rs)
  then show ?case
    using handshake_keeps [OF hello(2)] by (intro world_sessions [OF hello(3)]) (auto simp: update_conv' option.rel_refl)
next
  case (message w a sess m rs sess' s')
  then show ?case
    using acts_world [OF message(3,1)] controlLoop_acts [OF assms _ _ message(2)] by (simp add: world_ok_def)
next
  case (leave w a sess env sess' s')
  have "sess_ok (rw_server w) sess" "tunnels_ok (rw_server w)"
    using leave(3) world_entry [OF leave(3), of a] leave(1) by (simp_all add: session_entry_ok_def world_ok_def)
  then show ?case
    using world_untrack [OF acts_world [OF leave(3,1)]] closeTunnels_acts [OF _ _ leave(2)] by blast
next
  case (expire w i)
  then show ?case by (intro world_registry r_into_rtranclp reg_step.expire hshrinks_expire)
next
  case (disconnectAgent w agentID reason)
  then show ?case by (simp add: DisconnectAgent_def Let_def world_close_all)
next
  case (closeTunnel w tunnelID reason)
  then show ?case by (auto simp: CloseTunnel_def world_close split: option.split)
next
  case (disconnectToken w tokenID)
  let ?r = "snd (reg_releaseToken tokenID (sv_registry (rw_server w)))"
  have "world_ok (onRegistry (\<lambda>_. ?r) w)"
    using disconnectToken by (intro world_registry r_into_rtranclp reg_step.releaseToken hshrinks_releaseToken)
  then show ?case by (auto simp: DisconnectToken_def Let_def intro: world_close_all split: prod.split)
next
  case (reserve w name tokenID port)
  have "world_ok (onRegistry (\<lambda>_. snd (reg_reserve name tokenID port (sv_registry (rw_server w)))) w)"
    using reserve by (intro world_registry r_into_rtranclp reg_step.reserve hshrinks_reserve) (simp_all add: world_ok_def)
  then show ?case using reserve by (auto simp: Reserve_def Let_def split: sum.split prod.split)
next
  case (unreserve w name)
  then show ?case unfolding Unreserve_def by (intro world_registry r_into_rtranclp reg_step.unreserve hshrinks_unreserve)
next
  case (drain w n)
  have "world_ok (w\<lparr>rw_draining := True\<rparr>)" by (rule world_sessions [OF drain]) (simp_all add: option.rel_refl)
  then show ?case using drain world_close_all by (simp add: Drain_def)
next
  case (resume w)
  then show ?case by (rule world_sessions) (simp_all add: Resume_def option.rel_refl)
next
  case (closing w)
  then show ?case by (rule world_sessions) (simp_all add: Close_begin_def option.rel_refl)
next
  case (closed w)
  then show ?case unfolding Close_end_def by (intro world_registry r_into_rtranclp reg_step.close hshrinks_close)
qed

lemma world_steps: "(relay_step cfg)\<^sup>*\<^sup>* w w' \<Longrightarrow> range_ok cfg \<Longrightarrow> world_ok w \<Longrightarrow> world_ok w'"
  by (induction rule: rtranclp_induct) (auto intro: world_step)

section \<open>A whole connection\<close>

lemma acts_trans: "acts st st' \<Longrightarrow> acts st' st'' \<Longrightarrow> acts st st''"
  by (auto simp: acts_def split: prod.splits intro: rtranclp_trans others_lose_trans)

lemma controlLoop_run:
  "range_ok cfg \<Longrightarrow> reg_inv (sv_registry (snd st)) \<Longrightarrow> tunnels_ok (snd st) \<Longrightarrow> controlLoop cfg ms st = (rs, st') \<Longrightarrow> acts st st'"
proof (induction ms arbitrary: st rs)
  case Nil
  then show ?case using acts_same [of "snd st" "fst st" "fst st"] by simp
next
  case (Cons m ms)
  obtain sess s where st: "st = (sess, s)" by (cases st)
  obtain r1 st1 where one: "controlLoop cfg [m] st = (r1, st1)" by (cases "controlLoop cfg [m] st")
  have a1: "acts st st1" using controlLoop_acts [OF Cons.prems(1)] Cons.prems(2,3) one st by (cases st1) auto
  have ok1: "reg_inv (sv_registry (snd st1))" "tunnels_ok (snd st1)"
    using a1 Cons.prems(2) relay.keeps_steps by (auto simp: acts_def split: prod.splits)
  have "st' = st1 \<or> (\<exists>rs'. controlLoop cfg ms st1 = (rs', st'))"
    using Cons.prems(4) one by (auto simp: Let_def split: prod.splits option.splits if_splits)
  then show ?case using a1 Cons.IH [OF Cons.prems(1) ok1] acts_trans by blast
qed

end
