(* ===== verification/Session_Properties.thy ===== *)
theory Session_Properties
  imports Relay_Session_Inv
begin

text \<open>
  Properties of agent sessions on a relay: who may authenticate, what a tunnel
  may be, and that a registration takes all of its tunnels or none.
\<close>

section \<open>Authentication\<close>

lemma verifyToken_iff:
  "verifyToken tokens compare token = Ok rec \<longleftrightarrow>
     (\<exists>ident secret. ParseToken token = Ok (ident, secret) \<and> tokens ident = Some (Some rec) \<and> Verify compare rec secret)"
  by (auto simp: verifyToken_def split: sum.splits option.splits prod.splits if_splits)

lemma certToken_iff:
  "certToken tokens (uris, sn) = Ok rec \<longleftrightarrow>
     (\<exists>ident serial. CertIdentity uris sn = Some (ident, serial) \<and> tokens ident = Some (Some rec) \<and> HasCertSerial rec serial)"
  by (auto simp: certToken_def split: option.splits prod.splits if_splits)

lemma authenticate_iff:
  "authenticate tokens compare token peer = Ok rec \<longleftrightarrow>
     (case peer of
        None \<Rightarrow> token \<noteq> [] \<and> verifyToken tokens compare token = Ok rec \<and> \<not> RequireCert (tk_Policy rec)
      | Some cert \<Rightarrow>
          \<exists>c. certToken tokens cert = Ok c \<and>
            (if token = [] then rec = c else verifyToken tokens compare token = Ok rec \<and> tk_ID c = tk_ID rec))"
proof (cases peer)
  case None
  then show ?thesis
    by (cases "verifyToken tokens compare token") (auto simp: authenticate_def)
next
  case (Some cert)
  then show ?thesis
    by (cases "certToken tokens cert"; cases "verifyToken tokens compare token"; cases "token = []")
      (auto simp: authenticate_def)
qed

section \<open>What a tunnel may be\<close>

text \<open>A custom domain the token's policy grants, outside the relay's own names; a
  wildcard only for TLS, an HTTP domain only with a certificate for it.\<close>

definition domain_allowed :: "relay_Config \<Rightarrow> relay_env \<Rightarrow> Policy \<Rightarrow> TunnelType \<Rightarrow> string \<Rightarrow> bool" where
  "domain_allowed cfg env policy typ d \<longleftrightarrow>
     AllowsDomain policy d \<and> d \<noteq> rc_BaseDomain cfg \<and> \<not> HasSuffix d (''.'' @ rc_BaseDomain cfg) \<and> d \<noteq> rc_ControlSNI cfg \<and>
     (IsWildcardDomain d \<longrightarrow> typ = TUNNEL_TYPE_TLS) \<and> (typ = TUNNEL_TYPE_HTTP \<longrightarrow> re_canServe env d)"

lemma checkDomainLoop_Cons:
  "checkDomainLoop cfg env policy typ (raw # raws) out = Ok ds \<longleftrightarrow>
     (\<exists>d. NormalizeTunnelDomain raw = Some d \<and> domain_allowed cfg env policy typ d \<and>
        checkDomainLoop cfg env policy typ raws (if d \<in> set out then out else out @ [d]) = Ok ds)"
  by (cases "NormalizeTunnelDomain raw") (auto simp: domain_allowed_def)

lemma checkDomainLoop_ok:
  "checkDomainLoop cfg env policy typ raws out = Ok ds \<Longrightarrow> distinct out \<and> (\<forall>d\<in>set out. domain_allowed cfg env policy typ d) \<Longrightarrow>
   distinct ds \<and> (\<forall>d\<in>set ds. domain_allowed cfg env policy typ d)"
proof (induction raws arbitrary: out)
  case (Cons raw raws)
  obtain d where d: "domain_allowed cfg env policy typ d"
    "checkDomainLoop cfg env policy typ raws (if d \<in> set out then out else out @ [d]) = Ok ds"
    using Cons.prems(1) unfolding checkDomainLoop_Cons by blast
  show ?case
    by (rule Cons.IH [OF d(2)]) (use Cons.prems(2) d(1) in auto)
qed simp

lemma checkDomains_ok:
  assumes "checkDomains cfg env policy typ spec = Ok ds"
  shows "distinct ds" "\<forall>d\<in>set ds. domain_allowed cfg env policy typ d" "ds \<noteq> [] \<Longrightarrow> typ = TUNNEL_TYPE_HTTP \<or> typ = TUNNEL_TYPE_TLS"
  using assms checkDomainLoop_ok [of cfg env policy "typ" "sp_Domains spec" "[]" ds]
  by (auto simp: checkDomains_def split: if_splits)

lemma openChecks_ok:
  assumes "openChecks cfg env sess spec rnd = Ok (access, name, domains)"
  shows "sp_Type spec \<noteq> TUNNEL_TYPE_UNSPECIFIED" "AllowsType (tk_Policy (as_token sess)) (TunnelTypeName (sp_Type spec))"
    "ValidName name" "AllowsName (tk_Policy (as_token sess)) name" "\<not> IsReserved (relay_rules cfg) name"
    "checkDomains cfg env (tk_Policy (as_token sess)) (sp_Type spec) spec = Ok domains"
    "checkAccess cfg env (sp_Type spec) spec = Ok access"
    "name = (if sp_Name spec = [] then ''t-'' @ rnd else sp_Name spec)"
proof -
  let ?p = "tk_Policy (as_token sess)" and ?n = "if sp_Name spec = [] then ''t-'' @ rnd else sp_Name spec"
  have "sp_Type spec \<noteq> TUNNEL_TYPE_UNSPECIFIED \<and> AllowsType ?p (TunnelTypeName (sp_Type spec)) \<and>
      ValidName ?n \<and> AllowsName ?p ?n \<and> \<not> IsReserved (relay_rules cfg) ?n \<and> name = ?n \<and>
      checkDomains cfg env ?p (sp_Type spec) spec = Ok domains \<and> checkAccess cfg env (sp_Type spec) spec = Ok access"
    using assms unfolding openChecks_def Let_def
    by (cases "checkAccess cfg env (sp_Type spec) spec"; cases "checkDomains cfg env ?p (sp_Type spec) spec")
      (simp_all split: if_split_asm)
  then show "sp_Type spec \<noteq> TUNNEL_TYPE_UNSPECIFIED" "AllowsType ?p (TunnelTypeName (sp_Type spec))"
    "ValidName name" "AllowsName ?p name" "\<not> IsReserved (relay_rules cfg) name"
    "checkDomains cfg env ?p (sp_Type spec) spec = Ok domains" "checkAccess cfg env (sp_Type spec) spec = Ok access" "name = ?n"
    by simp_all
qed

section \<open>The opened tunnel\<close>

lemma openTunnel_Ok:
  assumes "openTunnel cfg env sess (spec, rnd, tid) s = (Ok a, s')"
  obtains access name domains i existed r1 r2 t r3 where
    "openChecks cfg env sess spec rnd = Ok (access, name, domains)"
    "reg_claim name (sp_Type spec) (tk_ID (as_token sess)) (as_agentID sess) (as_addr sess)
       (MaxTunnels (tk_Policy (as_token sess))) (sv_registry s) = (Ok (i, existed), r1)"
    "reg_setDomains i domains r1 = (Ok (), r2)"
    "openAddress cfg env sess spec \<lparr>tn_session = as_addr sess, tn_res = i, tn_existed = existed, tn_TunnelId = tid, tn_Name = name,
       tn_Type = sp_Type spec, tn_Hostname = name @ ''.'' @ rc_BaseDomain cfg, tn_Domains = domains,
       tn_PublicPort = 0, tn_PublicAddress = [], tn_listening = False, tn_access = access\<rparr> r2 = (Ok t, r3)"
    "sv_registry s' = reg_activate i (sv_next s) r3" "map_of (sv_tunnels s') (sv_next s) = Some t" "a = sv_next s"
proof (cases "openChecks cfg env sess spec rnd")
  case (Inr checked)
  obtain access name domains where ch: "checked = (access, name, domains)" by (cases checked) auto
  obtain got r1 where c: "reg_claim name (sp_Type spec) (tk_ID (as_token sess)) (as_agentID sess) (as_addr sess)
      (MaxTunnels (tk_Policy (as_token sess))) (sv_registry s) = (got, r1)" by fastforce
  then obtain i existed where got: "got = Inr (i, existed)"
    using assms Inr ch by (cases got) (auto simp: openTunnel_def)
  obtain dres r2 where d: "reg_setDomains i domains r1 = (dres, r2)" by fastforce
  then have dr: "dres = Inr ()" using assms Inr ch c got by (cases dres) (auto simp: openTunnel_def)
  let ?t0 = "\<lparr>tn_session = as_addr sess, tn_res = i, tn_existed = existed, tn_TunnelId = tid, tn_Name = name,
       tn_Type = sp_Type spec, tn_Hostname = name @ ''.'' @ rc_BaseDomain cfg, tn_Domains = domains,
       tn_PublicPort = 0, tn_PublicAddress = [], tn_listening = False, tn_access = access\<rparr>"
  obtain ares r3 where ad: "openAddress cfg env sess spec ?t0 r2 = (ares, r3)" by fastforce
  then obtain t where t: "ares = Inr t" using assms Inr ch c got d dr by (cases ares) (auto simp: openTunnel_def)
  have "s' = s\<lparr>sv_registry := reg_activate i (sv_next s) r3, sv_tunnels := AList.update (sv_next s) t (sv_tunnels s),
      sv_next := Suc (sv_next s)\<rparr>" "a = sv_next s"
    using assms Inr ch c got d dr ad t by (auto simp: openTunnel_def)
  then show thesis
    using Inr ch c got d dr ad t by (intro that [of access name domains i existed r1 r2 t r3]) (simp_all add: update_conv')
qed (use assms in \<open>simp add: openTunnel_def\<close>)

lemma openAddress_tunnel:
  assumes "openAddress cfg env sess spec t r = (Ok t', r')"
  shows "tn_session t' = tn_session t" "tn_res t' = tn_res t" "tn_Name t' = tn_Name t" "tn_Type t' = tn_Type t"
    "tn_Domains t' = tn_Domains t" "tn_access t' = tn_access t" "tn_TunnelId t' = tn_TunnelId t" "tn_Hostname t' = tn_Hostname t"
proof -
  have "tn_session t' = tn_session t \<and> tn_res t' = tn_res t \<and> tn_Name t' = tn_Name t \<and> tn_Type t' = tn_Type t \<and>
    tn_Domains t' = tn_Domains t \<and> tn_access t' = tn_access t \<and> tn_TunnelId t' = tn_TunnelId t \<and> tn_Hostname t' = tn_Hostname t"
  proof (cases "re_cluster env")
    case (Some claim)
    then show ?thesis
      using assms by (cases "claimInCluster cfg claim sess t spec (tk_Policy (as_token sess))")
        (auto simp: openAddress_def Let_def setEndpointAddress_def)
  qed (use assms in \<open>auto simp: openAddress_def Let_def split: if_splits sum.splits prod.splits\<close>)
  then show "tn_session t' = tn_session t" "tn_res t' = tn_res t" "tn_Name t' = tn_Name t" "tn_Type t' = tn_Type t"
    "tn_Domains t' = tn_Domains t" "tn_access t' = tn_access t" "tn_TunnelId t' = tn_TunnelId t" "tn_Hostname t' = tn_Hostname t"
    by blast+
qed

lemma openAddress_port:
  assumes "reg_inv r" "live r (tn_res t)" "range_ok cfg" "\<not> tn_listening t" "openAddress cfg env sess spec t r = (Ok t', r')" "tn_listening t'"
  shows "hasPublicPort (tn_Type t)" "reg_portOf r' (tn_res t) = tn_PublicPort t'"
    "tn_PublicPort t' = reg_portOf r (tn_res t) \<or> allocatable cfg (tk_Policy (as_token sess)) (tn_PublicPort t')"
proof -
  have cl: "re_cluster env = None"
  proof (rule ccontr)
    assume "re_cluster env \<noteq> None"
    then obtain claim where "re_cluster env = Some claim" by blast
    then show False
      using assms(4-6) by (cases "claimInCluster cfg claim sess t spec (tk_Policy (as_token sess))")
        (auto simp: openAddress_def Let_def setEndpointAddress_def split: if_splits)
  qed
  obtain got r1 where l: "listenTunnelPort cfg env (tn_res t) (sp_PublicPort spec) (sp_PreviousPort spec) (tk_Policy (as_token sess)) r = (got, r1)"
    by fastforce
  have "hasPublicPort (tn_Type t)" "got = Inr (tn_PublicPort t')" "r' = r1"
    using assms(4-6) cl l by (auto simp: openAddress_def Let_def split: if_splits sum.splits)
  then show "hasPublicPort (tn_Type t)" "reg_portOf r' (tn_res t) = tn_PublicPort t'"
    "tn_PublicPort t' = reg_portOf r (tn_res t) \<or> allocatable cfg (tk_Policy (as_token sess)) (tn_PublicPort t')"
    using listenTunnelPort_kept(2) [OF assms(1-3) l, of "tn_PublicPort t'"] by blast+
qed

text \<open>Ports leave the domains alone; a claim leaves the port it finds.\<close>

lemma tryListen_domains: "tryListen env p r = (ok, r') \<Longrightarrow> reg_domains r' = reg_domains r"
  by (auto simp: tryListen_def reg_reservePort_def reg_releasePort_def split: if_splits)

lemma firstPort_domains: "firstPort env ports r = (got, r') \<Longrightarrow> reg_domains r' = reg_domains r"
proof (induction ports arbitrary: r)
  case (Cons p ports)
  obtain ok r1 where l: "tryListen env p r = (ok, r1)" by fastforce
  then show ?case using Cons.prems Cons.IH [of r1] tryListen_domains [OF l] by (auto split: if_splits)
qed simp

lemma setPort_domains [simp]: "reg_domains (reg_setPort i p r) = reg_domains r"
  by (simp add: reg_setPort_def Let_def)

lemma listenTunnelPort_domains:
  "listenTunnelPort cfg env i requested previous policy r = (got, r') \<Longrightarrow> reg_domains r' = reg_domains r"
  by (auto simp: listenTunnelPort_def Let_def split: if_splits sum.splits prod.splits option.splits
      dest!: tryListen_domains firstPort_domains)

lemma openAddress_domains: "openAddress cfg env sess spec t r = (got, r') \<Longrightarrow> reg_domains r' = reg_domains r"
  by (auto simp: openAddress_def Let_def split: if_splits sum.splits prod.splits option.splits dest: listenTunnelPort_domains)

lemma claim_port:
  assumes "reg_inv r" "reg_claim name t tok ag sess mx r = (Ok (i, existed), r')"
  shows "reg_portOf r' i = reg_portOf r i"
proof (cases "map_of (reg_names r) name")
  case None
  then show ?thesis
    using assms reg_fresh [OF assms(1), of "reg_next r"]
    by (auto simp: reg_claim_def alloc_res_def Let_def Decide_def reg_portOf_def split: if_splits)
next
  case (Some j)
  then obtain res where "res_at r j = Some res" using reg_entry [OF assms(1)] by blast
  then show ?thesis
    using assms(2) Some by (auto simp: reg_claim_def Let_def Decide_def reg_portOf_def split: if_splits)
qed

lemma setDomains_sets:
  assumes "reg_setDomains i ds r = (Ok (), r')" "live r i"
  shows "\<forall>d\<in>set ds. map_of (reg_domains r') d = Some i" "reg_portOf r' i = reg_portOf r i"
proof -
  obtain res where res: "res_at r i = Some res" using assms(2) by (auto simp: live_def split: option.splits)
  let ?m = "fold (\<lambda>d m. if map_of m d = Some i then AList.delete d m else m) (res_domains res) (reg_domains r)"
  have m: "map_of (fold (\<lambda>d. AList.update d i) ds m) d = (if d \<in> set ds then Some i else map_of m d)" for m d
    by (induction ds arbitrary: m) (auto simp: update_conv')
  have r': "r' = (upd_res i (\<lambda>res. res\<lparr>res_domains := ds\<rparr>) r)\<lparr>reg_domains := fold (\<lambda>d. AList.update d i) ds ?m\<rparr>"
    using assms(1) res by (auto simp: reg_setDomains_def Let_def split: option.splits)
  show "\<forall>d\<in>set ds. map_of (reg_domains r') d = Some i" by (simp add: r' m)
  show "reg_portOf r' i = reg_portOf r i" using res by (simp add: r' reg_portOf_def)
qed

section \<open>Properties\<close>

text \<open>Instances for the examples.\<close>

definition exRelay :: relay_Config where
  "exRelay = \<lparr>rc_BaseDomain = ''t.io'', rc_ControlSNI = ''c.t.io'', rc_Login = None, rc_ReservedNames = [''www''],
     rc_PublicHost = ''relay'', rc_TCPPortMin = 5, rc_TCPPortMax = 7, rc_httpsPort = 443\<rparr>"

definition exRelayEnv :: relay_env where
  "exRelayEnv = \<lparr>re_now = 0, re_bind = (\<lambda>p. p \<noteq> 5), re_cost_ok = (\<lambda>_. True), re_canServe = (\<lambda>_. True), re_cluster = None\<rparr>"

definition exRecord :: TokenRecord where
  "exRecord = \<lparr>tk_ID = ''deadbeef'', tk_Name = ''n'', tk_Hash = ''h'', tk_Created = 0,
     tk_Policy = \<lparr>Names = [''a'', ''b''], Types = [], MaxTunnels = 2, Ports = [], RequireCert = False, Domains = [''d.com'']\<rparr>,
     tk_CertSerials = [''s'']\<rparr>"

definition exSession :: agentSession where
  "exSession = \<lparr>as_addr = 0, as_id = ''s0'', as_ready = True, as_token = exRecord, as_agentID = ''g'', as_lastSeen = 0,
     as_rttMicros = 0, as_reason = ReasonAgentClosed, as_tunnels = []\<rparr>"

definition exSpec :: "string \<Rightarrow> int \<Rightarrow> TunnelSpec" where
  "exSpec name port = \<lparr>sp_Name = name, sp_Type = TUNNEL_TYPE_TCP, sp_PublicPort = port,
     sp_Access = \<lparr>AllowIps = [], DenyIps = [], BasicUsers = [], AccessTokenSha256 = [], Oidc = None\<rparr>,
     sp_Domains = [], sp_PreviousPort = 0\<rparr>"

definition exServer :: relay_Server where
  "exServer = \<lparr>sv_registry = newNameRegistry 60 False, sv_tunnels = [], sv_next = 0, sv_http = [], sv_calls = []\<rparr>"

lemma exServer_ok:
  "reg_inv (sv_registry exServer)" "tunnels_ok exServer" "range_ok exRelay" "holds exSession exServer = {}"
  by (simp_all add: exServer_def newNameRegistry_inv tunnels_ok_def range_ok_def exRelay_def,
      simp add: newNameRegistry_def held_def)

text \<open>C5. A registration takes all of its tunnels or none.  When it succeeds the
  session holds, besides what it held, exactly one new reservation per tunnel it
  asked for, under the new tunnel objects that are appended to its list; when
  it fails, for whatever tunnel and reason, the session holds what it held before,
  its tunnel list is unchanged and no tunnel object made on the way still
  listens.  Either way the registry's invariant holds afterwards.\<close>

theorem register_all_or_none:
  assumes "range_ok cfg" "reg_inv (sv_registry s)" "tunnels_ok s" "register cfg env specs (sess, s) = (rep, sess', s')"
  shows "reg_inv (sv_registry s') \<and>
    (case rep of
       Registered opened \<Rightarrow>
         opened = [sv_next s..<sv_next s'] \<and> length opened = length specs \<and> as_tunnels sess' = as_tunnels sess @ opened \<and>
         distinct (map (res_of s') opened) \<and> res_of s' ` set opened \<inter> holds sess s = {} \<and>
         holds sess s' = holds sess s \<union> res_of s' ` set opened
     | _ \<Rightarrow> sess' = sess \<and> holds sess s' = holds sess s \<and>
         (\<forall>a t. map_of (sv_tunnels s') a = Some t \<longrightarrow> map_of (sv_tunnels s) a = Some t \<or> \<not> tn_listening t))"
proof (cases "specs = []")
  case True
  then show ?thesis using assms(2,4) by (auto simp: register_def)
next
  case False
  obtain got s1 where l: "registerLoop cfg env sess specs [] s = (got, s1)" by fastforce
  note sound = registerLoop_sound [OF assms(1-3) collected_start [OF assms(3)] l]
  have s1: "s' = s1" using assms(4) False l by (auto simp: register_def split: sum.splits open_error.splits)
  have "reg_step\<^sup>*\<^sup>* (sv_registry s) (sv_registry s1)"
    using sound by (auto simp: undone_def collected_def split: sum.splits)
  then have inv: "reg_inv (sv_registry s')" using relay.keeps_steps [OF _ assms(2)] s1 by blast
  show ?thesis
  proof (cases got)
    case (Inl e)
    then show ?thesis using sound assms(4) False l inv by (cases e) (auto simp: register_def undone_def)
  next
    case (Inr opened)
    then have c: "collected sess s opened s1" "length opened = length specs" using sound by simp_all
    have rep: "rep = Registered opened" and "as_tunnels sess' = as_tunnels sess @ opened"
      using assms(4) False l Inr by (auto simp: register_def)
    then show ?thesis unfolding rep reply.case using c inv unfolding s1 collected_def by blast
  qed
qed

text \<open>The second tunnel asks for a port outside the range; nothing is kept of
  the first.\<close>

theorem register_all_or_none_witness:
  "fst (register exRelay exRelayEnv [(exSpec ''a'' 0, [], ''x''), (exSpec ''b'' 9, [], ''y'')] (exSession, exServer)) =
     ErrorReply ERROR_CODE_PORT_NOT_ALLOWED \<and>
   holds exSession (snd (snd (register exRelay exRelayEnv [(exSpec ''a'' 0, [], ''x''), (exSpec ''b'' 9, [], ''y'')] (exSession, exServer)))) = {}"
proof -
  let ?r = "register exRelay exRelayEnv [(exSpec ''a'' 0, [], ''x''), (exSpec ''b'' 9, [], ''y'')] (exSession, exServer)"
  have 1: "fst ?r = ErrorReply ERROR_CODE_PORT_NOT_ALLOWED" by code_simp
  have "?r = (fst ?r, fst (snd ?r), snd (snd ?r))" by simp
  from register_all_or_none [OF exServer_ok(3,1,2) this] show ?thesis using 1 exServer_ok(4) by simp
qed

text \<open>C6. A tunnel that was opened is one the token's policy and the relay's rules
  allow: its type, its name (valid, granted and not reserved) and its custom
  domains.  The registry then routes to it: its name is held by the token and
  looks up to this tunnel, each of its domains belongs to its reservation, and a
  port it listens on is the reservation's own, from the policy's part of the
  range or one the reservation already had.\<close>

theorem opened_tunnel_allowed:
  assumes "range_ok cfg" "reg_inv (sv_registry s)" "openTunnel cfg env sess (spec, rnd, tid) s = (Ok a, s')"
  shows "let t = tunnel_at s' a; policy = tk_Policy (as_token sess); r' = sv_registry s' in
    tn_Type t = sp_Type spec \<and> AllowsType policy (TunnelTypeName (tn_Type t)) \<and>
    ValidName (tn_Name t) \<and> AllowsName policy (tn_Name t) \<and> \<not> IsReserved (relay_rules cfg) (tn_Name t) \<and>
    (sp_Name spec \<noteq> [] \<longrightarrow> tn_Name t = sp_Name spec) \<and>
    distinct (tn_Domains t) \<and> (\<forall>d\<in>set (tn_Domains t). domain_allowed cfg env policy (tn_Type t) d) \<and>
    reg_owner r' (tn_Name t) = Some (tk_ID (as_token sess)) \<and> reg_lookup r' (tn_Name t) = Some (Some a, tn_Type t) \<and>
    (\<forall>d\<in>set (tn_Domains t). map_of (reg_domains r') d = Some (tn_res t)) \<and>
    (tn_listening t \<longrightarrow> hasPublicPort (tn_Type t) \<and> reg_portOf r' (tn_res t) = tn_PublicPort t \<and>
       (allocatable cfg policy (tn_PublicPort t) \<or> tn_PublicPort t = reg_portOf (sv_registry s) (tn_res t)))"
proof -
  let ?a = "as_addr sess" and ?p = "tk_Policy (as_token sess)"
  obtain access name domains i existed r1 r2 t r3 where
    ch: "openChecks cfg env sess spec rnd = Ok (access, name, domains)" and
    cl: "reg_claim name (sp_Type spec) (tk_ID (as_token sess)) (as_agentID sess) ?a (MaxTunnels ?p) (sv_registry s) = (Ok (i, existed), r1)" and
    d: "reg_setDomains i domains r1 = (Ok (), r2)" and
    ad: "openAddress cfg env sess spec \<lparr>tn_session = ?a, tn_res = i, tn_existed = existed, tn_TunnelId = tid, tn_Name = name,
       tn_Type = sp_Type spec, tn_Hostname = name @ ''.'' @ rc_BaseDomain cfg, tn_Domains = domains,
       tn_PublicPort = 0, tn_PublicAddress = [], tn_listening = False, tn_access = access\<rparr> r2 = (Ok t, r3)" and
    r': "sv_registry s' = reg_activate i (sv_next s) r3" and tn: "map_of (sv_tunnels s') (sv_next s) = Some t" and a: "a = sv_next s"
    using openTunnel_Ok [OF assms(3)] .
  note claimed = claim_held [OF assms(2) cl]
  have inv1: "reg_inv r1" using relay.keeps [OF assms(2) reg_step.claim] cl by (metis snd_conv)
  have live1: "live r1 i" by (rule held_live [OF claimed(3)])
  have k1: "kept i r1 r2"
    using setDomains_held [where i = i and ds = domains and r = r1] setDomains_ident [of i domains r1] d
      reg_step.setDomains [OF live1, of domains] by (auto simp: kept_def)
  have inv2: "reg_inv r2" using k1 inv1 relay.keeps_steps by (auto simp: kept_def)
  have live2: "live r2 i" using k1 claimed(3) held_live [of i r2 ?a] by (simp add: kept_def)
  have k2: "kept i r1 r3" using kept_trans [OF k1] openAddress_kept(1) [OF inv2 _ assms(1) ad] live2 by simp
  have live3: "live r3 i" using k2 claimed(3) held_live [of i r3 ?a] by (simp add: kept_def)
  note t = openAddress_tunnel [OF ad, simplified]
  have id3: "ident i r3 = Some (name, tk_ID (as_token sess), sp_Type spec)"
    using k2 claimed(4) by (auto simp: kept_def ident_def)
  then have look: "reg_owner (reg_activate i (sv_next s) r3) name = Some (tk_ID (as_token sess))"
      "reg_lookup (reg_activate i (sv_next s) r3) name = Some (Some (sv_next s), sp_Type spec)"
    using live3 by (auto simp: ident_def live_def reg_owner_def reg_lookup_def reg_activate_def)
  have doms: "\<forall>d\<in>set domains. map_of (reg_domains (reg_activate i (sv_next s) r3)) d = Some i"
    using setDomains_sets(1) [OF d live1] openAddress_domains [OF ad] by (simp add: reg_activate_def)
  have port: "hasPublicPort (sp_Type spec) \<and> reg_portOf (reg_activate i (sv_next s) r3) i = tn_PublicPort t \<and>
      (allocatable cfg ?p (tn_PublicPort t) \<or> tn_PublicPort t = reg_portOf (sv_registry s) i)" if "tn_listening t"
    using openAddress_port [OF inv2 _ assms(1) _ ad that] live2 live3 setDomains_sets(2) [OF d live1] claim_port [OF assms(2) cl]
    by (auto simp: reg_activate_def reg_portOf_def live_def split: option.splits)
  have name: "sp_Name spec \<noteq> [] \<longrightarrow> name = sp_Name spec"
    using openChecks_ok(8) [OF ch] by simp
  show ?thesis
    using openChecks_ok(1-5) [OF ch] checkDomains_ok(1,2) [OF openChecks_ok(6) [OF ch]] t r' tn a look doms port name
    by (simp add: tunnel_at_def)
qed

theorem opened_tunnel_allowed_witness:
  "fst (openTunnel exRelay exRelayEnv exSession (exSpec ''a'' 0, [], ''x'') exServer) = Ok 0 \<and>
   tn_listening (tunnel_at (snd (openTunnel exRelay exRelayEnv exSession (exSpec ''a'' 0, [], ''x'') exServer)) 0) \<and>
   reg_portOf (sv_registry (snd (openTunnel exRelay exRelayEnv exSession (exSpec ''a'' 0, [], ''x'') exServer))) 0 = 6 \<and>
   reg_owner (sv_registry (snd (openTunnel exRelay exRelayEnv exSession (exSpec ''a'' 0, [], ''x'') exServer))) ''a'' = Some ''deadbeef''"
proof -
  let ?o = "openTunnel exRelay exRelayEnv exSession (exSpec ''a'' 0, [], ''x'') exServer"
  have 1: "fst ?o = Ok 0" "tn_listening (tunnel_at (snd ?o) 0)" "tn_PublicPort (tunnel_at (snd ?o) 0) = 6"
    "tn_res (tunnel_at (snd ?o) 0) = 0" "tn_Name (tunnel_at (snd ?o) 0) = ''a''" "tk_ID (as_token exSession) = ''deadbeef''"
    by code_simp+
  have "?o = (Ok 0, snd ?o)" using 1(1) by (metis prod.collapse)
  from opened_tunnel_allowed [OF exServer_ok(3,1) this] show ?thesis using 1 by (simp add: Let_def)
qed

text \<open>C9. An agent is let in exactly for these credentials: without a client
  certificate, a token string whose ID is in the store and whose secret matches the
  record's hash, if that record's policy does not demand a certificate; with one, a
  certificate whose token is in the store and still lists its serial, and then
  either no token string or one that verifies for the same token ID.  The
  record it gets is the one the credentials name.\<close>

theorem authenticate_table:
  "authenticate toks compare token peer = Ok rec \<longleftrightarrow>
     (case peer of
        None \<Rightarrow>
          token \<noteq> [] \<and> \<not> RequireCert (tk_Policy rec) \<and>
          (\<exists>ident secret. ParseToken token = Ok (ident, secret) \<and> toks ident = Some (Some rec) \<and> Verify compare rec secret)
      | Some (uris, sn) \<Rightarrow>
          \<exists>cident serial c. CertIdentity uris sn = Some (cident, serial) \<and> toks cident = Some (Some c) \<and> HasCertSerial c serial \<and>
            (if token = [] then rec = c
             else tk_ID c = tk_ID rec \<and>
               (\<exists>ident secret. ParseToken token = Ok (ident, secret) \<and> toks ident = Some (Some rec) \<and> Verify compare rec secret)))"
proof (cases peer)
  case (Some cert)
  obtain uris sn where "cert = (uris, sn)" by fastforce
  then show ?thesis
    unfolding authenticate_iff Some using certToken_iff [of toks uris sn] verifyToken_iff [of toks compare token rec]
    by (cases "token = []") (simp_all, blast+)
qed (auto simp: authenticate_iff verifyToken_iff)

end
