(* ===== verification/Agent_Properties.thy ===== *)
theory Agent_Properties
  imports Relay_Agent_Inv Session_Properties
begin



section \<open>Names and sessions\<close>













section \<open>A whole connection\<close>










section \<open>Revoking a token\<close>








end
