(* ===== verification/Router_Properties.thy ===== *)
theory Router_Properties
  imports Relay_Link Agent_Properties Claims_Properties
begin

text \<open>
  Properties of a relay's routing, alone and as part of the cluster: which
  connections reach a tunnel, that a connection is forwarded once, what the SSH
  gateway lets through, and how claims over the network meet the engine.
\<close>

section \<open>The shared listener\<close>

lemma FindTLV_signed [simp]: "FindTLV (SignedTLVs key subject client ts) TLVAuth = Some (signStream key subject client ts)"
  by (simp add: FindTLV_def SignedTLVs_def TLVTunnel_def TLVAuth_def)

lemma forwardToOwner_some:
  "forwardToOwner env tlvs client host = Some out \<Longrightarrow>
     FindTLV tlvs TLVAuth = None \<and> (\<exists>addr. out = RelayedTo addr (SignedTLVs (rv_ForwardKey env) host (na_String client) (rv_unix env)) \<and>
       (\<exists>OwnerOf. rv_OwnerOf env = Some OwnerOf \<and> OwnerOf host = Some addr))"
  by (auto simp: forwardToOwner_def split: option.splits if_splits)

lemma controlConn_out: "controlConn env hello \<in> {Hangup, Rejected, AgentConn, AgentWebSocket}"
  by (simp add: controlConn_def terminated_def Let_def)

lemma serveTokenTunnel_ok:
  "serveTokenTunnel env a access hello client f = (ModeB b, f') \<Longrightarrow>
     b = a \<and> \<not> fst (Exhausted (remoteIP client) (rv_now env) (fr_authFailures f)) \<and>
     (\<exists>token. rv_authMsg env = Some token \<and> CheckToken access token)"
  by (auto simp: serveTokenTunnel_def Let_def split: prod.splits if_splits option.splits)

lemma serveTokenTunnel_out:
  "fst (serveTokenTunnel env a access hello client f) \<in> {Hangup, Rejected, ModeB a}"
  by (auto simp: serveTokenTunnel_def Let_def split: prod.splits if_splits option.splits)

lemma serveTokenTunnel_kept [simp]: "serveTokenTunnel env a access hello client f \<noteq> (RelayedTo addr hdr, f')"
  using serveTokenTunnel_out [of env a access hello client f] by auto

text \<open>The name a client asked for.\<close>

definition hello_name :: "ClientHello \<Rightarrow> string" where
  "hello_name hello = ToLower (TrimSuffix (ch_ServerName hello) ''.'')"

text \<open>\<^const>\<open>serveConn\<close> for a name that is neither the control name nor the login host, once admitted.\<close>

definition tunnelConn ::
    "relay_Config \<Rightarrow> router_env \<Rightarrow> relay_Server \<Rightarrow> net_Addr \<Rightarrow> TLV list \<Rightarrow> ClientHello \<Rightarrow> relay_Front \<Rightarrow> conn_outcome \<times> relay_Front" where
  "tunnelConn cfg env s client tlvs hello f =
     (let (t, typ, name) = resolveHost cfg (sv_registry s) (hello_name hello);
          page = (if name \<noteq> [] \<and> (typ = TUNNEL_TYPE_HTTP \<or> \<not> offers (ch_SupportedProtos hello) ConnectALPN)
                  then (terminated env HTTPConn, f) else (Rejected, f\<lparr>fr_rejectedNoRoute := fr_rejectedNoRoute f + 1\<rparr>))
      in case t of
           None \<Rightarrow> (case forwardToOwner env tlvs client (hello_name hello) of Some out \<Rightarrow> (out, f) | None \<Rightarrow> page)
         | Some a \<Rightarrow>
             (let access = tn_access (tunnel_at s a) in
              if \<not> AllowsIP access (remoteIP client) \<and> typ \<noteq> TUNNEL_TYPE_HTTP
              then (Rejected, f\<lparr>fr_rejectedIP := fr_rejectedIP f + 1\<rparr>)
              else if typ = TUNNEL_TYPE_TLS then (Passthrough a, f)
              else if hasPublicPort typ \<and> RequiresToken access then serveTokenTunnel env a access hello client f
              else if hasPublicPort typ then (terminated env (ModeB a), f)
              else page))"

lemma serveConn_split:
  "serveConn cfg env s client tlvs peeked f0 =
     (let (ok, f) = admit (rv_now env) client None f0 in
      if \<not> ok then (Hangup, f)
      else case peeked of
             None \<Rightarrow> (Hangup, f)
           | Some hello \<Rightarrow>
               if hello_name hello = rc_ControlSNI cfg then (controlConn env hello, f)
               else if (case rc_Login cfg of Some (authHost, _) \<Rightarrow> hello_name hello = authHost | None \<Rightarrow> False)
               then (terminated env HTTPConn, f)
               else tunnelConn cfg env s client tlvs hello f)"
  unfolding serveConn_def tunnelConn_def hello_name_def Let_def
  by (auto split: prod.splits option.splits)

lemma serveConn_tunnel:
  assumes "serveConn cfg env s client tlvs peeked f0 = (out, f')" "out \<notin> {Hangup, Rejected, AgentConn, AgentWebSocket, HTTPConn}"
  obtains hello f where "peeked = Some hello" "admit (rv_now env) client None f0 = (True, f)"
    "hello_name hello \<noteq> rc_ControlSNI cfg" "tunnelConn cfg env s client tlvs hello f = (out, f')"
  using assms controlConn_out [of env] unfolding serveConn_split terminated_def
  by (auto split: prod.splits option.splits if_splits)


lemma tunnelConn_reached:
  assumes "tunnelConn cfg env s client tlvs hello f = (out, f')" "out = Passthrough a \<or> out = ModeB a"
  shows "\<exists>typ name. resolveHost cfg (sv_registry s) (hello_name hello) = (Some a, typ, name) \<and>
    AllowsIP (tn_access (tunnel_at s a)) (remoteIP client) \<and>
    (out = Passthrough a \<and> typ = TUNNEL_TYPE_TLS \<or>
     out = ModeB a \<and> hasPublicPort typ \<and> rv_terminate env \<and>
     (RequiresToken (tn_access (tunnel_at s a)) \<longrightarrow>
        (\<exists>token. rv_authMsg env = Some token \<and> CheckToken (tn_access (tunnel_at s a)) token) \<and>
        \<not> fst (Exhausted (remoteIP client) (rv_now env) (fr_authFailures f))))"
proof -
  obtain t ty name where r: "resolveHost cfg (sv_registry s) (hello_name hello) = (t, ty, name)"
    using prod.exhaust by metis
  have "t \<noteq> None"
    using assms forwardToOwner_some [of env tlvs client "hello_name hello"]
    by (cases t) (auto simp: tunnelConn_def r Let_def terminated_def split: option.splits if_splits)
  then obtain b where t: "t = Some b" by blast
  let ?access = "tn_access (tunnel_at s b)"
  have tok: "fst (serveTokenTunnel env b ?access hello client f) \<in> {Hangup, Rejected, ModeB b}"
    by (rule serveTokenTunnel_out)
  have tls: "rv_terminate env" if "serveTokenTunnel env b ?access hello client f = (ModeB b, f')"
    using that by (auto simp: serveTokenTunnel_def Let_def split: prod.splits if_splits)
  show ?thesis
    using assms tok tls serveTokenTunnel_ok [of env b ?access hello client f b f']
    by (auto simp: tunnelConn_def r t Let_def terminated_def hasPublicPort_def split: if_splits)
qed

lemma admit_None:
  "admit now client None f0 = (True, f) \<Longrightarrow> fst (Allow (remoteIP client) now (fr_connLimit f0)) \<and> fr_authFailures f = fr_authFailures f0"
  by (auto simp: admit_def Let_def split: prod.splits if_splits)

text \<open>C10. A connection on the shared listener reaches a tunnel's agent only when it
  may: its address is within the connection rate and on the tunnel's IP lists, the
  tunnel is the one its server name resolves to, as TLS for a TLS tunnel and
  decrypted for a TCP or SSH tunnel; and if the tunnel asks for an access token, the client
  sent one that matches, from an address that has not failed too often.\<close>

theorem tunnel_reached_safely:
  assumes "serveConn cfg env s client tlvs peeked f0 = (out, f')" "out = Passthrough a \<or> out = ModeB a"
  shows "fst (Allow (remoteIP client) (rv_now env) (fr_connLimit f0)) \<and> AllowsIP (tn_access (tunnel_at s a)) (remoteIP client) \<and>
    (\<exists>hello ty name. peeked = Some hello \<and> hello_name hello \<noteq> rc_ControlSNI cfg \<and>
       resolveHost cfg (sv_registry s) (hello_name hello) = (Some a, ty, name) \<and>
       (out = Passthrough a \<and> ty = TUNNEL_TYPE_TLS \<or>
        out = ModeB a \<and> hasPublicPort ty \<and> rv_terminate env \<and>
        (RequiresToken (tn_access (tunnel_at s a)) \<longrightarrow>
           (\<exists>token. rv_authMsg env = Some token \<and> CheckToken (tn_access (tunnel_at s a)) token) \<and>
           \<not> fst (Exhausted (remoteIP client) (rv_now env) (fr_authFailures f0)))))"
proof -
  have "out \<notin> {Hangup, Rejected, AgentConn, AgentWebSocket, HTTPConn}" using assms(2) by auto
  then obtain hello f where h: "peeked = Some hello" "admit (rv_now env) client None f0 = (True, f)"
    "hello_name hello \<noteq> rc_ControlSNI cfg" "tunnelConn cfg env s client tlvs hello f = (out, f')"
    using serveConn_tunnel [OF assms(1)] by blast
  show ?thesis
    using tunnelConn_reached [OF h(4) assms(2)] admit_None [OF h(2)] h(1,3) by metis
qed

text \<open>A relay with a TCP tunnel, and a client that asks for it.\<close>

definition exFront :: relay_Front where
  "exFront = \<lparr>fr_connLimit = NewIPLimiter 1 5 0, fr_authFailures = NewIPLimiter 1 5 0, fr_nAuthFailures = 0,
     fr_rejectedRate = 0, fr_rejectedIP = 0, fr_rejectedNoRoute = 0\<rparr>"

definition exRouterEnv :: router_env where
  "exRouterEnv = \<lparr>rv_now = 0, rv_unix = 100, rv_terminate = True, rv_negotiated = [], rv_authMsg = None, rv_wrote = True,
     rv_OwnerOf = Some (\<lambda>_. Some ''10.0.0.2:8443''), rv_StreamOwnerOf = (\<lambda>_. Some (''10.0.0.2:8444'', False)),
     rv_dial = (\<lambda>_. True), rv_writeHeader = True, rv_ForwardKey = ''k''\<rparr>"

definition exClient :: net_Addr where
  "exClient = \<lparr>na_TCP = Some (Addr4 7), na_String = ''0.0.0.7:99''\<rparr>"

definition exClientHello :: "string \<Rightarrow> ClientHello" where
  "exClientHello name = \<lparr>ch_ServerName = name, ch_SupportedProtos = [''l8tunnel-connect/1'']\<rparr>"

definition exHolding :: relay_Server where
  "exHolding = snd (openTunnel exRelay exRelayEnv exSession (exSpec ''a'' 0, [], ''x'') exServer)"

definition exServed :: "conn_outcome \<times> relay_Front" where
  "exServed = serveConn exRelay exRouterEnv exHolding exClient [] (Some (exClientHello ''A.t.io.'')) exFront"

theorem tunnel_reached_safely_witness:
  "fst exServed = ModeB 0 \<and> AllowsIP (tn_access (tunnel_at exHolding 0)) (remoteIP exClient)"
proof -
  have out: "fst exServed = ModeB 0" by code_simp
  show ?thesis
    using tunnel_reached_safely [of exRelay exRouterEnv exHolding exClient "[]" "Some (exClientHello ''A.t.io.'')" exFront
        "fst exServed" "snd exServed" 0] out
    by (simp add: exServed_def)
qed





section \<open>The SSH gateway\<close>

text \<open>A gateway channel that reaches a tunnel on this relay is authorized when it
  is opened: the key it logged in with is still known and grants that tunnel (by its
  exact name if the tunnel asks for an access token), the tunnel is a connected TCP or SSH
  tunnel asked for on port 22 or its own port, and its IP lists admit the client.\<close>

theorem gateway_local_authorized:
  assumes "gatewayTarget cfg env keys fp client req s f = (LocalTunnel a, f')"
  shows "\<exists>key ty. keys fp = Some key \<and> lookup_tunnel (sv_registry s) (gatewayName cfg req) = (Some a, ty) \<and> hasPublicPort ty \<and>
    (dt_Port req = 22 \<or> dt_Port req = tn_PublicPort (tunnel_at s a)) \<and>
    GatewayKey_Allows key (gatewayName cfg req) (RequiresToken (tn_access (tunnel_at s a))) \<and>
    AllowsIP (tn_access (tunnel_at s a)) (remoteIP client)"
  using assms by (auto simp: gatewayTarget_def Let_def split: if_splits option.splits prod.splits)

definition exKey :: GatewayKey where
  "exKey = \<lparr>gk_Name = ''k'', gk_PublicKey = [], gk_Fingerprint = ''fp'', gk_Tunnels = [''*''], gk_Created = 0\<rparr>"

definition exKeys :: "string \<Rightarrow> GatewayKey option" where
  "exKeys fp = (if fp = ''fp'' then Some exKey else None)"

definition exChannel :: "string \<Rightarrow> directTCPIP" where
  "exChannel host = \<lparr>dt_Host = host, dt_Port = 22\<rparr>"

theorem gateway_local_authorized_witness:
  "fst (gatewayTarget exRelay exRouterEnv exKeys ''fp'' exClient (exChannel ''a'') exHolding exFront) = LocalTunnel 0 \<and>
   (\<exists>ty. lookup_tunnel (sv_registry exHolding) ''a'' = (Some 0, ty) \<and> hasPublicPort ty)"
proof -
  have out: "fst (gatewayTarget exRelay exRouterEnv exKeys ''fp'' exClient (exChannel ''a'') exHolding exFront) = LocalTunnel 0"
    and n: "gatewayName exRelay (exChannel ''a'') = ''a''" by code_simp+
  obtain f where "gatewayTarget exRelay exRouterEnv exKeys ''fp'' exClient (exChannel ''a'') exHolding exFront = (LocalTunnel 0, f)"
    using out by (metis prod.collapse)
  from gateway_local_authorized [OF this] show ?thesis using out unfolding n by blast
qed

text \<open>C37. In a cluster the gateway forwards to a tunnel of any type.  When another
  relay holds the name, neither the relay with the gateway nor the relay that takes the stream looks
  at the tunnel's type or at the port: a key that grants the name reaches the agent of an HTTP tunnel
  directly, past its HTTP proxy (and the passwords or logins checked there).  The relay that
  holds the tunnel refuses the same channel as its own gateway.\<close>

theorem gateway_forwards_any_type:
  assumes "keys fp = Some key" "gatewayName cfg req = name" "name \<noteq> []" "fst (lookup_tunnel (sv_registry s) name) = None"
    and "rv_OwnerOf env \<noteq> None" "rv_StreamOwnerOf env name = Some (addr, explicit)" "GatewayKey_Allows key name explicit"
    and "rv_dial env addr" "rv_writeHeader env"
    and "lookup_tunnel (sv_registry s2) name = (Some a, ty)" "admit (rv_now env2) client (Some (tn_access (tunnel_at s2 a))) f2 = (True, f2')"
    and "rv_ForwardKey env2 = rv_ForwardKey env" "\<bar>sint (rv_unix env2 - rv_unix env)\<bar> \<le> streamAuthWindow"
  shows "gatewayTarget cfg env keys fp client req s f = (RemoteRelay addr, f) \<and>
    (\<exists>hdr. gatewayRemote cfg env client req addr = RelayedTo addr hdr \<and> serveStream env2 s2 client hdr f2 = (Passthrough a, f2')) \<and>
    (\<not> hasPublicPort ty \<longrightarrow> fst (gatewayTarget cfg env2 keys fp client req s2 f2) = Refused)"
proof -
  let ?hdr = "SignedTLVs (rv_ForwardKey env) name (na_String client) (rv_unix env)"
  obtain ty0 where l: "lookup_tunnel (sv_registry s) name = (None, ty0)" using assms(4) by (metis prod.collapse)
  have "VerifySignedTLVs (rv_ForwardKey env2) ?hdr (na_String client) (rv_unix env2) = Ok name"
    unfolding VerifySignedTLVs_Ok_iff
    using assms(12,13) by (auto simp: FindTLV_def SignedTLVs_def TLVTunnel_def TLVAuth_def)
  then have "serveStream env2 s2 client ?hdr f2 = (Passthrough a, f2')"
    by (simp add: serveStream_def assms(10,11))
  moreover have "gatewayRemote cfg env client req addr = RelayedTo addr ?hdr"
    by (simp add: gatewayRemote_def assms(2,8,9))
  moreover have "gatewayTarget cfg env keys fp client req s f = (RemoteRelay addr, f)"
    using assms(5) by (simp add: gatewayTarget_def assms(1-3,6,7) l Let_def)
  moreover have "fst (gatewayTarget cfg env2 keys fp client req s2 f2) = Refused" if "\<not> hasPublicPort ty"
    using that by (simp add: gatewayTarget_def assms(1-3,10) Let_def)
  ultimately show ?thesis by blast
qed

text \<open>The tunnel of the example is an HTTP tunnel with a password.\<close>

definition exWebSpec :: TunnelSpec where
  "exWebSpec = (exSpec ''a'' 0)\<lparr>sp_Type := TUNNEL_TYPE_HTTP,
     sp_Access := \<lparr>AllowIps = [], DenyIps = [], BasicUsers = [\<lparr>Username = ''u'', BcryptHash = ''h''\<rparr>], AccessTokenSha256 = [], Oidc = None\<rparr>\<rparr>"

definition exWeb :: relay_Server where
  "exWeb = snd (openTunnel exRelay exRelayEnv exSession (exWebSpec, [], ''x'') exServer)"

theorem gateway_forwards_any_type_witness:
  "ac_users (tn_access (tunnel_at exWeb 0)) = [(''u'', ''h'')] \<and>
   (\<exists>hdr. gatewayRemote exRelay exRouterEnv exClient (exChannel ''a'') ''10.0.0.2:8444'' = RelayedTo ''10.0.0.2:8444'' hdr \<and>
      fst (serveStream exRouterEnv exWeb exClient hdr exFront) = Passthrough 0) \<and>
   fst (gatewayTarget exRelay exRouterEnv exKeys ''fp'' exClient (exChannel ''a'') exWeb exFront) = Refused"
proof -
  have n: "gatewayName exRelay (exChannel ''a'') = ''a''" "fst (lookup_tunnel (sv_registry exServer) ''a'') = None"
    "GatewayKey_Allows exKey ''a'' False" "lookup_tunnel (sv_registry exWeb) ''a'' = (Some 0, TUNNEL_TYPE_HTTP)"
    "ac_users (tn_access (tunnel_at exWeb 0)) = [(''u'', ''h'')]"
    "fst (admit 0 exClient (Some (tn_access (tunnel_at exWeb 0))) exFront)" "\<bar>sint (100 - 100 :: 64 word)\<bar> \<le> streamAuthWindow" by code_simp+
  have v: "rv_now exRouterEnv = 0" "rv_unix exRouterEnv = 100" "rv_OwnerOf exRouterEnv \<noteq> None"
    "rv_StreamOwnerOf exRouterEnv ''a'' = Some (''10.0.0.2:8444'', False)" "rv_dial exRouterEnv x" "rv_writeHeader exRouterEnv" for x
    by (simp_all add: exRouterEnv_def)
  obtain f where f: "admit (rv_now exRouterEnv) exClient (Some (tn_access (tunnel_at exWeb 0))) exFront = (True, f)"
    using n(6) v(1) by (metis prod.collapse)
  have k: "exKeys ''fp'' = Some exKey" by (simp add: exKeys_def)
  have w: "\<bar>sint (rv_unix exRouterEnv - rv_unix exRouterEnv)\<bar> \<le> streamAuthWindow" using n(7) v(2) by simp
  have "\<not> hasPublicPort TUNNEL_TYPE_HTTP" by (simp add: hasPublicPort_def)
  then show ?thesis
    using gateway_forwards_any_type [of exKeys "''fp''" exKey exRelay "exChannel ''a''" "''a''" exServer exRouterEnv "''10.0.0.2:8444''" False
        exWeb 0 TUNNEL_TYPE_HTTP exRouterEnv exClient exFront f exFront] k n(1-5) v(3-6) f w
    by (metis fst_conv list.distinct(1))
qed

end
