(* ===== verification/Link_Properties.thy ===== *)
theory Link_Properties
  imports Router_Properties
begin

text \<open>
  Claims between a relay and the registry: what an opened tunnel of a clustered
  relay means at the engine, and what happens to a claim that is sent twice.
\<close>

section \<open>One claim\<close>

text \<open>What the engine's record of a claim says.\<close>

definition records :: "TunLiveTunnel \<Rightarrow> string \<Rightarrow> ClaimRequest \<Rightarrow> TunTunnelType \<Rightarrow> bool" where
  "records rec rid c ty \<longleftrightarrow>
     tl_Name rec = cr_Name c \<and> tl_RelayId rec = rid \<and> tl_SessionId rec = cr_SessionID c \<and> tl_AgentId rec = cr_AgentID c \<and>
     tl_TokenId rec = cr_TokenID c \<and> tl_TunnelId rec = cr_TunnelID c \<and> tl_Type rec = ty \<and> tl_Domains rec = cr_Domains c \<and>
     tl_AccessToken rec = cr_AccessToken c \<and> is_active rec"

lemma admitted_records:
  assumes "Claims_Claim.admitted ecfg dir now (link_request rid c ty) e (link_tunnel c ty) rec"
  shows "records rec rid c ty" "CheckName (cfg_Rules ecfg) (cr_Name c) = Ok ()"
    "\<not> dir_IsSiteName dir (cr_Name c @ ''.'' @ BaseDomain (cfg_Rules ecfg))"
    "case reservation_of (dir_Reservations dir) (cr_Name c) of Some r \<Rightarrow> rs_TokenId r = cr_TokenID c | None \<Rightarrow> True"
proof -
  obtain p where "rec = (claimed_rec now (link_request rid c ty) (link_tunnel c ty))\<lparr>tl_PublicPort := p\<rparr>"
    using assms unfolding Claims_Claim.admitted_def by blast
  then show "records rec rid c ty"
    by (simp add: records_def claimed_rec_def link_tunnel_def is_active_def)
qed (use assms in \<open>auto simp: Claims_Claim.admitted_def split: option.splits\<close>)

lemma granted_claim:
  assumes "eng_excl e" "Handle ecfg dir now (link_request rid c ty) e = (resp, e')" "rp_Error resp = TUN_CLAIM_ERROR_UNSPECIFIED"
  obtains rec where "rp_Tunnels resp = [rec]" "Claims_Claim.admitted ecfg dir now (link_request rid c ty) e (link_tunnel c ty) rec"
    "tun e' (cr_Name c) = Some rec" "rid \<noteq> []" "cr_AgentID c \<noteq> []" "cr_TokenID c \<noteq> []" "cr_SessionID c \<noteq> []"
proof -
  have rid: "rid \<noteq> []" using assms(2,3) by (auto simp: Handle_def refuse_def)
  then have cl: "claim ecfg dir now (link_request rid c ty) e = (resp, e')" using assms(2) by (simp add: Handle_def)
  have ids: "cr_AgentID c \<noteq> []" "cr_TokenID c \<noteq> []" "cr_SessionID c \<noteq> []"
    using cl assms(3) by (auto simp: claim_def refuse_def split: if_splits)
  obtain st rs where "claim_done ecfg dir now (link_request rid c ty) e resp e' st rs"
    using claim_ok_done [OF assms(1) cl assms(3)] by blast
  then have "list_all2 (Claims_Claim.admitted ecfg dir now (link_request rid c ty) e) [link_tunnel c ty] (rp_Tunnels resp)"
    by (simp add: claim_done_def)
  then obtain rec where r: "rp_Tunnels resp = [rec]" "Claims_Claim.admitted ecfg dir now (link_request rid c ty) e (link_tunnel c ty) rec"
    by (auto simp: list_all2_Cons1)
  have "tl_Name rec = cr_Name c" using admitted_records(1) [OF r(2)] by (simp add: records_def)
  then have "tun e' (cr_Name c) = Some rec" using claim_tun [OF assms(1) cl assms(3), of "cr_Name c"] r(1) by simp
  then show ?thesis using that r rid ids by blast
qed

section \<open>A claim sent twice\<close>

lemma second_claim:
  assumes "tun e (cr_Name c) = Some rec" "records rec rid c ty" "Claims_Claim.admitted ecfg dir now0 (link_request rid c ty) e0 (link_tunnel c ty) rec"
    and "rid \<noteq> []" "cr_AgentID c \<noteq> []" "cr_TokenID c \<noteq> []" "cr_SessionID c \<noteq> []"
  shows "Handle ecfg dir now (link_request rid c ty) e = (refuse TUN_CLAIM_ERROR_NAME_TAKEN, e)"
proof -
  note adm = admitted_records [OF assms(3)]
  have "holder_of e (cr_Name c) (cr_SessionID c) =
      Some \<lparr>HTokenID = cr_TokenID c, HAgentID = cr_AgentID c, Connected = True, SameSession = True\<rparr>"
    using assms(1,2) by (simp add: holder_of_def records_def)
  then have "claim_check ecfg dir now e (link_request rid c ty) (link_tunnel c ty) emptyStaging = Err TUN_CLAIM_ERROR_NAME_TAKEN"
    using adm(2-4) by (auto simp: claim_check_def Decide_def split: option.splits)
  moreover have "\<not> tl_Simulated (link_tunnel c ty)" by (simp add: link_tunnel_def)
  moreover have "map_of (st_recs emptyStaging) x = None" for x by (simp add: emptyStaging_def)
  ultimately show ?thesis using assms(4-7) by (simp add: Handle_def claim_def)
qed

text \<open>C38. A claim is not idempotent, yet the relay repeats it when it gets no answer.  If
  the engine granted a claim and the answer was lost, the repeated claim of the same session is
  refused because the name is taken, by that session itself; within the retry time the
  relay passes the refusal to the agent, which treats it as final, although the
  engine records the tunnel as the session's.  Had the answer arrived, the tunnel would
  have been opened.\<close>

theorem retried_claim_refused:
  assumes "eng_excl e" "TunnelTypeOf (TunnelTypeName (cr_Type c)) = Some ty"
    and "Handle ecfg dir now (link_request rid c ty) e = (resp, e')" "rp_Error resp = TUN_CLAIM_ERROR_UNSPECIFIED"
    and "t1 \<le> t0 + claimRetry"
  shows "\<exists>rec resp2. tun e' (cr_Name c) = Some rec \<and> records rec rid c ty \<and>
    Handle ecfg dir now2 (link_request rid c ty) e' = (resp2, e') \<and>
    link_ClaimTunnel t0 (\<lambda>_. [(Some resp, t1)]) rid c = Some (Ok (tl_PublicPort rec)) \<and>
    link_ClaimTunnel t0 (\<lambda>_. [(None, t1), (Some resp2, t2)]) rid c = Some (Err (Remote ERROR_CODE_NAME_TAKEN))"
proof -
  obtain rec where r: "rp_Tunnels resp = [rec]" "Claims_Claim.admitted ecfg dir now (link_request rid c ty) e (link_tunnel c ty) rec"
    "tun e' (cr_Name c) = Some rec" "rid \<noteq> []" "cr_AgentID c \<noteq> []" "cr_TokenID c \<noteq> []" "cr_SessionID c \<noteq> []"
    by (rule granted_claim [OF assms(1,3,4)])
  note rec = admitted_records(1) [OF r(2)]
  have "Handle ecfg dir now2 (link_request rid c ty) e' = (refuse TUN_CLAIM_ERROR_NAME_TAKEN, e')"
    by (rule second_claim [OF r(3) rec r(2) r(4-7)])
  moreover have "rp_Error (refuse TUN_CLAIM_ERROR_NAME_TAKEN) = TUN_CLAIM_ERROR_NAME_TAKEN" by (simp add: refuse_def)
  ultimately show ?thesis
    using r(1,3) rec assms(2,4,5) by (auto simp: link_ClaimTunnel_def wireCode_def)
qed

definition exAsk :: ClaimRequest where
  "exAsk = \<lparr>cr_SessionID = ''s1'', cr_AgentID = ''a1'', cr_TokenID = ''t1'', cr_MaxTunnels = 2, cr_PortMin = 0, cr_PortMax = 0,
     cr_TunnelID = ''x'', cr_Name = ''web'', cr_Hostname = ''web.ex.com'', cr_Type = TUNNEL_TYPE_TCP, cr_Domains = [],
     cr_PublicPort = 0, cr_PreviousPort = 0, cr_AccessToken = False\<rparr>"

definition exGranted :: "TunClaimResponse \<times> Engine" where
  "exGranted = exHandle 0 (link_request ''r1'' exAsk TUN_TUNNEL_TYPE_TCP) New_Engine"

lemma exGranted_Handle: "Handle exCfg exDir 0 (link_request ''r1'' exAsk TUN_TUNNEL_TYPE_TCP) New_Engine = (fst exGranted, snd exGranted)"
  by (simp add: exGranted_def exHandle_def)

theorem retried_claim_refused_witness:
  "map_option tl_SessionId (tun (snd exGranted) ''web'') = Some ''s1'' \<and>
   (\<exists>resp2. Handle exCfg exDir 0 (link_request ''r1'' exAsk TUN_TUNNEL_TYPE_TCP) (snd exGranted) = (resp2, snd exGranted) \<and>
      link_ClaimTunnel 0 (\<lambda>_. [(None, 1), (Some resp2, 2)]) ''r1'' exAsk = Some (Err (Remote ERROR_CODE_NAME_TAKEN)))"
proof -
  have ok: "rp_Error (fst exGranted) = TUN_CLAIM_ERROR_UNSPECIFIED" "TunnelTypeOf (TunnelTypeName (cr_Type exAsk)) = Some TUN_TUNNEL_TYPE_TCP"
    "map_option tl_SessionId (tun (snd exGranted) ''web'') = Some ''s1''" "(1::int) \<le> 0 + claimRetry" by code_simp+
  show ?thesis
    using retried_claim_refused [OF New_Engine_inv(1) ok(2) exGranted_Handle ok(1) ok(4), of 0 2] ok(3) by blast
qed

section \<open>Opening a tunnel in a cluster\<close>

lemma claimInCluster_ok:
  assumes "claimInCluster cfg ClaimTunnel sess t spec policy = Ok p"
  shows "\<exists>lo hi. ClaimTunnel (claimRequest sess t spec policy lo hi) = Ok p"
  using assms by (auto simp: claimInCluster_def Let_def split: option.splits sum.splits if_splits prod.splits)

lemma setEndpointAddress_keeps [simp]:
  "tn_Name (setEndpointAddress cfg p t) = tn_Name t" "tn_Type (setEndpointAddress cfg p t) = tn_Type t"
  "tn_Domains (setEndpointAddress cfg p t) = tn_Domains t" "tn_access (setEndpointAddress cfg p t) = tn_access t"
  "tn_TunnelId (setEndpointAddress cfg p t) = tn_TunnelId t" "tn_Hostname (setEndpointAddress cfg p t) = tn_Hostname t"
  "hasPublicPort (tn_Type t) \<Longrightarrow> \<not> RequiresToken (tn_access t) \<Longrightarrow> tn_PublicPort (setEndpointAddress cfg p t) = p"
  by (simp_all add: setEndpointAddress_def)

lemma link_ClaimTunnel_granted:
  assumes "link_ClaimTunnel t0 (\<lambda>req. fails @ [(Some (answer req), t)]) rid c = Some (Ok p)"
    and "\<forall>(a, t')\<in>set fails. a = None \<and> t' \<le> t0 + claimRetry"
  obtains ty x where "TunnelTypeOf (TunnelTypeName (cr_Type c)) = Some ty" "rp_Error (answer (link_request rid c ty)) = TUN_CLAIM_ERROR_UNSPECIFIED"
    "rp_Tunnels (answer (link_request rid c ty)) = [x]" "tl_PublicPort x = p"
proof -
  obtain ty where ty: "TunnelTypeOf (TunnelTypeName (cr_Type c)) = Some ty"
    using assms(1) by (auto simp: link_ClaimTunnel_def split: option.splits)
  then have "claimLoop (t0 + claimRetry) [(Some (answer (link_request rid c ty)), t)] = Some (Ok p)"
    using assms(1) claimLoop_skip [OF assms(2)] by (simp add: link_ClaimTunnel_def)
  then show ?thesis using that ty unfolding claimLoop_ok by blast
qed

lemma link_ClaimTunnel_answered:
  assumes "\<forall>(a, t')\<in>set fails. a = None \<and> t' \<le> t0 + claimRetry"
  shows "link_ClaimTunnel t0 (\<lambda>req. fails @ [(Some (answer req), t)]) rid c \<noteq> None"
proof -
  have "claimLoop (t0 + claimRetry) (fails @ [(Some (answer req), t)]) \<noteq> None" for req
    by (rule claimLoop_ends) simp
  then show ?thesis by (simp add: link_ClaimTunnel_def split: option.splits)
qed

text \<open>C12. A tunnel a clustered relay opens is registered in the cluster.  When the
  relay's claims reach the engine, possibly after attempts that did not, and a tunnel is
  opened, then the engine that answered the claim records it: active, under the
  tunnel's name and ID, on this relay, for the session, its agent and its token, with the
  tunnel's domains, and its public port is the one the relay gives the agent.\<close>

theorem cluster_tunnel_registered:
  assumes "eng_excl e"
    and "re_cluster env = Some (\<lambda>c. the (link_ClaimTunnel t0 (\<lambda>req. fails @ [(Some (fst (Handle ecfg dir now req e)), t1)]) rid c))"
    and "\<forall>(a, t')\<in>set fails. a = None \<and> t' \<le> t0 + claimRetry"
    and "openTunnel cfg env sess (spec, rnd, tid) s = (Ok a, s')"
  shows "\<exists>lo hi ty rec. let t = tunnel_at s' a; c = claimRequest sess t spec (tk_Policy (as_token sess)) lo hi in
    TunnelTypeOf (TunnelTypeName (tn_Type t)) = Some ty \<and>
    tun (snd (Handle ecfg dir now (link_request rid c ty) e)) (tn_Name t) = Some rec \<and> is_active rec \<and>
    tl_TunnelId rec = tid \<and> tl_Type rec = ty \<and> tl_RelayId rec = rid \<and> tl_SessionId rec = as_id sess \<and>
    tl_AgentId rec = as_agentID sess \<and> tl_TokenId rec = tk_ID (as_token sess) \<and> tl_Domains rec = tn_Domains t \<and>
    (hasPublicPort (tn_Type t) \<and> \<not> RequiresToken (tn_access t) \<longrightarrow> tn_PublicPort t = tl_PublicPort rec)"
proof -
  let ?policy = "tk_Policy (as_token sess)" and ?ask = "\<lambda>req. fails @ [(Some (fst (Handle ecfg dir now req e)), t1)]"
  obtain access name domains i existed r1 r2 t r3 where o: "openAddress cfg env sess spec
      \<lparr>tn_session = as_addr sess, tn_res = i, tn_existed = existed, tn_TunnelId = tid, tn_Name = name,
       tn_Type = sp_Type spec, tn_Hostname = name @ ''.'' @ rc_BaseDomain cfg, tn_Domains = domains,
       tn_PublicPort = 0, tn_PublicAddress = [], tn_listening = False, tn_access = access\<rparr> r2 = (Ok t, r3)"
    "map_of (sv_tunnels s') (sv_next s) = Some t" "a = sv_next s"
    using openTunnel_Ok [OF assms(4)] by metis
  define t00 where "t00 = \<lparr>tn_session = as_addr sess, tn_res = i, tn_existed = existed, tn_TunnelId = tid, tn_Name = name,
       tn_Type = sp_Type spec, tn_Hostname = name @ ''.'' @ rc_BaseDomain cfg, tn_Domains = domains,
       tn_PublicPort = 0, tn_PublicAddress = [], tn_listening = False, tn_access = access\<rparr>"
  have at: "tunnel_at s' a = t" using o(2,3) by (simp add: tunnel_at_def)
  obtain p where p: "t = setEndpointAddress cfg p t00"
    "claimInCluster cfg (\<lambda>c. the (link_ClaimTunnel t0 ?ask rid c)) sess t00 spec ?policy = Ok p"
    using o(1) unfolding t00_def [symmetric] openAddress_def assms(2) Let_def
    by (cases "claimInCluster cfg (\<lambda>c. the (link_ClaimTunnel t0 ?ask rid c)) sess t00 spec ?policy") auto
  obtain lo hi where "the (link_ClaimTunnel t0 ?ask rid (claimRequest sess t00 spec ?policy lo hi)) = Ok p"
    using claimInCluster_ok [OF p(2)] by blast
  moreover define c where "c = claimRequest sess t00 spec ?policy lo hi"
  ultimately have "link_ClaimTunnel t0 ?ask rid c = Some (Ok p)"
    using link_ClaimTunnel_answered [OF assms(3), of "\<lambda>req. fst (Handle ecfg dir now req e)" t1 rid c] by auto
  then obtain ty x where g: "TunnelTypeOf (TunnelTypeName (cr_Type c)) = Some ty"
    "rp_Error (fst (Handle ecfg dir now (link_request rid c ty) e)) = TUN_CLAIM_ERROR_UNSPECIFIED"
    "rp_Tunnels (fst (Handle ecfg dir now (link_request rid c ty) e)) = [x]" "tl_PublicPort x = p"
    by (rule link_ClaimTunnel_granted [OF _ assms(3)])
  obtain rec where r: "rp_Tunnels (fst (Handle ecfg dir now (link_request rid c ty) e)) = [rec]"
    "Claims_Claim.admitted ecfg dir now (link_request rid c ty) e (link_tunnel c ty) rec"
    "tun (snd (Handle ecfg dir now (link_request rid c ty) e)) (cr_Name c) = Some rec"
    by (rule granted_claim [OF assms(1) prod.collapse [symmetric] g(2)])
  have c: "claimRequest sess t spec ?policy lo hi = c" by (simp add: c_def p(1) claimRequest_def)
  have f: "cr_Type c = tn_Type t" "cr_Name c = tn_Name t" "cr_TunnelID c = tid" "cr_SessionID c = as_id sess" "cr_AgentID c = as_agentID sess"
    "cr_TokenID c = tk_ID (as_token sess)" "cr_Domains c = tn_Domains t"
    by (simp_all add: c_def p(1) claimRequest_def) (simp add: t00_def)
  have "hasPublicPort (tn_Type t) \<and> \<not> RequiresToken (tn_access t) \<longrightarrow> tn_PublicPort t = tl_PublicPort rec"
    using g(3,4) r(1) by (simp add: p(1))
  then show ?thesis
    unfolding Let_def at
    using admitted_records(1) [OF r(2)] g(1) r(3) c f unfolding records_def by metis
qed

text \<open>An agent of the relay \<open>r1\<close> claims its tunnel at the second attempt.\<close>

definition exLinkEnv :: relay_env where
  "exLinkEnv = exRelayEnv\<lparr>re_cluster := Some (\<lambda>c. the (link_ClaimTunnel 0
     (\<lambda>req. [(None, 1)] @ [(Some (fst (Handle exCfg exDir 0 req New_Engine)), 2)]) ''r1'' c))\<rparr>"

definition exOpened :: "(open_error, nat) result \<times> relay_Server" where
  "exOpened = openTunnel exRelay exLinkEnv exSession (exSpec ''a'' 0, [], ''x'') exServer"

theorem cluster_tunnel_registered_witness:
  "fst exOpened = Ok 0 \<and>
   (\<exists>req rec. tun (snd (Handle exCfg exDir 0 req New_Engine)) ''a'' = Some rec \<and> tl_RelayId rec = ''r1'' \<and>
      tl_SessionId rec = ''s0'' \<and> tl_TokenId rec = ''deadbeef'')"
proof -
  have ok: "fst exOpened = Ok 0" "tn_Name (tunnel_at (snd exOpened) 0) = ''a''" "(1::int) \<le> 0 + claimRetry" by code_simp+
  have o: "openTunnel exRelay exLinkEnv exSession (exSpec ''a'' 0, [], ''x'') exServer = (Ok 0, snd exOpened)"
    using ok(1) unfolding exOpened_def by (metis prod.collapse)
  have env: "re_cluster exLinkEnv = Some (\<lambda>c. the (link_ClaimTunnel 0
     (\<lambda>req. [(None, 1)] @ [(Some (fst (Handle exCfg exDir 0 req New_Engine)), 2)]) ''r1'' c))" by (simp add: exLinkEnv_def)
  have f: "\<forall>(a, t')\<in>set [(None, 1)]. a = None \<and> t' \<le> 0 + claimRetry" using ok(3) by simp
  have ids: "as_id exSession = ''s0''" "tk_ID (as_token exSession) = ''deadbeef''" by (simp_all add: exSession_def exRecord_def)
  from cluster_tunnel_registered [OF New_Engine_inv(1) env f o] show ?thesis
    using ok(1,2) unfolding Let_def ids by metis
qed

end
