(* ===== verification/Accounts_Properties.thy ===== *)
theory Accounts_Properties
  imports Relay_Accounts Link_Properties Auth_Properties
begin

text \<open>
  Agent credentials from the operator to the relays: issuing a token, looking it
  up at a relay, revoking it, and what a relay keeps of a token that is gone.
\<close>

section \<open>Policies\<close>

lemma TunTunnelTypeName_of: "TunnelTypeOf n = Some t \<Longrightarrow> TunTunnelTypeName t = n \<and> n \<noteq> []"
  by (auto simp: TunnelTypeOf_def TunTunnelTypeName_def tunTypeNames_def get_str_def split: if_splits)

lemma TunTunnelTypeName_empty: "TunTunnelTypeName t = [] \<longleftrightarrow> t = TUN_TUNNEL_TYPE_UNSPECIFIED"
  by (cases t) (simp_all add: TunTunnelTypeName_def tunTypeNames_def get_str_def)

text \<open>A token policy survives the way between a relay and the management plane: one
  that converts is converted back to itself in either direction, as long as its tunnel
  limit fits the 32 bits it is carried in; and a policy is refused only for a tunnel
  type without a name.\<close>

theorem policy_roundtrip:
  assumes "- (2 ^ 31) \<le> MaxTunnels p" "MaxTunnels p < 2 ^ 31"
  shows "PolicyFromAuth p = Some q \<longleftrightarrow> PolicyToAuth (Some q) = Some p"
proof
  assume from_p: "PolicyFromAuth p = Some q"
  then have types: "\<forall>n\<in>set (Types p). TunnelTypeOf n \<noteq> None"
    and q: "q = \<lparr>tp_Names = Names p, tp_Types = map (\<lambda>n. the (TunnelTypeOf n)) (Types p), tp_MaxTunnels = MaxTunnels p,
      tp_Ports = Ports p, tp_RequireCert = RequireCert p, tp_Domains = Domains p\<rparr>"
    using assms by (auto simp: PolicyFromAuth_def list_ex_iff split: if_splits)
  have name: "TunTunnelTypeName (the (TunnelTypeOf n)) = n \<and> n \<noteq> []" if "n \<in> set (Types p)" for n
    using that types TunTunnelTypeName_of by fastforce
  then have "map TunTunnelTypeName (tp_Types q) = Types p" "\<not> list_ex (\<lambda>t. TunTunnelTypeName t = []) (tp_Types q)"
    by (auto simp: q list_ex_iff intro: map_idI)
  then show "PolicyToAuth (Some q) = Some p" by (simp add: PolicyToAuth_def) (simp add: q)
next
  assume to_p: "PolicyToAuth (Some q) = Some p"
  then have types: "\<forall>t\<in>set (tp_Types q). t \<noteq> TUN_TUNNEL_TYPE_UNSPECIFIED"
    and p: "p = \<lparr>Names = tp_Names q, Types = map TunTunnelTypeName (tp_Types q), MaxTunnels = tp_MaxTunnels q, Ports = tp_Ports q,
      RequireCert = tp_RequireCert q, Domains = tp_Domains q\<rparr>"
    by (auto simp: PolicyToAuth_def list_ex_iff TunTunnelTypeName_empty split: if_splits)
  have "map (\<lambda>n. the (TunnelTypeOf n)) (map TunTunnelTypeName (tp_Types q)) = tp_Types q"
    using types by (auto simp: TunnelTypeOf_name intro: map_idI)
  then show "PolicyFromAuth p = Some q"
    using types assms by (auto simp: PolicyFromAuth_def p list_ex_iff TunnelTypeOf_name)
qed

theorem policy_roundtrip_witness:
  "\<exists>q. PolicyFromAuth exTokenPolicy = Some q \<and> PolicyToAuth (Some q) = Some exTokenPolicy"
proof -
  have "PolicyFromAuth exTokenPolicy \<noteq> None" "- (2 ^ 31) \<le> MaxTunnels exTokenPolicy" "MaxTunnels exTokenPolicy < 2 ^ 31"
    by code_simp+
  then show ?thesis using policy_roundtrip [of exTokenPolicy] by auto
qed

section \<open>Issuing\<close>

text \<open>The backend reads the database.\<close>

definition backend_db :: "access_db \<Rightarrow> backend" where
  "backend_db db = \<lparr>bk_Token = (\<lambda>i. Some (db_Token db i)), bk_Tokens = Some (db_Tokens db), bk_Certs = Some (db_Certs db),
     bk_Keys = Some (db_Keys db)\<rparr>"





definition exDB :: access_db where
  "exDB = \<lparr>db_tokens = [], db_certs = [], db_resvs = [], db_keys = [], db_pushed = []\<rparr>"

definition exWanted :: TunTokenPolicy where
  "exWanted = \<lparr>tp_Names = [''a''], tp_Types = [TUN_TUNNEL_TYPE_TCP], tp_MaxTunnels = 1, tp_Ports = [], tp_RequireCert = False, tp_Domains = []\<rparr>"



section \<open>Revoking\<close>

text \<open>The tables have their records under the records' keys.\<close>

definition db_ok :: "access_db \<Rightarrow> bool" where
  "db_ok db \<longleftrightarrow> map_ok (db_tokens db) \<and> map_ok (db_certs db) \<and> map_ok (db_resvs db) \<and>
     (\<forall>(k, t)\<in>set (db_tokens db). to_TokenId t = k \<and> k \<noteq> []) \<and> (\<forall>(k, c)\<in>set (db_certs db). ct_CertId c = k \<and> k \<noteq> []) \<and>
     (\<forall>(k, r)\<in>set (db_resvs db). rs_ReservationId r = k \<and> k \<noteq> [])"

lemma deleteCerts_spec:
  "deleteCerts ok i cs (n, db) = (fin, n', db') \<Longrightarrow>
     db_tokens db' = db_tokens db \<and> db_resvs db' = db_resvs db \<and> db_keys db' = db_keys db \<and> db_pushed db' = db_pushed db \<and>
     (fin \<longrightarrow> n' = n + length (filter (\<lambda>c. ct_TokenId c = i) cs) \<and>
        (\<forall>k. map_of (db_certs db') k = (if \<exists>c\<in>set cs. ct_TokenId c = i \<and> ct_CertId c = k then None else map_of (db_certs db) k))) \<and>
     ((\<forall>x. ok x) \<longrightarrow> fin) \<and> (map_ok (db_certs db) \<longrightarrow> map_ok (db_certs db'))"
proof (induction cs arbitrary: n db)
  case (Cons c cs)
  show ?case
  proof (cases "ct_TokenId c = i \<and> ok (DeleteCert (ct_CertId c))")
    case True
    then have "deleteCerts ok i cs (n + 1, db\<lparr>db_certs := AList.delete (ct_CertId c) (db_certs db)\<rparr>) = (fin, n', db')"
      using Cons.prems by simp
    from Cons.IH [OF this] True show ?thesis by (auto simp: delete_conv' map_ok_def distinct_delete)
  next
    case False
    show ?thesis
    proof (cases "ct_TokenId c = i")
      case False
      then show ?thesis using Cons.IH [of n db] Cons.prems by auto
    qed (use False Cons.prems in auto)
  qed
qed simp

lemma deleteResvs_spec:
  "deleteResvs ok i rs (n, db) = (fin, n', db') \<Longrightarrow>
     db_tokens db' = db_tokens db \<and> db_certs db' = db_certs db \<and> db_keys db' = db_keys db \<and> db_pushed db' = db_pushed db \<and>
     (fin \<longrightarrow> n' = n + length (filter (\<lambda>r. rs_TokenId r = i) rs) \<and>
        (\<forall>k. map_of (db_resvs db') k = (if \<exists>r\<in>set rs. rs_TokenId r = i \<and> rs_ReservationId r = k then None else map_of (db_resvs db) k))) \<and>
     ((\<forall>x. ok x) \<longrightarrow> fin) \<and> (map_ok (db_resvs db) \<longrightarrow> map_ok (db_resvs db'))"
proof (induction rs arbitrary: n db)
  case (Cons r rs)
  show ?case
  proof (cases "rs_TokenId r = i \<and> ok (DeleteResv (rs_ReservationId r))")
    case True
    then have "deleteResvs ok i rs (n + 1, db\<lparr>db_resvs := AList.delete (rs_ReservationId r) (db_resvs db)\<rparr>) = (fin, n', db')"
      using Cons.prems by simp
    from Cons.IH [OF this] True show ?thesis by (auto simp: delete_conv' map_ok_def distinct_delete)
  next
    case False
    show ?thesis
    proof (cases "rs_TokenId r = i")
      case False
      then show ?thesis using Cons.IH [of n db] Cons.prems by auto
    qed (use False Cons.prems in auto)
  qed
qed simp

lemma db_Token_Some:
  "db_ok db \<Longrightarrow> db_Token db i = Some tok \<Longrightarrow> map_of (db_tokens db) i = Some tok \<and> to_TokenId tok = i"
  by (auto simp: db_Token_def db_ok_def map_of_mem split: option.splits if_splits)

lemma table_at:
  assumes "map_ok m" "\<forall>(k, r)\<in>set m. key r = k \<and> k \<noteq> []"
  shows "(\<exists>r\<in>set (filter (\<lambda>r. key r \<noteq> []) (map snd m)). P r \<and> key r = k) \<longleftrightarrow> (\<exists>r. map_of m k = Some r \<and> P r)"
proof
  assume "\<exists>r\<in>set (filter (\<lambda>r. key r \<noteq> []) (map snd m)). P r \<and> key r = k"
  then obtain k' r where r: "(k', r) \<in> set m" "P r" "key r = k" by auto
  then have "k' = k" using assms(2) by auto
  then show "\<exists>r. map_of m k = Some r \<and> P r" using r(1,2) map_of_mem [OF assms(1)] by blast
next
  assume "\<exists>r. map_of m k = Some r \<and> P r"
  then obtain r where r: "(k, r) \<in> set m" "P r" using map_of_mem [OF assms(1)] by blast
  then have "key r = k" "k \<noteq> []" using assms(2) by auto
  then show "\<exists>r\<in>set (filter (\<lambda>r. key r \<noteq> []) (map snd m)). P r \<and> key r = k" using r by force
qed

lemma db_Certs_at:
  assumes "db_ok db"
  shows "(\<exists>c\<in>set (db_Certs db). ct_TokenId c = i \<and> ct_CertId c = k) \<longleftrightarrow> (\<exists>c. map_of (db_certs db) k = Some c \<and> ct_TokenId c = i)"
  unfolding db_Certs_def by (rule table_at) (use assms in \<open>simp_all add: db_ok_def\<close>)

lemma db_Reservations_at:
  assumes "db_ok db"
  shows "(\<exists>r\<in>set (db_Reservations db). rs_TokenId r = i \<and> rs_ReservationId r = k) \<longleftrightarrow> (\<exists>r. map_of (db_resvs db) k = Some r \<and> rs_TokenId r = i)"
  unfolding db_Reservations_def by (rule table_at) (use assms in \<open>simp_all add: db_ok_def\<close>)

text \<open>The records of a table that are not a token's.\<close>

definition without :: "('r \<Rightarrow> string) \<Rightarrow> string \<Rightarrow> 'r option \<Rightarrow> 'r option" where
  "without token i r = (case r of Some x \<Rightarrow> if token x = i then None else Some x | None \<Rightarrow> None)"

text \<open>Revoking a token removes all of it: when no step fails, the token is gone, with
  every certificate and every reservation of it and nothing else, the answer counts what was
  removed, and the relays are told.\<close>

theorem revoke_complete:
  assumes "db_ok db" "db_Token db i = Some tok" "revoke (\<lambda>_. True) i db = (res, db')"
  shows "res = Ok (length (filter (\<lambda>c. ct_TokenId c = i) (db_Certs db)), length (filter (\<lambda>r. rs_TokenId r = i) (db_Reservations db))) \<and>
    map_of (db_tokens db') = (map_of (db_tokens db))(i := None) \<and> db_pushed db' = db_pushed db @ [i] \<and> db_keys db' = db_keys db \<and>
    (\<forall>k. map_of (db_certs db') k = without ct_TokenId i (map_of (db_certs db) k)) \<and>
    (\<forall>k. map_of (db_resvs db') k = without rs_TokenId i (map_of (db_resvs db) k))"
proof -
  let ?db1 = "db\<lparr>db_tokens := AList.delete i (db_tokens db), db_pushed := db_pushed db @ [i]\<rparr>"
  note tok = db_Token_Some [OF assms(1,2)]
  obtain fin certs db2 where d2: "deleteCerts (\<lambda>_. True) i (db_Certs ?db1) (0, ?db1) = (fin, certs, db2)" by (rule prod_cases3)
  obtain fin' resvs db3 where d3: "deleteResvs (\<lambda>_. True) i (db_Reservations db2) (0, db2) = (fin', resvs, db3)" by (rule prod_cases3)
  note c = deleteCerts_spec [OF d2] and r = deleteResvs_spec [OF d3]
  have fin: "fin" "fin'" using c r by simp_all
  have res: "res = Ok (certs, resvs)" "db' = db3"
    using assms(3) tok d2 d3 fin by (simp_all add: revoke_def assms(2) Let_def)
  have same: "db_Certs ?db1 = db_Certs db" "db_Reservations db2 = db_Reservations db"
    using c by (simp_all add: db_Certs_def db_Reservations_def)
  have "map_of (db_certs db') k = without ct_TokenId i (map_of (db_certs db) k)" for k
    using c r fin db_Certs_at [OF assms(1), of i k] unfolding same res(2) by (auto simp: without_def split: option.splits)
  moreover have "map_of (db_resvs db') k = without rs_TokenId i (map_of (db_resvs db) k)" for k
    using c r fin db_Reservations_at [OF assms(1), of i k] unfolding same res(2) by (auto simp: without_def split: option.splits)
  moreover have "map_of (db_tokens db') = (map_of (db_tokens db))(i := None)"
    using c r unfolding res(2) by (auto simp: delete_conv')
  ultimately show ?thesis using c r fin unfolding same res by simp
qed

definition exHeld :: access_db where
  "exHeld = exDB\<lparr>
     db_tokens := [(''61626364'', \<lparr>to_TokenId = ''61626364'', to_Name = ''ci'', to_Description = [], to_SecretHash = ''h'', to_Policy = Some exWanted,
                         to_CreatedAt = 5, to_CreatedBy = []\<rparr>)],
     db_certs := [(''01'', \<lparr>ct_CertId = ''01'', ct_TokenId = ''61626364'', ct_CommonName = ''ci'', ct_NotBefore = 0, ct_NotAfter = 9,
                         ct_Fingerprint = ''f'', ct_Revoked = False, ct_CreatedAt = 5\<rparr>)],
     db_resvs := [(''r'', \<lparr>rs_ReservationId = ''r'', rs_Name = ''a'', rs_TokenId = ''61626364'', rs_PublicPort = 0, rs_Note = [], rs_CreatedAt = 5\<rparr>)]\<rparr>"

lemma exHeld_ok: "db_ok exHeld"
  by (simp add: db_ok_def map_ok_def exHeld_def exDB_def)

theorem revoke_complete_witness:
  "fst (revoke (\<lambda>_. True) ''61626364'' exHeld) = Ok (1, 1) \<and> map_of (db_tokens (snd (revoke (\<lambda>_. True) ''61626364'' exHeld))) ''61626364'' = None"
proof -
  have "db_Token exHeld ''61626364'' \<noteq> None" and ok: "fst (revoke (\<lambda>_. True) ''61626364'' exHeld) = Ok (1, 1)" by code_simp+
  then obtain tok where "db_Token exHeld ''61626364'' = Some tok" by auto
  from revoke_complete [OF exHeld_ok this prod.collapse [symmetric]] show ?thesis using ok by simp
qed

text \<open>C39. A revocation that fails on the way cannot be repeated.  The token is deleted
  first; if reading or deleting its certificates or reservations then fails, every
  further attempt is refused because the token does not exist, and changes nothing: the
  reservations that were left keep their names for a token nobody has.\<close>

theorem revoke_not_resumable:
  assumes "db_ok db" "db_Token db i = Some tok" "ok ReadToken" "ok DeleteToken" "revoke ok i db = (Err e, db')"
  shows "revoke ok' i db' = (Err (if ok' ReadToken then DoesNotExist i else Unavailable), db')"
proof -
  let ?db1 = "db\<lparr>db_tokens := AList.delete i (db_tokens db), db_pushed := db_pushed db @ [i]\<rparr>"
  note tok = db_Token_Some [OF assms(1,2)]
  obtain fin certs db2 where d2: "deleteCerts ok i (db_Certs ?db1) (0, ?db1) = (fin, certs, db2)" by (rule prod_cases3)
  obtain fin' resvs db3 where d3: "deleteResvs ok i (db_Reservations db2) (0, db2) = (fin', resvs, db3)" by (rule prod_cases3)
  have "db' = ?db1 \<or> db' = db2 \<or> db' = db3"
    using assms(3-5) tok d2 d3 by (auto simp: revoke_def assms(2) Let_def split: if_splits bool.splits)
  then have "db_tokens db' = AList.delete i (db_tokens db)"
    using deleteCerts_spec [OF d2] deleteResvs_spec [OF d3] by auto
  then have "db_Token db' i = None" by (simp add: db_Token_def delete_conv')
  then show ?thesis by (simp add: revoke_def)
qed

text \<open>Here the reservations could not be read.\<close>

definition exHalf :: access_db where
  "exHalf = snd (revoke (\<lambda>x. x \<noteq> ReadResvs) ''61626364'' exHeld)"

theorem revoke_not_resumable_witness:
  "revoke (\<lambda>_. True) ''61626364'' exHalf = (Err (DoesNotExist ''61626364''), exHalf) \<and> map rs_Name (db_Reservations exHalf) = [''a'']"
proof -
  have "db_Token exHeld ''61626364'' \<noteq> None" and f: "fst (revoke (\<lambda>x. x \<noteq> ReadResvs) ''61626364'' exHeld) = Err Unavailable"
    and left: "map rs_Name (db_Reservations exHalf) = [''a'']" by code_simp+
  then obtain tok where t: "db_Token exHeld ''61626364'' = Some tok" by auto
  have "revoke (\<lambda>x. x \<noteq> ReadResvs) ''61626364'' exHeld = (Err Unavailable, exHalf)"
    using f unfolding exHalf_def by (metis prod.collapse)
  from revoke_not_resumable [OF exHeld_ok t _ _ this, of "\<lambda>_. True"] show ?thesis using left by simp
qed

section \<open>What a relay keeps\<close>

















text \<open>C40. A relay that starts and can read the credentials, but not save them, goes back to
  the old ones: the failed save counts as an unreachable backend, and the snapshot is
  loaded over what was just read.  A record in the snapshot then wins, also that of
  a token deleted since or of one whose policy has changed; had the save worked, the relay would have
  exactly what the backend has.\<close>

theorem failed_save_restores:
  assumes "bk_Tokens bk = Some toks" "bk_Certs bk = Some certs" "bk_Keys bk = Some keys"
    and "an_saved a = Some (saved, savedKeys)" "distinct (map tk_ID saved)" "rec \<in> set saved"
  shows "fst (loadAccounts bk False a) \<and> map_of (an_tokens (snd (loadAccounts bk False a))) (tk_ID rec) = Some rec \<and>
    loadAccounts bk True a = refresh bk True a \<and> an_tokens (snd (refresh bk True a)) = tokensByID toks certs"
proof -
  have at: "map_of (fold (\<lambda>t. AList.update (tk_ID t) t) ts m) i = (case find (\<lambda>t. tk_ID t = i) ts of Some t \<Rightarrow> Some t | None \<Rightarrow> map_of m i)"
    if "distinct (map tk_ID ts)" for ts :: "TokenRecord list" and m i
    using that
  proof (induction ts arbitrary: m)
    case (Cons t ts)
    have "find (\<lambda>u. tk_ID u = tk_ID t) ts = None" using Cons.prems by (auto simp: find_None_iff_all image_iff)
    then show ?case using Cons.IH [of "AList.update (tk_ID t) t m"] Cons.prems
      by (cases "tk_ID t = i") (auto simp: update_conv' split: option.splits)
  qed simp
  have "find (\<lambda>t. tk_ID t = tk_ID rec) saved = Some rec"
    using assms(5,6) by (induction saved) (auto simp: rev_image_eqI)
  then show ?thesis
    using at [OF assms(5)] by (simp add: loadAccounts_def refresh_def accounts_load_def assms(1-4) Let_def)
qed

theorem failed_save_restores_witness:
  "an_tokens (snd (loadAccounts (backend_db exDB) True (newAccounts (Some ([exRecord], []))))) = [] \<and>
   map_of (an_tokens (snd (loadAccounts (backend_db exDB) False (newAccounts (Some ([exRecord], [])))))) (tk_ID exRecord) = Some exRecord"
proof -
  let ?a = "newAccounts (Some ([exRecord], []))"
  have h: "bk_Tokens (backend_db exDB) = Some []" "bk_Certs (backend_db exDB) = Some []" "bk_Keys (backend_db exDB) = Some []"
    "an_saved ?a = Some ([exRecord], [])"
    by (simp_all add: backend_db_def db_Tokens_def db_Certs_def db_Keys_def exDB_def newAccounts_def)
  show ?thesis
    using failed_save_restores [OF h, of exRecord] by (simp add: tokensByID_def)
qed

end
